theory Spec2Isabelle
  imports Complex_Main "HOL-Library.Multiset"
begin

section \<open>Token/length guard (App.tsx, lines 107--141)\<close>

text \<open>
  JavaScript strings are modelled as \<^typ>\<open>string\<close>, a list of code units, so that
  \<open>text.length\<close> is \<^const>\<open>length\<close>, \<open>prompt[i]\<close> is \<open>prompt ! i\<close> for an index in
  range, and \<open>prompt.substring(i)\<close> is \<^const>\<open>drop\<close>, which, like \<open>substring\<close>,
  yields the empty string when \<open>i\<close> is at or beyond the end. Token budgets are counts and
  are modelled as \<^typ>\<open>nat\<close>.
\<close>

definition MAX_CONTEXT_TOKENS :: nat where
  "MAX_CONTEXT_TOKENS = 12000"

text \<open>\<open>const countTokens = (text) => Math.ceil(text.length / 4)\<close>\<close>

definition countTokens :: "string \<Rightarrow> nat" where
  "countTokens text = nat \<lceil>real (length text) / 4\<rceil>"

text \<open>
  The \<open>while\<close> loop that advances \<open>splitIndex\<close> to the next line feed or to the end of the
  prompt.
\<close>

function splitLoop :: "string \<Rightarrow> nat \<Rightarrow> nat" where
  "splitLoop prompt splitIndex =
     (if splitIndex < length prompt \<and> prompt ! splitIndex \<noteq> CHR ''\<newline>''
      then splitLoop prompt (Suc splitIndex)
      else splitIndex)"
  by pat_completeness auto
termination
  by (relation "measure (\<lambda>(prompt, splitIndex). length prompt - splitIndex)") auto

declare splitLoop.simps [simp del]

definition truncationMarker :: string where
  "truncationMarker =
     ''[... previous content truncated to fit token limit ...]'' @ [CHR ''\<newline>'', CHR ''\<newline>'']"

definition truncatePromptIfNeeded :: "string \<Rightarrow> nat \<Rightarrow> string" where
  "truncatePromptIfNeeded prompt maxTokens =
     (let currentTokens = countTokens prompt in
      if currentTokens \<le> maxTokens then prompt
      else
        let excessTokens = currentTokens - maxTokens;
            charsToRemove = excessTokens * 4;
            splitIndex = splitLoop prompt charsToRemove;
            truncatedPrompt = drop splitIndex prompt
        in truncationMarker @ truncatedPrompt)"

section \<open>Statistics and decision (App.tsx, lines 417--436)\<close>

text \<open>
  Scores are JavaScript numbers. Finite numbers are modelled as \<^typ>\<open>real\<close>, so the
  rounding of floating-point arithmetic is not part of the model: the mean, the variance
  and the deviation below are the exact ones, which the source approximates in double
  precision, and a label or decision of the model is the one of the source wherever the
  rounded value lies on the same side of the thresholds as the exact one. The one
  non-finite value the aggregation can produce from finite scores is \<open>NaN\<close> (from \<open>0 / 0\<close>
  and from \<open>undefined + undefined\<close> on an empty score list), and it is kept as a value of
  its own. Every comparison with \<open>NaN\<close> is false.
\<close>

datatype jsnum = NaN | Fin real

fun js_le :: "jsnum \<Rightarrow> real \<Rightarrow> bool" where
  "js_le NaN c = False"
| "js_le (Fin x) c = (x \<le> c)"

fun js_ge :: "jsnum \<Rightarrow> real \<Rightarrow> bool" where
  "js_ge NaN c = False"
| "js_ge (Fin x) c = (x \<ge> c)"

fun js_gt :: "jsnum \<Rightarrow> real \<Rightarrow> bool" where
  "js_gt NaN c = False"
| "js_gt (Fin x) c = (x > c)"

text \<open>
  \<open>numerator / scores.length\<close>: over a positive length this is the quotient; over
  length 0 the numerator is the initial value 0 of \<open>reduce\<close>, and \<open>0 / 0\<close> is \<open>NaN\<close>.
\<close>

definition overLength :: "real \<Rightarrow> nat \<Rightarrow> jsnum" where
  "overLength numerator n = (if n = 0 then NaN else Fin (numerator / real n))"

text \<open>\<open>Math.sqrt\<close>: \<open>NaN\<close> for \<open>NaN\<close> and for negative arguments.\<close>

fun js_sqrt :: "jsnum \<Rightarrow> jsnum" where
  "js_sqrt NaN = NaN"
| "js_sqrt (Fin x) = (if x < 0 then NaN else Fin (sqrt x))"

text \<open>\<open>xs[i]\<close> on an array: \<open>undefined\<close> (here \<open>None\<close>) outside the index range.\<close>

definition at_index :: "real list \<Rightarrow> int \<Rightarrow> real option" where
  "at_index xs i = (if 0 \<le> i \<and> i < int (length xs) then Some (xs ! nat i) else None)"

text \<open>\<open>(a + b) / 2\<close> on two array reads: \<open>undefined + x\<close> is \<open>NaN\<close>.\<close>

fun halfSum :: "real option \<Rightarrow> real option \<Rightarrow> jsnum" where
  "halfSum (Some a) (Some b) = Fin ((a + b) / 2)"
| "halfSum _ _ = NaN"

fun read_num :: "real option \<Rightarrow> jsnum" where
  "read_num (Some a) = Fin a"
| "read_num None = NaN"

text \<open>\<open>scores.reduce((sum, score) => sum + score, 0) / scores.length\<close>\<close>

definition mean :: "real list \<Rightarrow> jsnum" where
  "mean scores = overLength (foldl (\<lambda>sum score. sum + score) 0 scores) (length scores)"

text \<open>
  \<open>[...scores].sort((a, b) => a - b)\<close> orders the numbers ascending; \<^const>\<open>sort\<close> does
  the same (an ascending ordering of a list of reals is unique).
\<close>

definition median :: "real list \<Rightarrow> jsnum" where
  "median scores =
     (let sortedScores = sort scores;
          mid = int (length sortedScores div 2)
      in if length sortedScores mod 2 = 0
         then halfSum (at_index sortedScores (mid - 1)) (at_index sortedScores mid)
         else read_num (at_index sortedScores mid))"

text \<open>
  \<open>scores.reduce((sum, score) => sum + Math.pow(score - mean, 2), 0) / scores.length\<close>.
  The callback runs only on a non-empty list, where \<open>mean\<close> is finite.
\<close>

definition variance :: "real list \<Rightarrow> jsnum" where
  "variance scores =
     (case mean scores of
        NaN \<Rightarrow> overLength 0 (length scores)
      | Fin m \<Rightarrow> overLength (foldl (\<lambda>sum score. sum + (score - m)\<^sup>2) 0 scores) (length scores))"

definition standardDeviation :: "real list \<Rightarrow> jsnum" where
  "standardDeviation scores = js_sqrt (variance scores)"

text \<open>Lines 428--431: the confidence label of the aggregation path.\<close>

definition confidenceLevel :: "real list \<Rightarrow> string" where
  "confidenceLevel scores =
     (if js_le (standardDeviation scores) 5 then ''High''
      else if js_le (standardDeviation scores) 15 then ''Medium''
      else ''Low'')"

text \<open>Lines 433--436: the decision of the aggregation path, from the median.\<close>

definition decision :: "jsnum \<Rightarrow> string" where
  "decision med =
     (if js_ge med 70 then ''Proceed''
      else if js_ge med 50 then ''Proceed with Caution''
      else ''Do not proceed'')"

record statistics =
  stat_mean :: jsnum
  stat_median :: jsnum
  stat_standardDeviation :: jsnum
  stat_confidenceLevel :: string

record finalResult =
  fr_decision :: string
  medianScore :: jsnum
  fr_statistics :: statistics

text \<open>
  The aggregated result of lines 439--450, without the \<open>justification\<close> sentence (a
  template over the same three values) and without the iteration records, which
  \<open>runDiscussionAndDecision\<close> below carries.
\<close>

definition aggregate :: "real list \<Rightarrow> finalResult" where
  "aggregate scores =
     \<lparr>fr_decision = decision (median scores),
      medianScore = median scores,
      fr_statistics =
        \<lparr>stat_mean = mean scores,
         stat_median = median scores,
         stat_standardDeviation = standardDeviation scores,
         stat_confidenceLevel = confidenceLevel scores\<rparr>\<rparr>"

section \<open>Rendering of the recommendation (App.tsx, lines 853--877)\<close>

text \<open>
  \<open>renderFinalDecision\<close> parses the stored result and classifies
  \<open>Math.round(parsed.statistics.median)\<close>. \<open>Math.round\<close> rounds to the nearest integer,
  halves upwards. A \<open>NaN\<close> median is written by \<open>JSON.stringify\<close> as \<open>null\<close>, which
  \<open>Math.round\<close> turns into 0.
\<close>

fun roundedMedian :: "jsnum \<Rightarrow> int" where
  "roundedMedian NaN = 0"
| "roundedMedian (Fin x) = \<lfloor>x + 1 / 2\<rfloor>"

definition recommendation :: "jsnum \<Rightarrow> string" where
  "recommendation med =
     (let medianScore = roundedMedian med in
      if medianScore > 80 then ''Proceed''
      else if medianScore \<ge> 50 then ''Proceed with Caution''
      else if medianScore \<ge> 30 then ''Not Recommended''
      else ''Do Not Proceed'')"

section \<open>JavaScript values and builtins\<close>

text \<open>
  The value \<open>JSON.parse\<close> returns, and \<open>undefined\<close> as \<^const>\<open>None\<close> of
  \<open>json option\<close>. An object is the list of its properties, a name listed once; reading
  a property looks the name up in the list. Numbers are reals and strings are lists of
  characters, which stand for the code units of a JavaScript string.
\<close>

datatype json =
  JNull | JBool bool | JNum real | JStr string | JArr "json list" | JObj "(string \<times> json) list"

type_synonym jsval = "json option"

text \<open>A thrown \<open>TypeError\<close> with its message.\<close>

datatype thrown = TypeError string

text \<open>Truthiness, as \<open>||\<close> and \<open>if\<close> test it (\<open>JSON.parse\<close> yields no \<open>NaN\<close>).\<close>

fun truthy :: "jsval \<Rightarrow> bool" where
  "truthy None = False"
| "truthy (Some JNull) = False"
| "truthy (Some (JBool b)) = b"
| "truthy (Some (JNum x)) = (x \<noteq> 0)"
| "truthy (Some (JStr s)) = (s \<noteq> [])"
| "truthy (Some (JArr xs)) = True"
| "truthy (Some (JObj props)) = True"

text \<open>
  \<open>value.key\<close> for a value other than \<open>null\<close> and for the property names the code reads
  (\<open>feasibilityScore\<close>, \<open>rationale\<close>, \<open>keyFactors\<close>), which only an object can hold.
\<close>

fun property :: "json \<Rightarrow> string \<Rightarrow> jsval" where
  "property (JObj props) key = map_of props key"
| "property v key = None"

text \<open>
  Whether the conversion of a value to a string returns, as a template literal performs it
  on an interpolated value. The conversion of an object calls its \<open>toString\<close> and then its
  \<open>valueOf\<close> if they are functions, and throws a \<open>TypeError\<close> when neither yields a
  primitive value. A property of a parsed object is never a function, and the inherited
  \<open>valueOf\<close> returns the object itself; so the conversion throws for an object that has a
  property \<open>toString\<close> of its own, and yields the inherited \<open>[object Object]\<close> for every
  other object. The conversion of an array joins the conversions of its elements
  (\<open>null\<close> gives the empty string), so it throws when the conversion of an element does.
  Numbers, strings, booleans, \<open>null\<close> and \<open>undefined\<close> have a string.
\<close>

fun convertible :: "json \<Rightarrow> bool" where
  "convertible (JObj props) = (map_of props ''toString'' = None)"
| "convertible (JArr xs) = (\<forall>x \<in> set xs. convertible x)"
| "convertible v = True"

definition convertibleValue :: "jsval \<Rightarrow> bool" where
  "convertibleValue v = (case v of None \<Rightarrow> True | Some x \<Rightarrow> convertible x)"

text \<open>
  \<open>String(n)\<close> for a natural number, as a template literal prints it (the iteration
  number and the status of a response, far below the size at which JavaScript changes to
  the exponent notation).
\<close>

function decimal :: "nat \<Rightarrow> string" where
  "decimal n =
     (if n < 10 then [char_of (48 + n)]
      else decimal (n div 10) @ [char_of (48 + n mod 10)])"
  by pat_completeness auto
termination
  by (relation "measure (\<lambda>n. n)") auto

declare decimal.simps [simp del]

text \<open>\<open>xs.join(sep)\<close>\<close>

fun joinWith :: "string \<Rightarrow> string list \<Rightarrow> string" where
  "joinWith sep [] = []"
| "joinWith sep [x] = x"
| "joinWith sep (x # y # ys) = x @ sep @ joinWith sep (y # ys)"

text \<open>\<open>s.split(c)\<close> for a one-character separator.\<close>

fun splitOn :: "char \<Rightarrow> string \<Rightarrow> string list" where
  "splitOn sep [] = [[]]"
| "splitOn sep (c # cs) =
     (if c = sep then [] # splitOn sep cs
      else (case splitOn sep cs of [] \<Rightarrow> [[c]] | piece # pieces \<Rightarrow> (c # piece) # pieces))"

text \<open>
  \<open>s.trim()\<close>: white space and line terminators are removed at both ends (among the code
  units below 256 these are tab, line feed, vertical tab, form feed, carriage return,
  space and no-break space).
\<close>

definition isWhiteSpace :: "char \<Rightarrow> bool" where
  "isWhiteSpace c \<longleftrightarrow>
     c \<in> set [CHR 0x09, CHR 0x0A, CHR 0x0B, CHR 0x0C, CHR 0x0D, CHR 0x20, CHR 0xA0]"

definition trim :: "string \<Rightarrow> string" where
  "trim s = rev (dropWhile isWhiteSpace (rev (dropWhile isWhiteSpace s)))"

text \<open>\<open>s.startsWith(p)\<close>\<close>

definition startsWith :: "string \<Rightarrow> string \<Rightarrow> bool" where
  "startsWith s p \<longleftrightarrow> take (length p) s = p"

section \<open>Data model (types.ts and the interfaces of App.tsx and geminiService.ts)\<close>

datatype mimeType = ApplicationJson | TextPlain

record AgentConfig =
  configId :: string
  name :: string
  description :: string
  model :: string
  prompt :: string
  systemInstruction :: "string option"
  responseMimeType :: "mimeType option"
  responseSchema :: "json option"
  maxOutputTokens :: "nat option"
  thinkingConfig :: "nat option"

text \<open>
  The argument of \<open>runAgentQuery\<close>. The code tests \<open>useGoogleSearch\<close> for truthiness only, so
  an absent one is \<^const>\<open>False\<close>.
\<close>

record RunAgentQueryArgs = AgentConfig +
  useGoogleSearch :: bool
  seed :: "real option"
  temperature :: "real option"

record FrameworkConfig =
  iterations :: nat
  frameworkSeed :: "real option"
  frameworkTemperature :: "real option"
  frameworkDescription :: string

record searchSource =
  title :: "string option"
  uri :: "string option"
  snippet :: "string option"

record groundingChunk =
  web :: "searchSource option"

record groundingMetadata =
  webSearchQueries :: "string list option"
  groundingChunks :: "groundingChunk list option"

record GoogleSearchMetadata =
  used :: bool
  queriesCount :: nat
  sourcesCount :: nat
  queries :: "string list option"
  sources :: "searchSource list option"
  rawMetadata :: "groundingMetadata option"

record TokenUsage =
  inputTokens :: nat
  outputTokens :: nat

record AgentMetrics =
  duration :: real
  tokenUsage :: TokenUsage
  googleSearchUsage :: "GoogleSearchMetadata option"

record GoogleSearchSummary =
  totalUsageCount :: nat
  totalQueries :: nat
  totalSources :: nat
  agentsUsed :: "string list"

record FrameworkMetrics =
  totalDuration :: real
  totalInputTokens :: nat
  totalOutputTokens :: nat
  agentBreakdown :: "string \<rightharpoonup> AgentMetrics"
  googleSearchSummary :: GoogleSearchSummary

datatype messageType = UserMessage | AgentMessage

record UserChatMessage =
  messageType :: messageType
  agentId :: string
  agentName :: string
  message :: string

text \<open>The \<open>evaluationResult\<close> object of \<open>runSingleIteration\<close> (lines 334--339, 346--351).\<close>

record evaluationResult =
  iteration :: nat
  feasibilityScore :: jsval
  rationale :: jsval
  keyFactors :: jsval

text \<open>An entry of \<open>independentEvaluations\<close> (lines 389--392).\<close>

record independentEvaluation = evaluationResult +
  discussionHistory :: "UserChatMessage list"

section \<open>The external world\<close>

text \<open>
  What \<open>ai.models.generateContent\<close> receives: the model, the prompt and the \<open>config\<close>
  object of geminiService.ts. A field the source leaves out of the object is \<^const>\<open>None\<close>;
  \<open>tools\<close> is left out when it is empty.
\<close>

datatype tool = GoogleSearch

record generateContentParams =
  requestModel :: string
  contents :: string
  requestTemperature :: real
  requestSeed :: "real option"
  tools :: "tool list"
  requestSystemInstruction :: "string option"
  requestMimeType :: "mimeType option"
  requestSchema :: "json option"
  requestMaxOutputTokens :: "nat option"
  requestThinkingConfig :: "nat option"

text \<open>
  The call either fails (the promise is rejected) or yields a response, of which the code
  reads \<open>response.text\<close> and \<open>response.candidates?.[0]?.groundingMetadata\<close>. The text
  is a string, as \<open>runAgentQuery\<close> declares for its result.
\<close>

datatype generateContentOutcome = Rejected | Response string "groundingMetadata option"

text \<open>
  \<open>fetch(url)\<close> is rejected with an error message, or yields a response with its \<open>ok\<close>
  flag, its status and its text (or the message with which reading the text fails).
\<close>

datatype fetchOutcome = FetchRejected string | FetchResponse bool nat "string + string"

text \<open>
  Everything outside the repository is a parameter of the model. The outside world is a
  state of any type \<open>'w\<close>; the clock and the generation service read and change it.
  \<^item> \<open>GEMINI_API_KEY\<close>: whether \<open>process.env.GEMINI_API_KEY\<close> is set;
  \<^item> \<open>performance_now\<close>: \<open>performance.now()\<close>;
  \<^item> \<open>generateContent\<close>: \<open>ai.models.generateContent\<close>;
  \<^item> \<open>fetch\<close>: the browser's \<open>fetch\<close>;
  \<^item> \<open>fenceMatch\<close>: the second group of \<open>content.match(fenceRegex)\<close> when the regular
    expression matches;
  \<^item> \<open>JSON_parse\<close>: \<open>JSON.parse\<close>, with the message of the \<open>SyntaxError\<close> on the left;
  \<^item> \<open>JSON_stringify\<close>: \<open>JSON.stringify(value, null, 2)\<close> on a parsed value, and
    \<open>stringifyMetrics\<close> the same on the metrics object;
  \<^item> \<open>cannotReadMessage\<close>: the engine's message of the \<open>TypeError\<close> for reading the named
    property of \<open>null\<close> (\<open>Some JNull\<close>) or \<open>undefined\<close> (\<open>None\<close>);
  \<^item> \<open>cannotConvertMessage\<close>: the engine's message of the \<open>TypeError\<close> for an object that
    cannot be converted to a primitive value;
  \<^item> \<open>String_replace\<close>: \<open>subject.replace(pattern, replacement)\<close> for a string pattern.
\<close>

record 'w env =
  GEMINI_API_KEY :: bool
  performance_now :: "'w \<Rightarrow> real \<times> 'w"
  generateContent :: "generateContentParams \<Rightarrow> 'w \<Rightarrow> generateContentOutcome \<times> 'w"
  fetch :: "string \<Rightarrow> 'w \<Rightarrow> fetchOutcome \<times> 'w"
  fenceMatch :: "string \<Rightarrow> string option"
  JSON_parse :: "string \<Rightarrow> string + json"
  JSON_stringify :: "json \<Rightarrow> string"
  stringifyMetrics :: "FrameworkMetrics \<Rightarrow> string"
  cannotReadMessage :: "jsval \<Rightarrow> string \<Rightarrow> string"
  cannotConvertMessage :: string
  String_replace :: "string \<Rightarrow> string \<Rightarrow> string \<Rightarrow> string"

text \<open>
  The state threaded through the run: the outside world and two observations of the run,
  which nothing in the run reads.
  \<^item> \<open>requests\<close>: every argument \<open>ai.models.generateContent\<close> was called with, in the
    order of the calls. The only access to the generation service is
    \<open>callGenerateContent\<close> below, which appends the argument it is given.
  \<^item> \<open>calls\<close>: the calls of \<open>runAgent\<close> made so far. An entry records the participant id
    \<open>runAgent\<close> was called with, the requests that reached the generation service between
    the entry to \<open>runAgent\<close> and its return (the part of \<open>requests\<close> added meanwhile) and
    the text \<open>runAgent\<close> returned.
\<close>

record invocation =
  participant :: string
  sent :: "generateContentParams list"
  returned :: string

record 'w state =
  world :: 'w
  requests :: "generateContentParams list"
  calls :: "invocation list"

definition callGenerateContent ::
  "'w env \<Rightarrow> generateContentParams \<Rightarrow> 'w state \<Rightarrow> generateContentOutcome \<times> 'w state" where
  "callGenerateContent env params st =
     (case generateContent env params (world st) of
        (outcome, w) \<Rightarrow> (outcome, st\<lparr>world := w, requests := requests st @ [params]\<rparr>))"

section \<open>The generation service wrapper (geminiService.ts, \<open>runAgentQuery\<close>)\<close>

definition noSearch :: GoogleSearchMetadata where
  "noSearch =
     \<lparr>used = False, queriesCount = 0, sourcesCount = 0, queries = None, sources = None,
      rawMetadata = None\<rparr>"

text \<open>The argument of \<open>ai.models.generateContent\<close>, built from the arguments of the query.\<close>

definition requestParams :: "RunAgentQueryArgs \<Rightarrow> generateContentParams" where
  "requestParams config =
     \<lparr>requestModel = model config,
      contents = prompt config,
      requestTemperature = (case temperature config of Some t \<Rightarrow> t | None \<Rightarrow> 0),
      requestSeed = seed config,
      tools = (if useGoogleSearch config then [GoogleSearch] else []),
      requestSystemInstruction =
        (case systemInstruction config of
           Some s \<Rightarrow> if s \<noteq> [] then Some s else None
         | None \<Rightarrow> None),
      requestMimeType = responseMimeType config,
      requestSchema = responseSchema config,
      requestMaxOutputTokens =
        (case maxOutputTokens config of
           Some n \<Rightarrow> if n \<noteq> 0 then Some n else None
         | None \<Rightarrow> None),
      requestThinkingConfig = thinkingConfig config\<rparr>"

definition chunkSource :: "groundingChunk \<Rightarrow> searchSource" where
  "chunkSource chunk =
     (case web chunk of
        None \<Rightarrow> \<lparr>title = None, uri = None, snippet = None\<rparr>
      | Some w \<Rightarrow> \<lparr>title = title w, uri = uri w, snippet = snippet w\<rparr>)"

definition collectSearchMetadata :: "groundingMetadata option \<Rightarrow> GoogleSearchMetadata" where
  "collectSearchMetadata grounding =
     (case grounding of
        None \<Rightarrow> noSearch
      | Some metadata \<Rightarrow>
          \<lparr>used = True,
           queriesCount = (case webSearchQueries metadata of Some qs \<Rightarrow> length qs | None \<Rightarrow> 0),
           sourcesCount = (case groundingChunks metadata of Some cs \<Rightarrow> length cs | None \<Rightarrow> 0),
           queries = webSearchQueries metadata,
           sources = map_option (map chunkSource) (groundingChunks metadata),
           rawMetadata = Some metadata\<rparr>)"

definition runAgentQuery ::
  "'w env \<Rightarrow> RunAgentQueryArgs \<Rightarrow> 'w state \<Rightarrow>
   (string \<times> GoogleSearchMetadata) \<times> 'w state" where
  "runAgentQuery env config st =
     (if \<not> GEMINI_API_KEY env
      then ((''Error: GEMINI_API_KEY is not configured. '' @
             ''Please set the GEMINI_API_KEY environment variable.'', noSearch), st)
      else
        case callGenerateContent env (requestParams config) st of
          (Rejected, st') \<Rightarrow>
            ((''Error: Could not get response from agent '' @ name config @
              ''. Check console for details.'', noSearch), st')
        | (Response text grounding, st') \<Rightarrow>
            let content =
                  (if responseMimeType config = Some ApplicationJson
                   then (case fenceMatch env text of
                           Some body \<Rightarrow> if body \<noteq> [] then trim body else text
                         | None \<Rightarrow> text)
                   else text)
            in ((content, collectSearchMetadata grounding), st'))"

section \<open>The agent invoker (App.tsx, \<open>runAgent\<close>, lines 58--105)\<close>

definition zeroMetrics :: AgentMetrics where
  "zeroMetrics =
     \<lparr>duration = 0, tokenUsage = \<lparr>inputTokens = 0, outputTokens = 0\<rparr>,
      googleSearchUsage = None\<rparr>"

definition forceZeroTempAgents :: "string list" where
  "forceZeroTempAgents =
     [''proposal_classification_agent'', ''proposal_information_summarize_agent'']"

text \<open>
  The entry of a call in the list of calls: \<open>st0\<close> is the state at the entry to
  \<open>runAgent\<close>, \<open>st\<close> the state at its return.
\<close>

definition recordCall :: "string \<Rightarrow> string \<Rightarrow> 'w state \<Rightarrow> 'w state \<Rightarrow> 'w state" where
  "recordCall agent text st0 st =
     st\<lparr>calls :=
          calls st @
          [\<lparr>participant = agent, sent = drop (length (requests st0)) (requests st),
            returned = text\<rparr>]\<rparr>"

definition runAgent ::
  "'w env \<Rightarrow> string \<Rightarrow> (string \<rightharpoonup> AgentConfig) option \<Rightarrow> string option \<Rightarrow> bool \<Rightarrow>
   real option \<Rightarrow> real option \<Rightarrow> 'w state \<Rightarrow> (string \<times> AgentMetrics) \<times> 'w state" where
  "runAgent env agent configs dynamicPrompt searchFlag seedArg temperatureArg st =
     (case configs of
        None \<Rightarrow>
          ((''Error: Agent configs not provided.'', zeroMetrics),
           recordCall agent ''Error: Agent configs not provided.'' st st)
      | Some table \<Rightarrow>
          (case table agent of
             None \<Rightarrow>
               ((''Error: Config not found for '' @ agent, zeroMetrics),
                recordCall agent (''Error: Config not found for '' @ agent) st st)
           | Some config \<Rightarrow>
               let thePrompt =
                     (case dynamicPrompt of
                        Some p \<Rightarrow> if p \<noteq> [] then p else prompt config
                      | None \<Rightarrow> prompt config)
               in case performance_now env (world st) of
                    (startTime, w1) \<Rightarrow>
                      let finalTemperature =
                            (if agent \<in> set forceZeroTempAgents then Some 0 else temperatureArg);
                          args =
                            AgentConfig.extend (config\<lparr>prompt := thePrompt\<rparr>)
                              (RunAgentQueryArgs.fields searchFlag seedArg finalTemperature)
                      in case runAgentQuery env args (st\<lparr>world := w1\<rparr>) of
                           ((result, googleSearchMetadata), st2) \<Rightarrow>
                             (case performance_now env (world st2) of
                                (endTime, w3) \<Rightarrow>
                                  ((result,
                                    \<lparr>duration = endTime - startTime,
                                     tokenUsage =
                                       \<lparr>inputTokens = countTokens thePrompt,
                                        outputTokens = countTokens result\<rparr>,
                                     googleSearchUsage = Some googleSearchMetadata\<rparr>),
                                   recordCall agent result st (st2\<lparr>world := w3\<rparr>)))))"

section \<open>One iteration (App.tsx, \<open>runSingleIteration\<close>, lines 212--354)\<close>

definition expertAgentIds :: "string list" where
  "expertAgentIds = [''expert_1'', ''expert_2'', ''expert_3'']"

definition discussionTurns :: nat where
  "discussionTurns = 2"

definition finalAgentId :: string where
  "finalAgentId = ''final_decision_agent''"

text \<open>\<open>discussionHistory.map(m => `${m.agentName}: ${m.message}`).join("\n\n")\<close>\<close>

definition transcriptText :: "UserChatMessage list \<Rightarrow> string" where
  "transcriptText history =
     joinWith [CHR ''\<newline>'', CHR ''\<newline>'']
       (map (\<lambda>m. agentName m @ '': '' @ message m) history)"

text \<open>
  The template literal of lines 224--238. An absent \<open>systemInstruction\<close> is printed as
  \<open>undefined\<close>.
\<close>

definition conversationRules :: string where
  "conversationRules =
     ''\<newline>                Here is the main conversation rules prompt :\<newline> '' @
     ''               Communicate as a domain expert would, using professional '' @
     ''terminology and drawing from established knowledge in your field. Express '' @
     ''appropriate confidence levels and acknowledge areas of uncertainty.\<newline> '' @
     ''               Before making claims, mentally verify information against '' @
     ''your knowledge base. When uncertain, explicitly state your level of confidence '' @
     ''(e.g., '' @
     [CHR 0x22] @
     ''Based on available evidence,'' @
     [CHR 0x22] @
     '' '' @
     [CHR 0x22] @
     ''In my experience,'' @
     [CHR 0x22] @
     '' or '' @
     [CHR 0x22] @
     ''This requires further verification'' @
     [CHR 0x22] @
     '').\<newline>                Ask probing questions that real experts would '' @
     ''ask: What evidence supports this? What are the potential risks or limitations? '' @
     ''Have similar approaches been tried before? What are the implementation '' @
     ''challenges?\<newline>                When your assigned concerns have '' @
     ''been adequately addressed with evidence or reasoning, acknowledge this '' @
     ''clearly: '' @
     [CHR 0x22] @
     ''My concerns about [specific issue] have been resolved based on [specific '' @
     ''reasoning/evidence provided].'' @
     [CHR 0x22] @
     ''\<newline>                Provide constructive criticism by identifying '' @
     ''specific weaknesses and suggesting improvements rather than blanket rejections. '' @
     ''Frame objections around evidence, feasibility, or potential consequences.\<newline> '' @
     ''               While maintaining openness to well-reasoned proposals, '' @
     ''maintain your professional standards. Accept proposals that demonstrate '' @
     ''sound reasoning and evidence, but don'' @
     [CHR 0x27] @
     ''t hesitate to reject those that are fundamentally flawed, unsafe, or lack '' @
     ''sufficient justification.\<newline>                If a proposal is truly '' @
     ''unacceptable due to serious flaws (safety issues, ethical concerns, technical '' @
     ''impossibility), clearly articulate why and maintain your rejection while '' @
     ''offering alternative directions when possible.''"

definition expertPrompt :: "string \<Rightarrow> string \<Rightarrow> AgentConfig \<Rightarrow> string" where
  "expertPrompt context historyText agentConfig =
     ''\<newline>                '' @
     context @
     ''\<newline>                \<newline>                Conversation History:\<newline> '' @
     ''               '' @
     historyText @
     ''\<newline>                \<newline>                Your instruction: '' @
     (case systemInstruction agentConfig of None \<Rightarrow> ''undefined'' | Some s \<Rightarrow> s) @
     conversationRules"

text \<open>\<open>agentConfig.name.split(':')[1]?.trim() || agentConfig.name\<close>\<close>

definition displayName :: "AgentConfig \<Rightarrow> string" where
  "displayName agentConfig =
     (case splitOn CHR '':'' (name agentConfig) of
        first # second # others \<Rightarrow> if trim second \<noteq> [] then trim second else name agentConfig
      | pieces \<Rightarrow> name agentConfig)"

text \<open>
  Lines 247--286: the metrics of one expert call are added to the entry of the expert and
  to the totals. The entry of an expert created here carries a search usage record; an
  entry found without one makes the read of \<open>currentGoogleUsage.used\<close> throw.
\<close>

definition freshExpertEntry :: AgentMetrics where
  "freshExpertEntry =
     \<lparr>duration = 0, tokenUsage = \<lparr>inputTokens = 0, outputTokens = 0\<rparr>,
      googleSearchUsage =
        Some \<lparr>used = False, queriesCount = 0, sourcesCount = 0, queries = Some [],
              sources = Some [], rawMetadata = None\<rparr>\<rparr>"

definition addUsage :: "AgentMetrics \<Rightarrow> AgentMetrics \<Rightarrow> AgentMetrics" where
  "addUsage entry agentMetrics =
     entry
       \<lparr>duration := duration entry + duration agentMetrics,
        tokenUsage :=
          \<lparr>inputTokens = inputTokens (tokenUsage entry) + inputTokens (tokenUsage agentMetrics),
           outputTokens =
             outputTokens (tokenUsage entry) + outputTokens (tokenUsage agentMetrics)\<rparr>\<rparr>"

definition addTotals :: "AgentMetrics \<Rightarrow> FrameworkMetrics \<Rightarrow> FrameworkMetrics" where
  "addTotals agentMetrics metrics =
     metrics
       \<lparr>totalInputTokens := totalInputTokens metrics + inputTokens (tokenUsage agentMetrics),
        totalOutputTokens :=
          totalOutputTokens metrics + outputTokens (tokenUsage agentMetrics)\<rparr>"

definition mergeSearchUsage ::
  "GoogleSearchMetadata \<Rightarrow> GoogleSearchMetadata \<Rightarrow> GoogleSearchMetadata" where
  "mergeSearchUsage currentGoogleUsage usage =
     \<lparr>used = (used currentGoogleUsage \<or> used usage),
      queriesCount = queriesCount currentGoogleUsage + queriesCount usage,
      sourcesCount = sourcesCount currentGoogleUsage + sourcesCount usage,
      queries =
        (case queries usage of
           Some qs \<Rightarrow> Some ((case queries currentGoogleUsage of Some c \<Rightarrow> c | None \<Rightarrow> []) @ qs)
         | None \<Rightarrow> queries currentGoogleUsage),
      sources =
        (case sources usage of
           Some ss \<Rightarrow> Some ((case sources currentGoogleUsage of Some c \<Rightarrow> c | None \<Rightarrow> []) @ ss)
         | None \<Rightarrow> sources currentGoogleUsage),
      rawMetadata =
        (case rawMetadata usage of
           Some raw \<Rightarrow> Some raw
         | None \<Rightarrow> rawMetadata currentGoogleUsage)\<rparr>"

definition addToSummary ::
  "string \<Rightarrow> GoogleSearchMetadata \<Rightarrow> GoogleSearchSummary \<Rightarrow> GoogleSearchSummary" where
  "addToSummary expertId usage summary =
     (if used usage
      then \<lparr>totalUsageCount = totalUsageCount summary + 1,
            totalQueries = totalQueries summary + queriesCount usage,
            totalSources = totalSources summary + sourcesCount usage,
            agentsUsed =
              (if expertId \<in> set (agentsUsed summary) then agentsUsed summary
               else agentsUsed summary @ [expertId])\<rparr>
      else summary)"

definition trackExpert ::
  "'w env \<Rightarrow> string \<Rightarrow> AgentMetrics \<Rightarrow> FrameworkMetrics \<Rightarrow> thrown + FrameworkMetrics" where
  "trackExpert env expertId agentMetrics metrics =
     (let entry =
            addUsage
              (case agentBreakdown metrics expertId of
                 Some existing \<Rightarrow> existing
               | None \<Rightarrow> freshExpertEntry)
              agentMetrics
      in case googleSearchUsage agentMetrics of
           None \<Rightarrow>
             Inr (addTotals agentMetrics
                    (metrics\<lparr>agentBreakdown := (agentBreakdown metrics)(expertId \<mapsto> entry)\<rparr>))
         | Some usage \<Rightarrow>
             (case googleSearchUsage entry of
                None \<Rightarrow> Inl (TypeError (cannotReadMessage env None ''used''))
              | Some currentGoogleUsage \<Rightarrow>
                  Inr (addTotals agentMetrics
                         (metrics
                            \<lparr>agentBreakdown :=
                               (agentBreakdown metrics)
                                 (expertId \<mapsto>
                                    entry\<lparr>googleSearchUsage :=
                                             Some (mergeSearchUsage currentGoogleUsage usage)\<rparr>),
                             googleSearchSummary :=
                               addToSummary expertId usage (googleSearchSummary metrics)\<rparr>))))"

text \<open>Lines 318--325: the metrics of the scoring call.\<close>

definition trackFinal :: "AgentMetrics \<Rightarrow> FrameworkMetrics \<Rightarrow> FrameworkMetrics" where
  "trackFinal evalMetrics metrics =
     (let entry =
            addUsage
              (case agentBreakdown metrics finalAgentId of
                 Some existing \<Rightarrow> existing
               | None \<Rightarrow> zeroMetrics)
              evalMetrics
      in addTotals evalMetrics
           (metrics\<lparr>agentBreakdown := (agentBreakdown metrics)(finalAgentId \<mapsto> entry)\<rparr>))"

text \<open>
  The body of the inner loop (lines 222--296) for one expert: the prompt is built from the
  context and the history so far and passed through the token guard, the expert is invoked
  (with search only if the run enables it and the id starts with \<open>expert_\<close>), its metrics
  are tracked and its message is appended to the history. Reading \<open>systemInstruction\<close> of a
  missing configuration throws. The updates of the displayed messages and the pause of
  200 ms between calls are not modelled.
\<close>

definition expertTurn ::
  "'w env \<Rightarrow> FrameworkConfig \<Rightarrow> string \<Rightarrow> (string \<rightharpoonup> AgentConfig) \<Rightarrow> bool \<Rightarrow> string \<Rightarrow>
   UserChatMessage list \<Rightarrow> FrameworkMetrics \<Rightarrow> 'w state \<Rightarrow>
   (thrown + UserChatMessage list \<times> FrameworkMetrics) \<times> 'w state" where
  "expertTurn env frameworkConfig context configsForRun googleSearchEnabled expertId
     history metrics st =
     (case configsForRun expertId of
        None \<Rightarrow> (Inl (TypeError (cannotReadMessage env None ''systemInstruction'')), st)
      | Some agentConfig \<Rightarrow>
          let historyText =
                (if transcriptText history \<noteq> [] then transcriptText history
                 else ''(No history yet. You are the first to speak.)'');
              dynamicPrompt =
                truncatePromptIfNeeded (expertPrompt context historyText agentConfig)
                  MAX_CONTEXT_TOKENS;
              isExpertAgent = startsWith expertId ''expert_'';
              useSearchForThisAgent = (googleSearchEnabled \<and> isExpertAgent)
          in case runAgent env expertId (Some configsForRun) (Some dynamicPrompt)
                    useSearchForThisAgent (frameworkSeed frameworkConfig)
                    (frameworkTemperature frameworkConfig) st of
               ((content, agentMetrics), st') \<Rightarrow>
                 (case trackExpert env expertId agentMetrics metrics of
                    Inl e \<Rightarrow> (Inl e, st')
                  | Inr metrics' \<Rightarrow>
                      (Inr (history @
                              [\<lparr>messageType = AgentMessage, agentId = expertId,
                                agentName = displayName agentConfig, message = content\<rparr>],
                            metrics'), st')))"

text \<open>The inner loop \<open>for (const id of expertAgentIds)\<close>.\<close>

fun expertsLoop ::
  "'w env \<Rightarrow> FrameworkConfig \<Rightarrow> string \<Rightarrow> (string \<rightharpoonup> AgentConfig) \<Rightarrow> bool \<Rightarrow> string list \<Rightarrow>
   UserChatMessage list \<Rightarrow> FrameworkMetrics \<Rightarrow> 'w state \<Rightarrow>
   (thrown + UserChatMessage list \<times> FrameworkMetrics) \<times> 'w state" where
  "expertsLoop env frameworkConfig context configsForRun googleSearchEnabled []
     history metrics st = (Inr (history, metrics), st)"
| "expertsLoop env frameworkConfig context configsForRun googleSearchEnabled (expertId # ids)
     history metrics st =
     (case expertTurn env frameworkConfig context configsForRun googleSearchEnabled expertId
             history metrics st of
        (Inl e, st') \<Rightarrow> (Inl e, st')
      | (Inr (history', metrics'), st') \<Rightarrow>
          expertsLoop env frameworkConfig context configsForRun googleSearchEnabled ids
            history' metrics' st')"

text \<open>The outer loop \<open>for (let turn = 0; turn < discussionTurns; turn++)\<close>.\<close>

function turnsLoop ::
  "'w env \<Rightarrow> FrameworkConfig \<Rightarrow> string \<Rightarrow> (string \<rightharpoonup> AgentConfig) \<Rightarrow> bool \<Rightarrow> nat \<Rightarrow>
   UserChatMessage list \<Rightarrow> FrameworkMetrics \<Rightarrow> 'w state \<Rightarrow>
   (thrown + UserChatMessage list \<times> FrameworkMetrics) \<times> 'w state" where
  "turnsLoop env frameworkConfig context configsForRun googleSearchEnabled turn
     history metrics st =
     (if turn < discussionTurns
      then
        case expertsLoop env frameworkConfig context configsForRun googleSearchEnabled
               expertAgentIds history metrics st of
          (Inl e, st') \<Rightarrow> (Inl e, st')
        | (Inr (history', metrics'), st') \<Rightarrow>
            turnsLoop env frameworkConfig context configsForRun googleSearchEnabled (Suc turn)
              history' metrics' st'
      else (Inr (history, metrics), st))"
  by pat_completeness auto
termination
  by (relation "measure (\<lambda>(env, frameworkConfig, context, configsForRun, googleSearchEnabled,
        turn, history, metrics, st). discussionTurns - turn)") auto

declare turnsLoop.simps [simp del]

text \<open>
  Lines 328--353: the \<open>try\<close> block that parses the scoring output, and its \<open>catch\<close>. The
  block throws when \<open>JSON.parse\<close> does, when the parsed value is \<open>null\<close> (the read of
  \<open>parsedEval.feasibilityScore\<close>), and when the template literal of line 330 cannot
  convert \<open>parsedEval.feasibilityScore\<close> to a string; all three are errors with a message.
\<close>

definition parseFailure :: "nat \<Rightarrow> string \<Rightarrow> evaluationResult" where
  "parseFailure iterationNumber errorMessage =
     \<lparr>iteration = iterationNumber,
      feasibilityScore = Some (JNum 50),
      rationale =
        Some (JStr (''Evaluation '' @ decimal iterationNumber @ '' failed to parse: '' @
                    errorMessage)),
      keyFactors = Some (JArr [JStr ''Parsing error occurred''])\<rparr>"

definition parseEvaluation :: "'w env \<Rightarrow> nat \<Rightarrow> string \<Rightarrow> evaluationResult" where
  "parseEvaluation env iterationNumber evaluationContent =
     (case JSON_parse env evaluationContent of
        Inl syntaxErrorMessage \<Rightarrow> parseFailure iterationNumber syntaxErrorMessage
      | Inr parsedEval \<Rightarrow>
          if parsedEval = JNull
          then parseFailure iterationNumber
                 (cannotReadMessage env (Some JNull) ''feasibilityScore'')
          else if \<not> convertibleValue (property parsedEval ''feasibilityScore'')
          then parseFailure iterationNumber (cannotConvertMessage env)
          else
            \<lparr>iteration = iterationNumber,
             feasibilityScore = property parsedEval ''feasibilityScore'',
             rationale = property parsedEval ''rationale'',
             keyFactors =
               (if truthy (property parsedEval ''keyFactors'')
                then property parsedEval ''keyFactors''
                else Some (JArr []))\<rparr>)"

text \<open>Lines 307--313: the scoring prompt.\<close>

definition scoringPrompt :: "'w env \<Rightarrow> AgentConfig \<Rightarrow> UserChatMessage list \<Rightarrow> nat \<Rightarrow> string" where
  "scoringPrompt env finalAgentConfig history iterationNumber =
     truncatePromptIfNeeded
       (String_replace env (prompt finalAgentConfig) ''{expert_discussion_transcript}''
          (transcriptText history) @
        ''\<newline>\<newline>**Independent Assessment #'' @
        decimal iterationNumber @
        ''**: Provide your fresh, independent evaluation without being influenced '' @
        ''by any previous assessments.'')
       MAX_CONTEXT_TOKENS"

definition runSingleIteration ::
  "'w env \<Rightarrow> FrameworkConfig \<Rightarrow> string \<Rightarrow> (string \<rightharpoonup> AgentConfig) \<Rightarrow> FrameworkMetrics \<Rightarrow> bool \<Rightarrow>
   nat \<Rightarrow> 'w state \<Rightarrow>
   (thrown + UserChatMessage list \<times> evaluationResult \<times> FrameworkMetrics) \<times> 'w state" where
  "runSingleIteration env frameworkConfig context configsForRun metrics googleSearchEnabled
     iterationNumber st =
     (case turnsLoop env frameworkConfig context configsForRun googleSearchEnabled 0
             [] metrics st of
        (Inl e, st1) \<Rightarrow> (Inl e, st1)
      | (Inr (history, metrics1), st1) \<Rightarrow>
          (case configsForRun finalAgentId of
             None \<Rightarrow> (Inl (TypeError (cannotReadMessage env None ''prompt'')), st1)
           | Some finalAgentConfig \<Rightarrow>
               (case runAgent env finalAgentId (Some configsForRun)
                       (Some (scoringPrompt env finalAgentConfig history iterationNumber))
                       False (frameworkSeed frameworkConfig)
                       (frameworkTemperature frameworkConfig) st1 of
                  ((evaluationContent, evalMetrics), st2) \<Rightarrow>
                    (Inr (history,
                          parseEvaluation env iterationNumber evaluationContent,
                          trackFinal evalMetrics metrics1), st2))))"

section \<open>The run (App.tsx, \<open>runDiscussionAndDecision\<close>, lines 356--484)\<close>

text \<open>
  The loop \<open>for (let i = 1; i <= numberOfIterations; i++)\<close> of lines 371--407. The template
  literal of line 406 converts the score of the record to a string, outside every \<open>try\<close>.
\<close>

function iterationsLoop ::
  "'w env \<Rightarrow> FrameworkConfig \<Rightarrow> string \<Rightarrow> (string \<rightharpoonup> AgentConfig) \<Rightarrow> bool \<Rightarrow> nat \<Rightarrow> nat \<Rightarrow>
   independentEvaluation list \<Rightarrow> FrameworkMetrics \<Rightarrow> 'w state \<Rightarrow>
   (thrown + independentEvaluation list \<times> FrameworkMetrics) \<times> 'w state" where
  "iterationsLoop env frameworkConfig context configsForRun googleSearchEnabled
     numberOfIterations i independentEvaluations metrics st =
     (if i \<le> numberOfIterations
      then
        case runSingleIteration env frameworkConfig context configsForRun metrics
               googleSearchEnabled i st of
          (Inl e, st') \<Rightarrow> (Inl e, st')
        | (Inr (history, evaluation, metrics'), st') \<Rightarrow>
            if \<not> convertibleValue (feasibilityScore evaluation)
            then (Inl (TypeError (cannotConvertMessage env)), st')
            else
              iterationsLoop env frameworkConfig context configsForRun googleSearchEnabled
                numberOfIterations (Suc i)
                (independentEvaluations @
                 [evaluationResult.extend evaluation (independentEvaluation.fields history)])
                metrics' st'
      else (Inr (independentEvaluations, metrics), st))"
  by pat_completeness auto
termination
  by (relation "measure (\<lambda>(env, frameworkConfig, context, configsForRun, googleSearchEnabled,
        numberOfIterations, i, independentEvaluations, metrics, st).
        Suc numberOfIterations - i)") auto

declare iterationsLoop.simps [simp del]

text \<open>
  The scores of lines 418--426 when every record holds a number; with a score that is not
  a number the arithmetic of the source follows JavaScript's coercions, which this model
  does not cover.
\<close>

definition numericScore :: "jsval \<Rightarrow> real option" where
  "numericScore v = (case v of Some (JNum x) \<Rightarrow> Some x | _ \<Rightarrow> None)"

fun numericScores :: "independentEvaluation list \<Rightarrow> real list option" where
  "numericScores [] = Some []"
| "numericScores (r # records) =
     (case numericScore (feasibilityScore r) of
        None \<Rightarrow> None
      | Some score \<Rightarrow> map_option ((#) score) (numericScores records))"

record runOutcome =
  finalMetrics :: FrameworkMetrics
  independentEvaluations :: "independentEvaluation list"
  finalDecision :: "finalResult option"

text \<open>
  \<open>runDiscussionAndDecision\<close>: the read of \<open>configsForRun.final_decision_agent.name\<close> at
  line 360 throws without a configuration of the scorer; then the iterations run and
  their scores are aggregated. The source returns the metrics and hands the records and
  the aggregated result to the display; the model returns all three.
\<close>

definition runDiscussionAndDecision ::
  "'w env \<Rightarrow> FrameworkConfig \<Rightarrow> string \<Rightarrow> (string \<rightharpoonup> AgentConfig) \<Rightarrow> FrameworkMetrics \<Rightarrow> bool \<Rightarrow>
   'w state \<Rightarrow> (thrown + runOutcome) \<times> 'w state" where
  "runDiscussionAndDecision env frameworkConfig context configsForRun metrics
     googleSearchEnabled st =
     (case configsForRun finalAgentId of
        None \<Rightarrow> (Inl (TypeError (cannotReadMessage env None ''name'')), st)
      | Some finalAgentConfig \<Rightarrow>
          (case iterationsLoop env frameworkConfig context configsForRun googleSearchEnabled
                  (iterations frameworkConfig) 1 [] metrics st of
             (Inl e, st') \<Rightarrow> (Inl e, st')
           | (Inr (records, metrics'), st') \<Rightarrow>
               (Inr \<lparr>finalMetrics = metrics',
                     independentEvaluations = records,
                     finalDecision = map_option aggregate (numericScores records)\<rparr>, st')))"

section \<open>The whole simulation (App.tsx, \<open>runSimulation\<close>, lines 486--615)\<close>

record ProposalData =
  proposal_info :: string
  date :: string
  url :: string

definition classificationAgentId :: string where
  "classificationAgentId = ''proposal_classification_agent''"

definition summarizeAgentId :: string where
  "summarizeAgentId = ''proposal_information_summarize_agent''"

definition trackerAgentId :: string where
  "trackerAgentId = ''framework_tracker_agent''"

text \<open>
  The statements both \<open>try\<close> blocks of the summarization share (lines 529--532 and
  542--546): the prompt of the summarizer with the content substituted, through the token
  guard, and the call, never with search. Reading \<open>prompt\<close> of a missing configuration
  throws inside the \<open>try\<close>.
\<close>

definition summarize ::
  "'w env \<Rightarrow> FrameworkConfig \<Rightarrow> (string \<rightharpoonup> AgentConfig) \<Rightarrow> string \<Rightarrow> 'w state \<Rightarrow>
   (thrown + string \<times> AgentMetrics) \<times> 'w state" where
  "summarize env frameworkConfig configsForRun content st =
     (case configsForRun summarizeAgentId of
        None \<Rightarrow> (Inl (TypeError (cannotReadMessage env None ''prompt'')), st)
      | Some summarizeConfig \<Rightarrow>
          (case runAgent env summarizeAgentId (Some configsForRun)
                  (Some (truncatePromptIfNeeded
                           (String_replace env (prompt summarizeConfig) ''{url_content}'' content)
                           MAX_CONTEXT_TOKENS))
                  False (frameworkSeed frameworkConfig)
                  (frameworkTemperature frameworkConfig) st of
             (summaryResult, st') \<Rightarrow> (Inr summaryResult, st')))"

definition urlFailure :: "string \<Rightarrow> string" where
  "urlFailure errorMessage =
     ''Error: Could not retrieve or summarize content from URL. '' @ errorMessage"

definition plainTextFailure :: "string \<Rightarrow> string" where
  "plainTextFailure errorMessage =
     ''Error: Could not process plain text content. '' @ errorMessage"

text \<open>
  Lines 514--551: with a URL the page is fetched through the reader service and
  summarized; without one the proposal text is summarized. Every failure inside the
  \<open>try\<close> blocks leaves the initial result (empty text, zero metrics) with an error text.
\<close>

definition summaryPhase ::
  "'w env \<Rightarrow> FrameworkConfig \<Rightarrow> (string \<rightharpoonup> AgentConfig) \<Rightarrow> ProposalData \<Rightarrow> 'w state \<Rightarrow>
   (string \<times> AgentMetrics) \<times> 'w state" where
  "summaryPhase env frameworkConfig configsForRun currentProposal st =
     (if url currentProposal \<noteq> [] \<and> trim (url currentProposal) \<noteq> []
      then
        case fetch env (''https://r.jina.ai/'' @ url currentProposal) (world st) of
          (FetchRejected errorMessage, w) \<Rightarrow>
            ((urlFailure errorMessage, zeroMetrics), st\<lparr>world := w\<rparr>)
        | (FetchResponse ok status body, w) \<Rightarrow>
            if \<not> ok
            then ((urlFailure (''Jina Reader API returned status '' @ decimal status),
                   zeroMetrics), st\<lparr>world := w\<rparr>)
            else
              (case body of
                 Inl errorMessage \<Rightarrow> ((urlFailure errorMessage, zeroMetrics), st\<lparr>world := w\<rparr>)
               | Inr urlContent \<Rightarrow>
                   (case summarize env frameworkConfig configsForRun urlContent
                           (st\<lparr>world := w\<rparr>) of
                      (Inl (TypeError errorMessage), st') \<Rightarrow>
                        ((urlFailure errorMessage, zeroMetrics), st')
                    | (Inr summaryResult, st') \<Rightarrow> (summaryResult, st')))
      else
        case summarize env frameworkConfig configsForRun (proposal_info currentProposal) st of
          (Inl (TypeError errorMessage), st') \<Rightarrow>
            ((plainTextFailure errorMessage, zeroMetrics), st')
        | (Inr summaryResult, st') \<Rightarrow> (summaryResult, st'))"

text \<open>Lines 495--506 and 556--559: the metrics the discussion starts from.\<close>

definition initialMetrics :: "AgentMetrics \<Rightarrow> AgentMetrics \<Rightarrow> FrameworkMetrics" where
  "initialMetrics classMetrics summaryMetrics =
     \<lparr>totalDuration = 0,
      totalInputTokens =
        inputTokens (tokenUsage classMetrics) + inputTokens (tokenUsage summaryMetrics),
      totalOutputTokens =
        outputTokens (tokenUsage classMetrics) + outputTokens (tokenUsage summaryMetrics),
      agentBreakdown =
        [classificationAgentId \<mapsto> classMetrics, summarizeAgentId \<mapsto> summaryMetrics],
      googleSearchSummary =
        \<lparr>totalUsageCount = 0, totalQueries = 0, totalSources = 0, agentsUsed = []\<rparr>\<rparr>"

text \<open>Lines 566--583: the context of the discussion.\<close>

definition fullContext :: "'w env \<Rightarrow> ProposalData \<Rightarrow> string \<Rightarrow> string \<Rightarrow> string" where
  "fullContext env currentProposal classContent summaryText =
     ''\<newline>        Proposal: '' @
     proposal_info currentProposal @
     ''\<newline>        \<newline>        Analysis Context:\<newline>       '' @
     '' - Classification: '' @
     classContent @
     ''\<newline>        - URL Content Summary: '' @
     (case JSON_parse env summaryText of
        Inl syntaxErrorMessage \<Rightarrow> summaryText
      | Inr parsed \<Rightarrow> JSON_stringify env parsed) @
     ''\<newline>        ''"

text \<open>
  Lines 595--611: the performance tracker, inside a \<open>try\<close> whose \<open>catch\<close> only logs.
\<close>

definition trackerPhase ::
  "'w env \<Rightarrow> FrameworkConfig \<Rightarrow> (string \<rightharpoonup> AgentConfig) \<Rightarrow> FrameworkMetrics \<Rightarrow> 'w state \<Rightarrow>
   string option \<times> 'w state" where
  "trackerPhase env frameworkConfig configsForRun metrics st =
     (case configsForRun trackerAgentId of
        None \<Rightarrow> (None, st)
      | Some trackerConfig \<Rightarrow>
          (case runAgent env trackerAgentId (Some configsForRun)
                  (Some (truncatePromptIfNeeded
                           (String_replace env (prompt trackerConfig) ''{execution_data}''
                              (stringifyMetrics env metrics))
                           MAX_CONTEXT_TOKENS))
                  False (frameworkSeed frameworkConfig)
                  (frameworkTemperature frameworkConfig) st of
             ((trackingContent, trackingMetrics), st') \<Rightarrow> (Some trackingContent, st')))"

record simulationOutcome =
  discussionOutcome :: runOutcome
  frameworkMetrics :: FrameworkMetrics
  performanceTracking :: "string option"

text \<open>
  \<open>runSimulation\<close>. Without configurations it returns at once. \<open>resetState\<close> reads the
  names of the classification, the summarization and the scoring configuration, and
  throws when one is missing. The classification call is started before the
  summarization and awaited after it; the model performs the two calls one after the
  other, which is one of the orders in which their responses can arrive. No call of this
  function passes a search flag other than \<open>false\<close>; the toggle reaches the discussion
  only.
\<close>

definition runSimulation ::
  "'w env \<Rightarrow> FrameworkConfig \<Rightarrow> (string \<rightharpoonup> AgentConfig) option \<Rightarrow> ProposalData \<Rightarrow> bool \<Rightarrow>
   'w state \<Rightarrow> (thrown + simulationOutcome option) \<times> 'w state" where
  "runSimulation env frameworkConfig originalAgentConfigs currentProposal searchToggle st =
     (case originalAgentConfigs of
        None \<Rightarrow> (Inr None, st)
      | Some configsForRun \<Rightarrow>
          if configsForRun classificationAgentId = None \<or>
             configsForRun summarizeAgentId = None \<or>
             configsForRun finalAgentId = None
          then (Inl (TypeError (cannotReadMessage env None ''name'')), st)
          else
            case performance_now env (world st) of
              (startTime, w0) \<Rightarrow>
                (case configsForRun classificationAgentId of
                   None \<Rightarrow> (Inl (TypeError (cannotReadMessage env None ''prompt'')), st\<lparr>world := w0\<rparr>)
                 | Some classificationConfig \<Rightarrow>
                     (case runAgent env classificationAgentId (Some configsForRun)
                             (Some (truncatePromptIfNeeded
                                      (String_replace env (prompt classificationConfig)
                                         ''{proposal_info}'' (proposal_info currentProposal))
                                      MAX_CONTEXT_TOKENS))
                             False (frameworkSeed frameworkConfig)
                             (frameworkTemperature frameworkConfig) (st\<lparr>world := w0\<rparr>) of
                        ((classContent, classMetrics), st1) \<Rightarrow>
                          (case summaryPhase env frameworkConfig configsForRun currentProposal
                                  st1 of
                             ((summaryText, summaryMetrics), st2) \<Rightarrow>
                               (case runDiscussionAndDecision env frameworkConfig
                                       (fullContext env currentProposal classContent summaryText)
                                       configsForRun
                                       (initialMetrics classMetrics summaryMetrics)
                                       searchToggle st2 of
                                  (Inl e, st3) \<Rightarrow> (Inl e, st3)
                                | (Inr outcome, st3) \<Rightarrow>
                                    (case performance_now env (world st3) of
                                       (endTime, w4) \<Rightarrow>
                                         (case trackerPhase env frameworkConfig configsForRun
                                                 ((finalMetrics outcome)
                                                    \<lparr>totalDuration := endTime - startTime\<rparr>)
                                                 (st3\<lparr>world := w4\<rparr>) of
                                            (tracking, st5) \<Rightarrow>
                                              (Inr (Some
                                                 \<lparr>discussionOutcome = outcome,
                                                  frameworkMetrics =
                                                    (finalMetrics outcome)
                                                      \<lparr>totalDuration := endTime - startTime\<rparr>,
                                                  performanceTracking = tracking\<rparr>),
                                               st5))))))))"

definition emptyMetrics :: FrameworkMetrics where
  "emptyMetrics =
     \<lparr>totalDuration = 0, totalInputTokens = 0, totalOutputTokens = 0,
      agentBreakdown = Map.empty,
      googleSearchSummary =
        \<lparr>totalUsageCount = 0, totalQueries = 0, totalSources = 0, agentsUsed = []\<rparr>\<rparr>"

text \<open>
  \<open>handleRestartDiscussion\<close> (lines 617--636): the discussion is run again on the stored
  context with fresh metrics. It returns at once without a context or configurations.
\<close>

definition handleRestartDiscussion ::
  "'w env \<Rightarrow> FrameworkConfig \<Rightarrow> string \<Rightarrow> (string \<rightharpoonup> AgentConfig) option \<Rightarrow> bool \<Rightarrow>
   'w state \<Rightarrow> (thrown + runOutcome option) \<times> 'w state" where
  "handleRestartDiscussion env frameworkConfig initialContext agentConfigs searchToggle st =
     (case agentConfigs of
        None \<Rightarrow> (Inr None, st)
      | Some configsForRun \<Rightarrow>
          if initialContext = [] then (Inr None, st)
          else
            case runDiscussionAndDecision env frameworkConfig initialContext configsForRun
                   emptyMetrics searchToggle st of
              (Inl e, st') \<Rightarrow> (Inl e, st')
            | (Inr outcome, st') \<Rightarrow> (Inr (Some outcome), st'))"

section \<open>Questions to the experts (App.tsx, \<open>handleAskQuestion\<close>, lines 651--770)\<close>

record AgentOutput =
  outputId :: string
  outputAgentName :: string
  outputContent :: string
  isLoading :: bool
  outputData :: jsval

datatype ChatMessage = UserChat UserChatMessage | SystemChat string

text \<open>
  \<open>messages.filter(isUserChatMessage).map(m => `${m.agentName}: ${m.message}`).join('\n')\<close>
\<close>

fun userLines :: "ChatMessage list \<Rightarrow> string list" where
  "userLines [] = []"
| "userLines (UserChat m # ms) = (agentName m @ '': '' @ message m) # userLines ms"
| "userLines (SystemChat text # ms) = userLines ms"

definition chatTranscript :: "ChatMessage list \<Rightarrow> string" where
  "chatTranscript messages = joinWith [CHR ''\<newline>''] (userLines messages)"

text \<open>
  The callback of line 661 on one value of \<open>section1Outputs\<close>: the name of the agent and
  its parsed data, printed by \<open>JSON.stringify\<close>, or else its content; the empty string for
  \<open>null\<close>.
\<close>

definition analysisLine :: "'w env \<Rightarrow> AgentOutput option \<Rightarrow> string" where
  "analysisLine env output =
     (case output of
        None \<Rightarrow> []
      | Some out \<Rightarrow>
          outputAgentName out @ '':\<newline>'' @
          (case outputData out of
             None \<Rightarrow> outputContent out
           | Some parsed \<Rightarrow>
               if truthy (Some parsed) then JSON_stringify env parsed else outputContent out))"

text \<open>
  \<open>buildContext\<close> (lines 658--690). \<open>section1Outputs\<close> is given by the list of its values
  in the order of \<open>Object.values\<close>; \<open>qaMessages\<close> is the history before the question.
\<close>

definition buildContext ::
  "'w env \<Rightarrow> ProposalData \<Rightarrow> AgentOutput option list \<Rightarrow> ChatMessage list \<Rightarrow> AgentOutput \<Rightarrow>
   ChatMessage list \<Rightarrow> string" where
  "buildContext env theProposal section1Outputs discussionMessages theDecision qaMessages =
     (let initialAnalysisContext =
            joinWith [CHR ''\<newline>'', CHR ''\<newline>''] (map (analysisLine env) section1Outputs);
          expertDiscussionTranscript = chatTranscript discussionMessages;
          previousQaHistory = chatTranscript qaMessages
      in
     ''\<newline>            Here is the full context of the original analysis:\<newline> '' @
     ''           **Original Proposal:**\<newline>            '' @
     proposal_info theProposal @
     ''\<newline>\<newline>            **Initial Analysis & Summary:**\<newline> '' @
     ''           '' @
     initialAnalysisContext @
     ''\<newline>\<newline>            **Expert Discussion Transcript:**\<newline> '' @
     ''           '' @
     expertDiscussionTranscript @
     ''\<newline>\<newline>            **Final Decision:**\<newline>         '' @
     ''   '' @
     outputContent theDecision @
     ''\<newline>            \<newline>            --- PREVIOUS Q&A HISTORY ---\<newline> '' @
     ''           '' @
     (if previousQaHistory \<noteq> [] then previousQaHistory else ''No Q&A history yet.'') @
     ''\<newline>            '')"

text \<open>The prompt of line 699. An absent \<open>systemInstruction\<close> is printed as \<open>undefined\<close>.\<close>

definition questionPrompt :: "string \<Rightarrow> string \<Rightarrow> AgentConfig \<Rightarrow> string" where
  "questionPrompt context question agentConfig =
     context @
     ''\<newline>\<newline>--- NEW QUESTION FROM USER ---\<newline>'' @
     question @
     ''\<newline>\<newline>--- YOUR TASK ---\<newline>As '' @
     name agentConfig @
     '', your core instruction is: '' @
     [CHR 0x22] @
     (case systemInstruction agentConfig of None \<Rightarrow> ''undefined'' | Some s \<Rightarrow> s) @
     [CHR 0x22] @
     ''.\<newline>\<newline>Based on this instruction and all provided context, '' @
     ''formulate your response to the user'' @
     [CHR 0x27] @
     ''s question. **If the user'' @
     [CHR 0x27] @
     ''s point convinces you or resolves one of your previous concerns, explicitly '' @
     ''state that in your response (e.g., '' @
     [CHR 0x27] @
     ''That'' @
     [CHR 0x27] @
     ''s a valid point, my concerns about X are addressed.'' @
     [CHR 0x27] @
     '').** Keep your answer concise and focused on your area of expertise.''"

definition expertIds :: "string list" where
  "expertIds = [''expert_1'', ''expert_2'', ''expert_3'']"

definition promptUpdateAgentId :: string where
  "promptUpdateAgentId = ''prompt_update_agent''"

record expertResponse =
  responseId :: string
  responseName :: string
  response :: string

text \<open>
  The callback of lines 696--709 for one expert: the prompt passes through the token guard
  and the expert is invoked, with search only if the toggle is on and the id starts with
  \<open>expert_\<close>. Reading \<open>name\<close> of a missing configuration throws, which rejects the promise
  of this callback.
\<close>

definition askExpert ::
  "'w env \<Rightarrow> FrameworkConfig \<Rightarrow> (string \<rightharpoonup> AgentConfig) \<Rightarrow> bool \<Rightarrow> string \<Rightarrow> string \<Rightarrow>
   string \<Rightarrow> 'w state \<Rightarrow> (thrown + expertResponse) \<times> 'w state" where
  "askExpert env frameworkConfig agentConfigs searchToggle context question expertId st =
     (case agentConfigs expertId of
        None \<Rightarrow> (Inl (TypeError (cannotReadMessage env None ''name'')), st)
      | Some agentConfig \<Rightarrow>
          let isExpertAgent = startsWith expertId ''expert_'';
              useSearchForQA = (searchToggle \<and> isExpertAgent)
          in case runAgent env expertId (Some agentConfigs)
                    (Some (truncatePromptIfNeeded
                             (questionPrompt context question agentConfig)
                             MAX_CONTEXT_TOKENS))
                    useSearchForQA (frameworkSeed frameworkConfig)
                    (frameworkTemperature frameworkConfig) st of
               ((responseMessage, responseMetrics), st') \<Rightarrow>
                 (Inr \<lparr>responseId = expertId, responseName = name agentConfig,
                       response = responseMessage\<rparr>, st'))"

text \<open>
  \<open>expertIds.map(async (id) => ...)\<close>: the callbacks are started one after the other, each
  running up to its request before the next starts, and their responses are awaited
  together. The model performs the calls one after the other in that order. A callback
  that throws does not keep the later ones from starting, so the list holds the result of
  every callback.
\<close>

fun askExperts ::
  "'w env \<Rightarrow> FrameworkConfig \<Rightarrow> (string \<rightharpoonup> AgentConfig) \<Rightarrow> bool \<Rightarrow> string \<Rightarrow> string \<Rightarrow>
   string list \<Rightarrow> 'w state \<Rightarrow> (thrown + expertResponse) list \<times> 'w state" where
  "askExperts env frameworkConfig agentConfigs searchToggle context question [] st = ([], st)"
| "askExperts env frameworkConfig agentConfigs searchToggle context question (expertId # ids) st =
     (case askExpert env frameworkConfig agentConfigs searchToggle context question expertId
             st of
        (result, st') \<Rightarrow>
          (case askExperts env frameworkConfig agentConfigs searchToggle context question ids
                  st' of
             (results, st'') \<Rightarrow> (result # results, st'')))"

text \<open>
  \<open>await Promise.all(promises)\<close>: the values when every promise is fulfilled, and the
  error of a rejected one otherwise. The only rejections here are those of missing
  configurations, which happen when the callbacks start, in the order of the list.
\<close>

fun promiseAll :: "(thrown + 'a) list \<Rightarrow> thrown + 'a list" where
  "promiseAll [] = Inr []"
| "promiseAll (Inl e # results) = Inl e"
| "promiseAll (Inr v # results) =
     (case promiseAll results of Inl e \<Rightarrow> Inl e | Inr vs \<Rightarrow> Inr (v # vs))"

text \<open>\<open>r.name.split(':')[1]?.trim() || r.name\<close>\<close>

definition shortName :: "string \<Rightarrow> string" where
  "shortName fullName =
     (case splitOn CHR '':'' fullName of
        first # second # others \<Rightarrow> if trim second \<noteq> [] then trim second else fullName
      | pieces \<Rightarrow> fullName)"

definition expertMessage :: "expertResponse \<Rightarrow> ChatMessage" where
  "expertMessage r =
     UserChat \<lparr>messageType = AgentMessage, agentId = responseId r,
               agentName = shortName (responseName r), message = response r\<rparr>"

text \<open>
  The \<open>try\<close> block of lines 732--763 up to the update: the new instruction when the output
  of the update agent parses to a value whose \<open>update\<close> is \<open>true\<close> and whose
  \<open>newInstruction\<close> is truthy. The block throws, and its \<open>catch\<close> only logs, when
  \<open>JSON.parse\<close> throws, when the parsed value is \<open>null\<close>, and when the template literal of
  line 750 cannot convert the new instruction to a string.
\<close>

definition proposedInstruction :: "'w env \<Rightarrow> string \<Rightarrow> jsval" where
  "proposedInstruction env updateResultStr =
     (case JSON_parse env updateResultStr of
        Inl syntaxErrorMessage \<Rightarrow> None
      | Inr updateResult \<Rightarrow>
          if updateResult = JNull then None
          else if property updateResult ''update'' = Some (JBool True) \<and>
                  truthy (property updateResult ''newInstruction'')
          then (if convertibleValue (property updateResult ''newInstruction'')
                then property updateResult ''newInstruction'' else None)
          else None)"

text \<open>
  The state \<open>handleAskQuestion\<close> leaves behind: the error it threw, if any, the messages it
  appended to \<open>qaMessages\<close>, and the updates of \<open>systemInstruction\<close> it passed to
  \<open>setAgentConfigs\<close>, each with the id of the expert.
\<close>

record questionOutcome =
  thrownError :: "thrown option"
  appended :: "ChatMessage list"
  instructionUpdates :: "(string \<times> json) list"

text \<open>
  The loop of lines 720--765: for every response the update agent is invoked, never with
  search, on its prompt with the expert's instruction, the question and the response
  substituted. Reading \<open>prompt\<close> of a missing configuration of the update agent throws
  outside the \<open>try\<close>.
\<close>

fun updateLoop ::
  "'w env \<Rightarrow> FrameworkConfig \<Rightarrow> (string \<rightharpoonup> AgentConfig) \<Rightarrow> string \<Rightarrow> expertResponse list \<Rightarrow>
   ChatMessage list \<Rightarrow> (string \<times> json) list \<Rightarrow> 'w state \<Rightarrow> questionOutcome \<times> 'w state" where
  "updateLoop env frameworkConfig agentConfigs question [] messages updates st =
     (\<lparr>thrownError = None, appended = messages, instructionUpdates = updates\<rparr>, st)"
| "updateLoop env frameworkConfig agentConfigs question (expertResponse # others) messages
     updates st =
     (case agentConfigs promptUpdateAgentId of
        None \<Rightarrow>
          (\<lparr>thrownError = Some (TypeError (cannotReadMessage env None ''prompt'')),
            appended = messages, instructionUpdates = updates\<rparr>, st)
      | Some updateAgentConfig \<Rightarrow>
          (case agentConfigs (responseId expertResponse) of
             None \<Rightarrow>
               (\<lparr>thrownError =
                   Some (TypeError (cannotReadMessage env None ''systemInstruction'')),
                 appended = messages, instructionUpdates = updates\<rparr>, st)
           | Some expertConfig \<Rightarrow>
               let thePrompt =
                     truncatePromptIfNeeded
                       (String_replace env
                          (String_replace env
                             (String_replace env (prompt updateAgentConfig)
                                ''{expert_instruction}''
                                (case systemInstruction expertConfig of
                                   Some s \<Rightarrow> s
                                 | None \<Rightarrow> []))
                             ''{user_question}'' question)
                          ''{expert_response}'' (response expertResponse))
                       MAX_CONTEXT_TOKENS
               in case runAgent env promptUpdateAgentId (Some agentConfigs) (Some thePrompt)
                         False (frameworkSeed frameworkConfig)
                         (frameworkTemperature frameworkConfig) st of
                    ((updateResultStr, updateMetrics), st') \<Rightarrow>
                      (case proposedInstruction env updateResultStr of
                         None \<Rightarrow>
                           updateLoop env frameworkConfig agentConfigs question others
                             messages updates st'
                       | Some newInstruction \<Rightarrow>
                           updateLoop env frameworkConfig agentConfigs question others
                             (messages @
                              [SystemChat
                                 (''Perspective updated for '' @ displayName expertConfig @
                                  ''. A restart of the discussion will use this new '' @
                                  ''perspective.'')])
                             (updates @ [(responseId expertResponse, newInstruction)])
                             st')))"

text \<open>
  \<open>handleAskQuestion\<close>. It returns at once when the configurations, the proposal or the
  final decision are missing, and when the content of the final decision is empty or
  starts with \<open>Error:\<close>. Otherwise the question is appended to the messages, the three
  experts are asked (each with search if the toggle is on and its id starts with
  \<open>expert_\<close>), their answers are appended, and the update agent is invoked once for every
  answer. When a callback of the experts has thrown, the function throws after the
  question was appended.
\<close>

definition handleAskQuestion ::
  "'w env \<Rightarrow> FrameworkConfig \<Rightarrow> (string \<rightharpoonup> AgentConfig) option \<Rightarrow> ProposalData option \<Rightarrow>
   AgentOutput option \<Rightarrow> AgentOutput option list \<Rightarrow> ChatMessage list \<Rightarrow> ChatMessage list \<Rightarrow>
   bool \<Rightarrow> string \<Rightarrow> 'w state \<Rightarrow> questionOutcome option \<times> 'w state" where
  "handleAskQuestion env frameworkConfig agentConfigs proposal shownDecision section1Outputs
     discussionMessages qaMessages searchToggle question st =
     (case agentConfigs of
        None \<Rightarrow> (None, st)
      | Some configs \<Rightarrow>
          (case proposal of
             None \<Rightarrow> (None, st)
           | Some theProposal \<Rightarrow>
               (case shownDecision of
                  None \<Rightarrow> (None, st)
                | Some theDecision \<Rightarrow>
                    if outputContent theDecision = [] \<or>
                       startsWith (outputContent theDecision) ''Error:''
                    then (None, st)
                    else
                      let userMessage =
                            UserChat \<lparr>messageType = UserMessage, agentId = ''user'',
                                      agentName = ''You'', message = question\<rparr>;
                          context =
                            buildContext env theProposal section1Outputs discussionMessages
                              theDecision qaMessages
                      in case askExperts env frameworkConfig configs searchToggle context
                                question expertIds st of
                           (results, st1) \<Rightarrow>
                             (case promiseAll results of
                                Inl e \<Rightarrow>
                                  (Some \<lparr>thrownError = Some e, appended = [userMessage],
                                          instructionUpdates = []\<rparr>, st1)
                              | Inr expertResponses \<Rightarrow>
                                  (case updateLoop env frameworkConfig configs question
                                          expertResponses
                                          (userMessage # map expertMessage expertResponses)
                                          [] st1 of
                                     (outcome, st2) \<Rightarrow> (Some outcome, st2))))))"

section \<open>The report (PdfGenerator.ts, \<open>generate\<close>, lines 114--131)\<close>

definition formatterAgentId :: string where
  "formatterAgentId = ''pdf_formatter_agent''"

text \<open>
  The one statement of the report generator that reaches the generation service: when the
  summary has parsed data and the formatter is configured, \<open>runAgentQuery\<close> is called
  directly, on the formatter's configuration with the prompt, the seed and the
  temperature set. The argument has no \<open>useGoogleSearch\<close>: \<open>AgentConfig\<close> has no such
  property, and the call sets none. The drawing of the document is not modelled.
\<close>

definition formatSummary ::
  "'w env \<Rightarrow> FrameworkConfig \<Rightarrow> (string \<rightharpoonup> AgentConfig) \<Rightarrow> json \<Rightarrow> 'w state \<Rightarrow>
   (string \<times> GoogleSearchMetadata) option \<times> 'w state" where
  "formatSummary env frameworkConfig agentConfigs summaryData st =
     (case agentConfigs formatterAgentId of
        None \<Rightarrow> (None, st)
      | Some formatterConfig \<Rightarrow>
          let thePrompt =
                String_replace env (prompt formatterConfig) ''{json_content}''
                  (JSON_stringify env summaryData)
          in case runAgentQuery env
                    (AgentConfig.extend (formatterConfig\<lparr>prompt := thePrompt\<rparr>)
                       (RunAgentQueryArgs.fields False (frameworkSeed frameworkConfig)
                          (frameworkTemperature frameworkConfig)))
                    st of
               (formatted, st') \<Rightarrow> (Some formatted, st'))"

section \<open>Observations of a run\<close>

text \<open>
  A request has the web-search capability attached when its \<open>tools\<close> hold \<open>googleSearch\<close>; a
  call had it attached when a request that reached the generation service during the call
  has.
\<close>

definition withSearch :: "generateContentParams \<Rightarrow> bool" where
  "withSearch r = (GoogleSearch \<in> set (tools r))"

definition searchAttached :: "invocation \<Rightarrow> bool" where
  "searchAttached c = list_ex withSearch (sent c)"

text \<open>The expert discussion roles are the participants whose id starts with \<open>expert_\<close>.\<close>

definition isExpertRole :: "string \<Rightarrow> bool" where
  "isExpertRole agent = startsWith agent ''expert_''"

text \<open>
  The search restriction on one call, for a run whose search toggle is
  \<open>googleSearchEnabled\<close>: every request sent during the call holds the search tool exactly
  when the toggle is on and the participant is an expert discussion role; so the call has
  search attached exactly when, besides, a request is sent at all, that is, the API key is
  set and the participant is configured.
\<close>

definition searchRule ::
  "'w env \<Rightarrow> (string \<rightharpoonup> AgentConfig) \<Rightarrow> bool \<Rightarrow> invocation \<Rightarrow> bool" where
  "searchRule env configsForRun googleSearchEnabled c \<longleftrightarrow>
     (\<forall>r \<in> set (sent c).
        withSearch r \<longleftrightarrow> googleSearchEnabled \<and> isExpertRole (participant c)) \<and>
     (searchAttached c \<longleftrightarrow>
        googleSearchEnabled \<and> isExpertRole (participant c) \<and>
        GEMINI_API_KEY env \<and> configsForRun (participant c) \<noteq> None)"

text \<open>The calls a run added to the list of calls it started from.\<close>

definition newCalls :: "'w state \<Rightarrow> 'w state \<Rightarrow> invocation list" where
  "newCalls st st' = drop (length (calls st)) (calls st')"

text \<open>
  The requests a run added to the list of requests it started from, and the runs all of
  whose requests were sent during their calls of \<open>runAgent\<close>.
\<close>

definition newRequests :: "'w state \<Rightarrow> 'w state \<Rightarrow> generateContentParams list" where
  "newRequests st st' = drop (length (requests st)) (requests st')"

definition accounted :: "'w state \<Rightarrow> 'w state \<Rightarrow> bool" where
  "accounted st st' \<longleftrightarrow>
     (\<exists>new. calls st' = calls st @ new \<and> requests st' = requests st @ concat (map sent new))"

text \<open>
  The participants of the calls of one iteration, in order: each expert once per turn,
  then the scorer.
\<close>

definition iterationParticipants :: "string list" where
  "iterationParticipants = concat (replicate discussionTurns expertAgentIds) @ [finalAgentId]"

text \<open>The texts the scoring calls returned, in the order of the calls.\<close>

definition scoringOutputs :: "invocation list \<Rightarrow> string list" where
  "scoringOutputs cs = map returned (filter (\<lambda>c. participant c = finalAgentId) cs)"

text \<open>
  The configuration a run of the discussion needs: the three experts and the scorer are
  configured.
\<close>

definition configured :: "(string \<rightharpoonup> AgentConfig) \<Rightarrow> bool" where
  "configured configsForRun =
     list_all (\<lambda>agent. configsForRun agent \<noteq> None) (finalAgentId # expertAgentIds)"

text \<open>
  The metrics a run of the discussion starts from hold no entry of an expert without a
  search usage record. Both callers pass such metrics: \<open>handleRestartDiscussion\<close> an empty
  breakdown, \<open>runSimulation\<close> one with the entries of the classification and the
  summarization only.
\<close>

definition expertEntriesComplete :: "FrameworkMetrics \<Rightarrow> bool" where
  "expertEntriesComplete metrics =
     list_all
       (\<lambda>agent. case agentBreakdown metrics agent of
                   None \<Rightarrow> True
                 | Some entry \<Rightarrow> googleSearchUsage entry \<noteq> None)
       expertAgentIds"

text \<open>
  The texts of \<open>runAgentQuery\<close> and the prompt \<open>runAgent\<close> uses
  (\<open>dynamicPrompt || config.prompt\<close>), named for the statements below.
\<close>

definition generationFailureText :: "string \<Rightarrow> string" where
  "generationFailureText label =
     ''Error: Could not get response from agent '' @ label @ ''. Check console for details.''"

definition effectivePrompt :: "string option \<Rightarrow> AgentConfig \<Rightarrow> string" where
  "effectivePrompt dynamicPrompt config =
     (case dynamicPrompt of
        Some p \<Rightarrow> if p \<noteq> [] then p else prompt config
      | None \<Rightarrow> prompt config)"

text \<open>The arguments \<open>runAgent\<close> passes to \<open>runAgentQuery\<close> (lines 80--86).\<close>

definition queryArgs ::
  "string \<Rightarrow> AgentConfig \<Rightarrow> string option \<Rightarrow> bool \<Rightarrow> real option \<Rightarrow> real option \<Rightarrow>
   RunAgentQueryArgs" where
  "queryArgs agent config dynamicPrompt searchFlag seedArg temperatureArg =
     AgentConfig.extend (config\<lparr>prompt := effectivePrompt dynamicPrompt config\<rparr>)
       (RunAgentQueryArgs.fields searchFlag seedArg
          (if agent \<in> set forceZeroTempAgents then Some 0 else temperatureArg))"

section \<open>A test double of the outside world\<close>

text \<open>
  A world whose state is the number of clock readings so far, whose generation service
  gives the same outcome to every request, and whose \<open>JSON.parse\<close> is a given function.
\<close>

definition testConfig :: "string \<Rightarrow> AgentConfig" where
  "testConfig label =
     \<lparr>configId = label, name = label, description = [], model = ''gemini-2.5-flash'',
      prompt = ''Assess: {expert_discussion_transcript}'', systemInstruction = None,
      responseMimeType = Some ApplicationJson, responseSchema = None,
      maxOutputTokens = None, thinkingConfig = None\<rparr>"

definition testConfigs :: "string \<rightharpoonup> AgentConfig" where
  "testConfigs =
     map_of
       [(''expert_1'', testConfig ''Expert: Finance''),
        (''expert_2'', testConfig ''Expert: Technology''),
        (''expert_3'', testConfig ''Expert: Governance''),
        (''final_decision_agent'', testConfig ''Scorer''),
        (''proposal_classification_agent'', testConfig ''Classifier''),
        (''proposal_information_summarize_agent'', testConfig ''Summarizer''),
        (''framework_tracker_agent'', testConfig ''Tracker'')]"

definition testEnv :: "generateContentOutcome \<Rightarrow> (string \<Rightarrow> string + json) \<Rightarrow> nat env" where
  "testEnv outcome parse =
     \<lparr>GEMINI_API_KEY = True,
      performance_now = (\<lambda>w. (real w, Suc w)),
      generateContent = (\<lambda>params w. (outcome, w)),
      fetch = (\<lambda>address w. (FetchRejected ''Failed to fetch'', w)),
      fenceMatch = (\<lambda>content. None),
      JSON_parse = parse,
      JSON_stringify = (\<lambda>v. ''{}''),
      stringifyMetrics = (\<lambda>metrics. ''{}''),
      cannotReadMessage = (\<lambda>v key. ''Cannot read properties''),
      cannotConvertMessage = ''Cannot convert object to primitive value'',
      String_replace = (\<lambda>subject pattern replacement. subject)\<rparr>"

definition testState :: "nat state" where
  "testState = \<lparr>world = 0, requests = [], calls = []\<rparr>"

definition testDecision :: AgentOutput where
  "testDecision =
     \<lparr>outputId = ''final_decision_agent'', outputAgentName = ''Scorer'',
      outputContent = ''{}'', isLoading = False, outputData = None\<rparr>"

definition reportConfigs :: "string \<rightharpoonup> AgentConfig" where
  "reportConfigs = map_of [(''pdf_formatter_agent'', testConfig ''Formatter'')]"

definition testProposal :: ProposalData where
  "testProposal =
     \<lparr>proposal_info = ''Fund a retrospective on temperature checks'', date = ''2024-07-26'',
      url = []\<rparr>"

definition testFramework :: "nat \<Rightarrow> FrameworkConfig" where
  "testFramework n =
     \<lparr>iterations = n, frameworkSeed = None, frameworkTemperature = Some 0,
      frameworkDescription = []\<rparr>"

text \<open>
  Stand-ins for \<open>JSON.parse\<close>: one that rejects every text, and three that accept one
  text each and give the value \<open>JSON.parse\<close> gives for it.
\<close>

definition rejectAll :: "string \<Rightarrow> string + json" where
  "rejectAll s = Inl ''Unexpected token''"

definition overRangeText :: string where
  "overRangeText = ''{'' @ [CHR 0x22] @ ''feasibilityScore'' @ [CHR 0x22] @ '':150}''"

definition parseOverRange :: "string \<Rightarrow> string + json" where
  "parseOverRange s =
     (if s = overRangeText then Inr (JObj [(''feasibilityScore'', JNum 150)])
      else Inl ''Unexpected token'')"

definition opaqueScoreText :: string where
  "opaqueScoreText =
     ''{'' @ [CHR 0x22] @ ''feasibilityScore'' @ [CHR 0x22] @ '':{'' @
     [CHR 0x22] @ ''toString'' @ [CHR 0x22] @ '':1}}''"

definition parseOpaqueScore :: "string \<Rightarrow> string + json" where
  "parseOpaqueScore s =
     (if s = opaqueScoreText
      then Inr (JObj [(''feasibilityScore'', JObj [(''toString'', JNum 1)])])
      else Inl ''Unexpected token'')"

definition noFactorsText :: string where
  "noFactorsText =
     ''{'' @ [CHR 0x22] @ ''feasibilityScore'' @ [CHR 0x22] @ '':70,'' @
     [CHR 0x22] @ ''rationale'' @ [CHR 0x22] @ '':'' @ [CHR 0x22] @ ''sound'' @ [CHR 0x22] @ ''}''"

definition parseNoFactors :: "string \<Rightarrow> string + json" where
  "parseNoFactors s =
     (if s = noFactorsText
      then Inr (JObj [(''feasibilityScore'', JNum 70), (''rationale'', JStr ''sound'')])
      else Inl ''Unexpected token'')"

section \<open>Reference definitions of the statistics\<close>

text \<open>
  The population mean and the population standard deviation as the specification words
  them: \<open>mean = sum(scores) / N\<close> and \<open>sqrt(mean(sq(score - mean)))\<close>, dividing by \<open>N\<close>.
  The code above is compared with these.
\<close>

definition populationMean :: "real list \<Rightarrow> real" where
  "populationMean xs = sum_list xs / real (length xs)"

definition populationStdDev :: "real list \<Rightarrow> real" where
  "populationStdDev xs = sqrt ((\<Sum>x\<leftarrow>xs. (x - populationMean xs)\<^sup>2) / real (length xs))"

section \<open>Properties of the token/length guard\<close>

lemma countTokens_div: "countTokens text = (length text + 3) div 4"
proof -
  have "real (length text) / 4 = of_int (int (length text)) / of_int 4"
    by simp
  then have "\<lceil>real (length text) / 4\<rceil> = - (- int (length text) div 4)"
    by (simp only: ceiling_divide_eq_div)
  moreover have "- (- int (length text) div 4) = int ((length text + 3) div 4)"
    by (simp add: zdiv_int)
  ultimately show ?thesis
    by (simp add: countTokens_def)
qed

lemma splitLoop_ge: "i \<le> splitLoop p i"
proof (induction p i rule: splitLoop.induct)
  case (1 prompt splitIndex)
  show ?case
  proof (cases "splitIndex < length prompt \<and> prompt ! splitIndex \<noteq> CHR ''\<newline>''")
    case True
    with "1.IH" have "splitIndex \<le> splitLoop prompt (Suc splitIndex)"
      by (simp add: Suc_leD)
    with True show ?thesis
      by (subst splitLoop.simps) simp
  next
    case False
    then show ?thesis
      by (subst splitLoop.simps) auto
  qed
qed

lemma splitLoop_le_newline:
  "c \<le> j \<Longrightarrow> j < length p \<Longrightarrow> p ! j = CHR ''\<newline>'' \<Longrightarrow> splitLoop p c \<le> j"
proof (induction p c rule: splitLoop.induct)
  case (1 prompt splitIndex)
  show ?case
  proof (cases "splitIndex < length prompt \<and> prompt ! splitIndex \<noteq> CHR ''\<newline>''")
    case True
    with "1.prems" have "Suc splitIndex \<le> j"
      by (cases "splitIndex = j") auto
    with True "1.IH" "1.prems" have "splitLoop prompt (Suc splitIndex) \<le> j"
      by simp
    with True show ?thesis
      by (subst splitLoop.simps) simp
  next
    case False
    with "1.prems" show ?thesis
      by (subst splitLoop.simps) auto
  qed
qed

lemma splitLoop_beyond: "length p \<le> c \<Longrightarrow> splitLoop p c = c"
  by (subst splitLoop.simps) simp

lemma length_truncationMarker: "length truncationMarker = 57"
  by (simp add: truncationMarker_def)

lemma marker_nth_56: "(truncationMarker @ r) ! 56 = CHR ''\<newline>''"
  by (simp add: truncationMarker_def nth_append)

lemma length_drop_splitLoop:
  "length (drop (splitLoop p c) p) \<le> length p - c"
  using splitLoop_ge [of c p] by simp

text \<open>
  C6. A prompt whose estimate \<open>ceil(length / 4)\<close> is within the budget \<open>k\<close> is returned
  unchanged; a prompt whose estimate exceeds \<open>k\<close> is cut so that the estimate of the result
  is at most \<open>k\<close> plus the token cost of the truncation marker.
\<close>

theorem truncate_within_budget:
  "(countTokens s \<le> k \<longrightarrow> truncatePromptIfNeeded s k = s) \<and>
   (k < countTokens s \<longrightarrow>
      countTokens (truncatePromptIfNeeded s k) \<le> k + countTokens truncationMarker)"
proof (intro conjI impI)
  assume "countTokens s \<le> k"
  then show "truncatePromptIfNeeded s k = s"
    by (simp add: truncatePromptIfNeeded_def)
next
  assume over: "k < countTokens s"
  define c where "c = (countTokens s - k) * 4"
  define r where "r = length (drop (splitLoop s c) s)"
  have "r \<le> length s - c"
    unfolding r_def by (rule length_drop_splitLoop)
  moreover have "length s \<le> 4 * countTokens s"
    by (simp add: countTokens_div)
  ultimately have "r \<le> 4 * k"
    using over by (simp add: c_def)
  then have "(57 + r + 3) div 4 \<le> k + 15"
    by simp
  moreover have "truncatePromptIfNeeded s k = truncationMarker @ drop (splitLoop s c) s"
    using over by (simp add: truncatePromptIfNeeded_def Let_def c_def)
  ultimately show "countTokens (truncatePromptIfNeeded s k) \<le> k + countTokens truncationMarker"
    by (simp add: countTokens_div length_truncationMarker r_def)
qed

theorem truncate_within_budget_witness:
  "countTokens ''abc'' \<le> 1 \<and> truncatePromptIfNeeded ''abc'' 1 = ''abc'' \<and>
   1 < countTokens (''aaaaaaaa'' @ [CHR ''\<newline>''] @ ''bbb'') \<and>
   countTokens (truncatePromptIfNeeded (''aaaaaaaa'' @ [CHR ''\<newline>''] @ ''bbb'') 1)
     \<le> 1 + countTokens truncationMarker"
  using truncate_within_budget [of "''abc''" 1]
    truncate_within_budget [of "''aaaaaaaa'' @ [CHR ''\<newline>''] @ ''bbb''" 1]
  by (simp add: countTokens_div)

text \<open>
  A second truncation of an already truncated prompt that is still over budget never
  reproduces it, except for the bare marker under budget 0: the cut point is a multiple
  of four, and the marker's 57 characters end in two line feeds.
\<close>

lemma retruncate_changes:
  assumes over: "k < countTokens (truncationMarker @ r)"
    and same: "truncatePromptIfNeeded (truncationMarker @ r) k = truncationMarker @ r"
  shows "k = 0 \<and> r = []"
proof -
  define t where "t = truncationMarker @ r"
  define c where "c = (countTokens t - k) * 4"
  define i where "i = splitLoop t c"
  have len: "length t = 57 + length r"
    by (simp add: t_def length_truncationMarker)
  have "truncatePromptIfNeeded t k = truncationMarker @ drop i t"
    using over by (simp add: truncatePromptIfNeeded_def Let_def c_def i_def t_def)
  with same have "drop i t = r"
    by (simp add: t_def)
  then have "length t - i = length r"
    by (metis length_drop)
  then have "i = 57 \<or> (length r = 0 \<and> 57 \<le> i)"
    using len by arith
  then have i57: "i = 57 \<or> (r = [] \<and> 57 \<le> i)"
    by simp
  have c_ge: "57 \<le> c"
  proof (rule ccontr)
    assume "\<not> 57 \<le> c"
    moreover have "4 dvd c" by (simp add: c_def)
    ultimately have "c \<le> 56" by presburger
    moreover have "56 < length t" using len by simp
    moreover have "t ! 56 = CHR ''\<newline>''"
      unfolding t_def by (rule marker_nth_56)
    ultimately have "i \<le> 56"
      unfolding i_def by (rule splitLoop_le_newline)
    with i57 show False by simp
  qed
  have c_ne: "c \<noteq> 57"
  proof
    assume "c = 57"
    moreover have "4 dvd c" by (simp add: c_def)
    ultimately show False by presburger
  qed
  have "c \<le> i"
    unfolding i_def by (rule splitLoop_ge)
  with c_ge c_ne i57 have rnil: "r = []" by auto
  then have "countTokens t = 15"
    by (simp add: countTokens_div t_def length_truncationMarker)
  with c_ge have "k = 0"
    by (simp add: c_def)
  with rnil show ?thesis by simp
qed

lemma truncate_bare_marker: "truncatePromptIfNeeded truncationMarker 0 = truncationMarker"
proof -
  have "splitLoop truncationMarker 60 = 60"
    by (rule splitLoop_beyond) (simp add: length_truncationMarker)
  then show ?thesis
    by (simp add: truncatePromptIfNeeded_def countTokens_div length_truncationMarker)
qed

text \<open>
  C7, as stated, fails: with budget 1 (no greater than the estimate 3 of the prompt), the
  first truncation keeps the marker and four characters, 16 tokens by the estimate, and
  the second truncation cuts those four characters away as well.
\<close>

theorem truncate_not_idempotent:
  "1 \<le> countTokens (''aaaaaaaa'' @ [CHR ''\<newline>''] @ ''bbb'') \<and>
   truncatePromptIfNeeded
     (truncatePromptIfNeeded (''aaaaaaaa'' @ [CHR ''\<newline>''] @ ''bbb'') 1) 1
   \<noteq> truncatePromptIfNeeded (''aaaaaaaa'' @ [CHR ''\<newline>''] @ ''bbb'') 1"
  by code_simp

text \<open>
  C7, amended. Truncating a second time with the same budget \<open>k\<close> returns the first result
  exactly when that result already fits the budget (its estimate is at most \<open>k\<close>, which
  includes every \<open>k\<close> at or above the estimate of the input), or when \<open>k = 0\<close> and the first
  result is the bare marker.
\<close>

theorem truncate_idempotent_iff:
  "truncatePromptIfNeeded (truncatePromptIfNeeded s k) k = truncatePromptIfNeeded s k \<longleftrightarrow>
     countTokens (truncatePromptIfNeeded s k) \<le> k \<or>
     (k = 0 \<and> truncatePromptIfNeeded s k = truncationMarker)"
proof
  assume same: "truncatePromptIfNeeded (truncatePromptIfNeeded s k) k = truncatePromptIfNeeded s k"
  show "countTokens (truncatePromptIfNeeded s k) \<le> k \<or>
        (k = 0 \<and> truncatePromptIfNeeded s k = truncationMarker)"
  proof (cases "countTokens (truncatePromptIfNeeded s k) \<le> k")
    case True
    then show ?thesis by simp
  next
    case False
    have "k < countTokens s"
    proof (rule ccontr)
      assume "\<not> k < countTokens s"
      then have "truncatePromptIfNeeded s k = s" "countTokens s \<le> k"
        by (simp_all add: truncatePromptIfNeeded_def)
      with False show False by simp
    qed
    then obtain r where t: "truncatePromptIfNeeded s k = truncationMarker @ r"
      by (simp add: truncatePromptIfNeeded_def Let_def)
    with False same have "k = 0 \<and> r = []"
      by (intro retruncate_changes) simp_all
    with t show ?thesis by simp
  qed
next
  assume "countTokens (truncatePromptIfNeeded s k) \<le> k \<or>
          (k = 0 \<and> truncatePromptIfNeeded s k = truncationMarker)"
  then show "truncatePromptIfNeeded (truncatePromptIfNeeded s k) k = truncatePromptIfNeeded s k"
  proof
    assume "countTokens (truncatePromptIfNeeded s k) \<le> k"
    then show ?thesis
      by (subst truncatePromptIfNeeded_def) simp
  next
    assume "k = 0 \<and> truncatePromptIfNeeded s k = truncationMarker"
    then have k0: "k = 0" and m: "truncatePromptIfNeeded s k = truncationMarker"
      by (rule conjunct1, rule conjunct2)
    show ?thesis
      unfolding m unfolding k0 by (rule truncate_bare_marker)
  qed
qed

section \<open>Properties of the statistics\<close>

lemma foldl_plus: "foldl (\<lambda>sum score. sum + score) a xs = a + sum_list xs" for a :: real
  by (induction xs arbitrary: a) simp_all

lemma foldl_squares:
  "foldl (\<lambda>sum score. sum + (score - m)\<^sup>2) a xs = a + (\<Sum>x\<leftarrow>xs. (x - m)\<^sup>2)" for a :: real
  by (induction xs arbitrary: a) simp_all

lemma mean_nonempty: "scores \<noteq> [] \<Longrightarrow> mean scores = Fin (populationMean scores)"
  by (simp add: mean_def overLength_def foldl_plus populationMean_def)

lemma variance_nonempty:
  "scores \<noteq> [] \<Longrightarrow>
   variance scores = Fin ((\<Sum>x\<leftarrow>scores. (x - populationMean scores)\<^sup>2) / real (length scores))"
  by (simp add: variance_def mean_nonempty overLength_def foldl_squares)

lemma sum_list_squares_nonneg: "0 \<le> (\<Sum>x\<leftarrow>xs. (x - m)\<^sup>2)" for m :: real
  by (induction xs) simp_all

lemma standardDeviation_nonempty:
  assumes ne: "scores \<noteq> []"
  shows "standardDeviation scores = Fin (populationStdDev scores)"
proof -
  have "0 \<le> (\<Sum>x\<leftarrow>scores. (x - populationMean scores)\<^sup>2) / real (length scores)"
    by (simp add: sum_list_squares_nonneg)
  then have "\<not> (\<Sum>x\<leftarrow>scores. (x - populationMean scores)\<^sup>2) / real (length scores) < 0"
    by (simp only: not_less)
  with ne show ?thesis
    by (simp add: standardDeviation_def variance_nonempty populationStdDev_def)
qed

lemma median_nonempty:
  assumes "scores \<noteq> []"
  shows "median scores =
         Fin (if odd (length scores) then sort scores ! (length scores div 2)
              else (sort scores ! (length scores div 2 - 1)
                    + sort scores ! (length scores div 2)) / 2)"
proof -
  from assms have pos: "0 < length scores" by simp
  show ?thesis
  proof (cases "odd (length scores)")
    case True
    then have "length scores mod 2 \<noteq> 0" by presburger
    with pos show ?thesis
      using True by (simp add: median_def Let_def at_index_def)
  next
    case False
    then have "length scores mod 2 = 0" by presburger
    moreover from False pos have "1 \<le> length scores div 2" by presburger
    ultimately show ?thesis
      using False pos by (simp add: median_def Let_def at_index_def nat_diff_distrib')
  qed
qed

lemma example_mean: "mean [75, 82, 73, 90, 40] = Fin 72"
  by (simp add: mean_def overLength_def)

lemma example_median: "median [75, 82, 73, 90, 40] = Fin 75"
  by (simp add: median_def at_index_def)

lemma example_variance: "variance [75, 82, 73, 90, 40] = Fin (1458 / 5)"
  by (simp add: variance_def example_mean overLength_def)

lemma example_standardDeviation:
  "standardDeviation [75, 82, 73, 90, 40] = Fin (sqrt (1458 / 5))"
  by (simp add: standardDeviation_def example_variance)

lemma sqrt_example_bounds: "17.07 < sqrt (1458 / 5)" "sqrt (1458 / 5) < 17.08"
proof -
  have "(17.07::real)\<^sup>2 < 1458 / 5"
    by (simp add: power2_eq_square)
  then show "17.07 < sqrt (1458 / 5)"
    by (rule real_less_rsqrt)
  have "(1458 / 5 :: real) < 17.08\<^sup>2"
    by (simp add: power2_eq_square)
  then show "sqrt (1458 / 5) < 17.08"
    by (intro real_less_lsqrt) simp_all
qed

text \<open>
  C3, as stated, fails in its example: the population standard deviation of
  \<open>[75, 82, 73, 90, 40]\<close> is the square root of \<open>1458 / 5 = 291.6\<close>, which is above 17 and so
  is not 16.74 to two decimals.
\<close>

theorem example_stddev_above_17:
  "js_gt (standardDeviation [75, 82, 73, 90, 40]) 17"
proof -
  have "17 < sqrt (1458 / 5 :: real)"
    using sqrt_example_bounds(1) by simp
  then show ?thesis
    by (simp add: example_standardDeviation)
qed

text \<open>
  C3, amended. For every non-empty score list the aggregation computes the mean as
  \<open>sum / N\<close>, the median as the middle element of the ascending ordering when \<open>N\<close> is odd
  and as the arithmetic mean of the two middle elements when \<open>N\<close> is even, and the
  population standard deviation (dividing by \<open>N\<close>); for \<open>[75, 82, 73, 90, 40]\<close> it yields
  mean 72, median 75 and a standard deviation between 17.07 and 17.08 (about 17.08),
  hence confidence Low.
\<close>

theorem statistics_of_scores:
  assumes "scores \<noteq> []"
  shows "mean scores = Fin (sum_list scores / real (length scores)) \<and>
         (\<exists>ascending. sorted ascending \<and> mset ascending = mset scores \<and>
            median scores =
              Fin (if odd (length scores) then ascending ! (length scores div 2)
                   else (ascending ! (length scores div 2 - 1)
                         + ascending ! (length scores div 2)) / 2)) \<and>
         standardDeviation scores = Fin (populationStdDev scores) \<and>
         mean [75, 82, 73, 90, 40] = Fin 72 \<and>
         median [75, 82, 73, 90, 40] = Fin 75 \<and>
         js_gt (standardDeviation [75, 82, 73, 90, 40]) 17.07 \<and>
         js_le (standardDeviation [75, 82, 73, 90, 40]) 17.08 \<and>
         confidenceLevel [75, 82, 73, 90, 40] = ''Low''"
proof -
  have "sorted (sort scores) \<and> mset (sort scores) = mset scores"
    by simp
  with median_nonempty [OF assms]
  have med: "\<exists>ascending. sorted ascending \<and> mset ascending = mset scores \<and>
            median scores =
              Fin (if odd (length scores) then ascending ! (length scores div 2)
                   else (ascending ! (length scores div 2 - 1)
                         + ascending ! (length scores div 2)) / 2)"
    by blast
  have "confidenceLevel [75, 82, 73, 90, 40] = ''Low''"
    using sqrt_example_bounds(1) by (simp add: confidenceLevel_def example_standardDeviation)
  moreover have "js_gt (standardDeviation [75, 82, 73, 90, 40]) 17.07"
    using sqrt_example_bounds(1) by (simp add: example_standardDeviation)
  moreover have "js_le (standardDeviation [75, 82, 73, 90, 40]) 17.08"
    using sqrt_example_bounds(2) by (simp add: example_standardDeviation)
  ultimately show ?thesis
    using mean_nonempty [OF assms] standardDeviation_nonempty [OF assms] med
    by (simp only: populationMean_def example_mean example_median simp_thms)
qed

theorem statistics_of_scores_witness:
  "[75, 80, 85] \<noteq> ([] :: real list) \<and> mean [75, 80, 85] = Fin 80 \<and>
   standardDeviation [75, 80, 85] = Fin (populationStdDev [75, 80, 85])"
  using statistics_of_scores [of "[75, 80, 85]"] by simp

section \<open>Properties of the decision\<close>

text \<open>
  C1, as stated, fails. The rendering path classifies the rounded median, so the median
  49.5 (inside the claimed Not-Recommended band) is shown as Proceed with Caution; and the
  aggregation path uses other thresholds (70 and 50, three categories), so the two paths
  disagree at 75 and at 40.
\<close>

theorem decision_paths_differ:
  "recommendation (Fin (99 / 2)) = ''Proceed with Caution'' \<and>
   decision (Fin 75) = ''Proceed'' \<and> recommendation (Fin 75) = ''Proceed with Caution'' \<and>
   decision (Fin 40) = ''Do not proceed'' \<and> recommendation (Fin 40) = ''Not Recommended''"
  by (simp add: recommendation_def decision_def)

text \<open>
  C1, amended. The rendering path assigns the category by the median rounded to the
  nearest integer, halves upwards: Proceed from 80.5, Proceed with Caution from 49.5 to
  below 80.5, Not Recommended from 29.5 to below 49.5, Do Not Proceed below 29.5; on a
  whole-number median this is Proceed above 80, Proceed with Caution from 50 to 80, Not
  Recommended from 30 to 49, Do Not Proceed below 30.
\<close>

theorem recommendation_thresholds:
  "(recommendation (Fin m) = ''Proceed'' \<longleftrightarrow> 80.5 \<le> m) \<and>
   (recommendation (Fin m) = ''Proceed with Caution'' \<longleftrightarrow> 49.5 \<le> m \<and> m < 80.5) \<and>
   (recommendation (Fin m) = ''Not Recommended'' \<longleftrightarrow> 29.5 \<le> m \<and> m < 49.5) \<and>
   (recommendation (Fin m) = ''Do Not Proceed'' \<longleftrightarrow> m < 29.5) \<and>
   recommendation (Fin (of_int n)) =
     (if n > 80 then ''Proceed''
      else if n \<ge> 50 then ''Proceed with Caution''
      else if n \<ge> 30 then ''Not Recommended''
      else ''Do Not Proceed'')"
proof -
  have r: "c \<le> \<lfloor>m + 1 / 2\<rfloor> \<longleftrightarrow> of_int c - 1 / 2 \<le> m" for c :: int
    by (simp add: le_floor_iff) linarith
  have a: "80 < \<lfloor>m + 1 / 2\<rfloor> \<longleftrightarrow> 80.5 \<le> m"
    using r [of 81] by simp
  have b: "50 \<le> \<lfloor>m + 1 / 2\<rfloor> \<longleftrightarrow> 49.5 \<le> m"
    using r [of 50] by simp
  have c: "30 \<le> \<lfloor>m + 1 / 2\<rfloor> \<longleftrightarrow> 29.5 \<le> m"
    using r [of 30] by simp
  have whole: "\<lfloor>real_of_int n + 1 / 2\<rfloor> = n"
    by linarith
  show ?thesis
    by (simp add: recommendation_def Let_def a b c whole)
qed

section \<open>Properties of the agent invoker\<close>

lemma tools_requestParams:
  "tools (requestParams args) = (if useGoogleSearch args then [GoogleSearch] else [])"
  by (simp add: requestParams_def)

lemma useGoogleSearch_queryArgs: "useGoogleSearch (queryArgs a config dp flag sd tp) = flag"
  by (simp add: queryArgs_def AgentConfig.defs RunAgentQueryArgs.defs)

lemma name_queryArgs: "name (queryArgs a config dp flag sd tp) = name config"
  by (simp add: queryArgs_def AgentConfig.defs RunAgentQueryArgs.defs)

lemma withSearch_requestParams: "withSearch (requestParams args) = useGoogleSearch args"
  by (simp add: withSearch_def tools_requestParams)

lemma runAgentQuery_requests:
  "requests (snd (runAgentQuery env args st)) =
     requests st @ (if GEMINI_API_KEY env then [requestParams args] else [])"
  by (simp add: runAgentQuery_def callGenerateContent_def Let_def
      split: prod.splits generateContentOutcome.splits)

lemma runAgentQuery_calls: "calls (snd (runAgentQuery env args st)) = calls st"
  by (simp add: runAgentQuery_def callGenerateContent_def Let_def
      split: prod.splits generateContentOutcome.splits)

lemma runAgent_unfold:
  assumes "table a = Some config"
    and "performance_now env (world st) = (startTime, w1)"
    and "runAgentQuery env (queryArgs a config dp flag sd tp) (st\<lparr>world := w1\<rparr>) =
         ((result, searchMetadata), st2)"
    and "performance_now env (world st2) = (endTime, w3)"
  shows "runAgent env a (Some table) dp flag sd tp st =
         ((result,
           \<lparr>duration = endTime - startTime,
            tokenUsage =
              \<lparr>inputTokens = countTokens (effectivePrompt dp config),
               outputTokens = countTokens result\<rparr>,
            googleSearchUsage = Some searchMetadata\<rparr>),
          recordCall a result st (st2\<lparr>world := w3\<rparr>))"
  using assms by (simp add: runAgent_def Let_def queryArgs_def effectivePrompt_def)

lemma runAgent_call:
  "\<exists>c. calls (snd (runAgent env a (Some table) dp flag sd tp st)) = calls st @ [c] \<and>
       participant c = a \<and>
       returned c = fst (fst (runAgent env a (Some table) dp flag sd tp st)) \<and>
       (searchAttached c \<longleftrightarrow> flag \<and> GEMINI_API_KEY env \<and> table a \<noteq> None) \<and>
       requests (snd (runAgent env a (Some table) dp flag sd tp st)) = requests st @ sent c \<and>
       (\<forall>r \<in> set (sent c). withSearch r \<longleftrightarrow> flag)"
proof -
  show ?thesis
  proof (cases "table a")
    case None
    then show ?thesis
      by (simp add: runAgent_def recordCall_def searchAttached_def)
  next
    case (Some config)
    obtain startTime w1 where t0: "performance_now env (world st) = (startTime, w1)"
      by (cases "performance_now env (world st)")
    obtain result searchMetadata st2
      where q: "runAgentQuery env (queryArgs a config dp flag sd tp) (st\<lparr>world := w1\<rparr>) =
                ((result, searchMetadata), st2)"
      by (metis surj_pair)
    obtain endTime w3 where t1: "performance_now env (world st2) = (endTime, w3)"
      by (cases "performance_now env (world st2)")
    have sent2: "requests st2 =
        requests st @
        (if GEMINI_API_KEY env then [requestParams (queryArgs a config dp flag sd tp)] else [])"
      using runAgentQuery_requests [of env "queryArgs a config dp flag sd tp" "st\<lparr>world := w1\<rparr>"]
      by (simp add: q)
    have calls2: "calls st2 = calls st"
      using runAgentQuery_calls [of env "queryArgs a config dp flag sd tp" "st\<lparr>world := w1\<rparr>"]
      by (simp add: q)
    note eq = runAgent_unfold [where table = table, OF Some t0 q t1]
    show ?thesis
      unfolding eq using Some
      by (simp add: recordCall_def searchAttached_def sent2 calls2 withSearch_requestParams
          useGoogleSearch_queryArgs)
  qed
qed

lemma runAgent_calls:
  "\<exists>c. calls (snd (runAgent env a (Some table) dp flag sd tp st)) = calls st @ [c] \<and>
       participant c = a \<and>
       returned c = fst (fst (runAgent env a (Some table) dp flag sd tp st)) \<and>
       (searchAttached c \<longleftrightarrow> flag \<and> GEMINI_API_KEY env \<and> table a \<noteq> None) \<and>
       requests (snd (runAgent env a (Some table) dp flag sd tp st)) = requests st @ sent c"
  using runAgent_call [of env a table dp flag sd tp st] by auto

lemma runAgent_sent:
  assumes "calls (snd (runAgent env a (Some table) dp flag sd tp st)) = calls st @ [c]"
  shows "\<forall>r \<in> set (sent c). withSearch r \<longleftrightarrow> flag"
  using runAgent_call [of env a table dp flag sd tp st] assms by auto

text \<open>
  C4, amended. For every configured participant and every prompt, if the underlying
  generation call fails, the invoker returns the text
  \<open>Error: Could not get response from agent <name>. Check console for details.\<close>, with the
  participant's configured name, and metrics that are not zeroed: the input tokens are the
  estimate of the prompt, the output tokens the estimate of the error text (at least 18),
  the duration the time measured around the call, and the search usage is the unused
  record. The invoker returns a value on every input: all exceptions of the call are
  caught in \<open>runAgentQuery\<close>, and \<^const>\<open>runAgent\<close> has no error result.
\<close>

theorem runAgent_generation_failure:
  assumes cfg: "table agent = Some config"
    and key: "GEMINI_API_KEY env"
    and start: "performance_now env (world st) = (startTime, w1)"
    and fails: "\<And>params. generateContent env params w1 = (Rejected, w2)"
    and stop: "performance_now env w2 = (endTime, w3)"
  shows "fst (runAgent env agent (Some table) dynamicPrompt searchFlag seedArg temperatureArg st) =
           (generationFailureText (name config),
            \<lparr>duration = endTime - startTime,
             tokenUsage =
               \<lparr>inputTokens = countTokens (effectivePrompt dynamicPrompt config),
                outputTokens = countTokens (generationFailureText (name config))\<rparr>,
             googleSearchUsage = Some noSearch\<rparr>) \<and>
         18 \<le> countTokens (generationFailureText (name config))"
proof -
  define st2 where "st2 =
      st\<lparr>world := w2,
         requests :=
           requests st @
           [requestParams (queryArgs agent config dynamicPrompt searchFlag seedArg
              temperatureArg)]\<rparr>"
  have query: "runAgentQuery env
          (queryArgs agent config dynamicPrompt searchFlag seedArg temperatureArg)
          (st\<lparr>world := w1\<rparr>) =
        ((generationFailureText (name config), noSearch), st2)"
    using key fails
    by (simp add: runAgentQuery_def callGenerateContent_def generationFailureText_def
        name_queryArgs st2_def)
  have stop2: "performance_now env (world st2) = (endTime, w3)"
    using stop by (simp add: st2_def)
  from runAgent_unfold [where table = table, OF cfg start query stop2]
  have "fst (runAgent env agent (Some table) dynamicPrompt searchFlag seedArg temperatureArg st) =
           (generationFailureText (name config),
            \<lparr>duration = endTime - startTime,
             tokenUsage =
               \<lparr>inputTokens = countTokens (effectivePrompt dynamicPrompt config),
                outputTokens = countTokens (generationFailureText (name config))\<rparr>,
             googleSearchUsage = Some noSearch\<rparr>)"
    by simp
  moreover have "18 \<le> countTokens (generationFailureText (name config))"
    by (simp add: countTokens_div generationFailureText_def)
  ultimately show ?thesis by simp
qed

theorem runAgent_generation_failure_witness:
  "testConfigs ''final_decision_agent'' = Some (testConfig ''Scorer'') \<and>
   GEMINI_API_KEY (testEnv Rejected rejectAll) \<and>
   fst (runAgent (testEnv Rejected rejectAll) ''final_decision_agent'' (Some testConfigs)
          (Some ''hi'') False None None testState) =
     (''Error: Could not get response from agent Scorer. Check console for details.'',
      \<lparr>duration = 1, tokenUsage = \<lparr>inputTokens = 1, outputTokens = 19\<rparr>,
       googleSearchUsage = Some noSearch\<rparr>)"
proof -
  have cfg: "testConfigs ''final_decision_agent'' = Some (testConfig ''Scorer'')"
    by (simp add: testConfigs_def)
  have key: "GEMINI_API_KEY (testEnv Rejected rejectAll)"
    by (simp add: testEnv_def)
  have start: "performance_now (testEnv Rejected rejectAll) (world testState) = (0, 1)"
    by (simp add: testEnv_def testState_def)
  have fails: "\<And>params. generateContent (testEnv Rejected rejectAll) params 1 = (Rejected, 1)"
    by (simp add: testEnv_def)
  have stop: "performance_now (testEnv Rejected rejectAll) 1 = (1, 2)"
    by (simp add: testEnv_def)
  from runAgent_generation_failure [where table = testConfigs, OF cfg key start fails stop,
      of "Some ''hi''" False None None]
  show ?thesis
    using cfg key
    by (simp add: generationFailureText_def effectivePrompt_def testConfig_def countTokens_div)
qed

text \<open>
  C4, as stated, fails: for the scorer (configured name \<open>Scorer\<close>) and the prompt \<open>hi\<close>, a
  failing generation call yields neither \<open>Error: final_decision_agent call failed\<close> nor
  \<open>Error: Scorer call failed\<close>, and the metrics are duration 1, 1 input token and 19
  output tokens.
\<close>

theorem runAgent_failure_not_zeroed:
  "fst (fst (runAgent (testEnv Rejected rejectAll) ''final_decision_agent''
               (Some testConfigs) (Some ''hi'') False None None testState))
     \<noteq> ''Error: final_decision_agent call failed'' \<and>
   fst (fst (runAgent (testEnv Rejected rejectAll) ''final_decision_agent''
               (Some testConfigs) (Some ''hi'') False None None testState))
     \<noteq> ''Error: Scorer call failed'' \<and>
   snd (fst (runAgent (testEnv Rejected rejectAll) ''final_decision_agent''
               (Some testConfigs) (Some ''hi'') False None None testState))
     = \<lparr>duration = 1, tokenUsage = \<lparr>inputTokens = 1, outputTokens = 19\<rparr>,
        googleSearchUsage = Some noSearch\<rparr>"
  by (simp add: runAgent_def runAgentQuery_def callGenerateContent_def testEnv_def
      testConfigs_def testConfig_def testState_def countTokens_div Let_def AgentConfig.defs
      RunAgentQueryArgs.defs)

lemma runAgent_constant_response:
  assumes key: "GEMINI_API_KEY env"
    and const: "\<And>params w. fst (generateContent env params w) = Response t None"
    and fence: "fenceMatch env t = None"
    and cfg: "table a = Some config"
  shows "fst (fst (runAgent env a (Some table) dp flag sd tp st)) = t"
proof -
  obtain startTime w1 where t0: "performance_now env (world st) = (startTime, w1)"
    by (cases "performance_now env (world st)")
  obtain w2 where g: "generateContent env (requestParams (queryArgs a config dp flag sd tp)) w1 =
      (Response t None, w2)"
    using const [of "requestParams (queryArgs a config dp flag sd tp)" w1]
    by (cases "generateContent env (requestParams (queryArgs a config dp flag sd tp)) w1") simp
  obtain st2 where q: "runAgentQuery env (queryArgs a config dp flag sd tp) (st\<lparr>world := w1\<rparr>) =
        ((t, collectSearchMetadata None), st2)"
    using key g fence by (simp add: runAgentQuery_def callGenerateContent_def)
  obtain endTime w3 where t1: "performance_now env (world st2) = (endTime, w3)"
    by (cases "performance_now env (world st2)")
  from runAgent_unfold [where table = table, OF cfg t0 q t1] show ?thesis
    by simp
qed

section \<open>Properties of an iteration\<close>

lemma complete_iff:
  "expertEntriesComplete metrics \<longleftrightarrow>
     (\<forall>a entry. a \<in> set expertAgentIds \<longrightarrow> agentBreakdown metrics a = Some entry \<longrightarrow>
        googleSearchUsage entry \<noteq> None)"
  unfolding expertEntriesComplete_def list_all_iff
  by (auto split: option.splits)

lemma googleSearchUsage_addUsage [simp]:
  "googleSearchUsage (addUsage entry am) = googleSearchUsage entry"
  by (simp add: addUsage_def)

lemma agentBreakdown_addTotals [simp]:
  "agentBreakdown (addTotals am metrics) = agentBreakdown metrics"
  by (simp add: addTotals_def)

lemma trackExpert_ok:
  assumes e: "e \<in> set expertAgentIds" and c: "expertEntriesComplete metrics"
  shows "\<exists>metrics'. trackExpert env e am metrics = Inr metrics' \<and> expertEntriesComplete metrics'"
proof -
  define entry where
    "entry = addUsage (case agentBreakdown metrics e of Some existing \<Rightarrow> existing
                       | None \<Rightarrow> freshExpertEntry) am"
  have usage: "googleSearchUsage entry \<noteq> None"
  proof (cases "agentBreakdown metrics e")
    case None
    then show ?thesis by (simp add: entry_def freshExpertEntry_def)
  next
    case (Some existing)
    with e c have "googleSearchUsage existing \<noteq> None"
      by (simp add: complete_iff)
    with Some show ?thesis by (simp add: entry_def)
  qed
  then obtain current where cur: "googleSearchUsage entry = Some current"
    by auto
  show ?thesis
  proof (cases "googleSearchUsage am")
    case None
    then have "trackExpert env e am metrics =
      Inr (addTotals am (metrics\<lparr>agentBreakdown := (agentBreakdown metrics)(e \<mapsto> entry)\<rparr>))"
      by (simp add: trackExpert_def entry_def Let_def)
    moreover have "expertEntriesComplete
      (addTotals am (metrics\<lparr>agentBreakdown := (agentBreakdown metrics)(e \<mapsto> entry)\<rparr>))"
      using c usage by (auto simp: complete_iff)
    ultimately show ?thesis by simp
  next
    case (Some usage')
    with cur have "trackExpert env e am metrics =
      Inr (addTotals am
             (metrics
                \<lparr>agentBreakdown :=
                   (agentBreakdown metrics)
                     (e \<mapsto> entry\<lparr>googleSearchUsage := Some (mergeSearchUsage current usage')\<rparr>),
                 googleSearchSummary := addToSummary e usage' (googleSearchSummary metrics)\<rparr>))"
      by (simp add: trackExpert_def entry_def Let_def)
    moreover have "expertEntriesComplete
      (addTotals am
             (metrics
                \<lparr>agentBreakdown :=
                   (agentBreakdown metrics)
                     (e \<mapsto> entry\<lparr>googleSearchUsage := Some (mergeSearchUsage current usage')\<rparr>),
                 googleSearchSummary := addToSummary e usage' (googleSearchSummary metrics)\<rparr>))"
      using c by (auto simp: complete_iff)
    ultimately show ?thesis by simp
  qed
qed

lemma finalAgentId_not_expert: "finalAgentId \<notin> set expertAgentIds"
  by (simp add: finalAgentId_def expertAgentIds_def)

lemma trackFinal_complete:
  "expertEntriesComplete metrics \<Longrightarrow> expertEntriesComplete (trackFinal am metrics)"
  using finalAgentId_not_expert
  by (auto simp: complete_iff trackFinal_def Let_def)

lemma expertTurn_calls:
  "\<exists>new. calls (snd (expertTurn env fc ctx cfgs gse e h m st)) = calls st @ new \<and>
         list_all (\<lambda>c. participant c = e \<and> searchRule env cfgs gse c) new"
proof (cases "cfgs e")
  case None
  then show ?thesis
    by (simp add: expertTurn_def)
next
  case (Some agentConfig)
  define dp where
    "dp = truncatePromptIfNeeded
            (expertPrompt ctx
               (if transcriptText h \<noteq> [] then transcriptText h
                else ''(No history yet. You are the first to speak.)'') agentConfig)
            MAX_CONTEXT_TOKENS"
  define flag where "flag = (gse \<and> startsWith e ''expert_'')"
  define r where
    "r = runAgent env e (Some cfgs) (Some dp) flag (frameworkSeed fc) (frameworkTemperature fc) st"
  have st': "snd (expertTurn env fc ctx cfgs gse e h m st) = snd r"
    using Some
    by (simp add: expertTurn_def Let_def r_def dp_def flag_def split: prod.split sum.split)
  obtain c where c: "calls (snd r) = calls st @ [c]" "participant c = e"
    "searchAttached c \<longleftrightarrow> flag \<and> GEMINI_API_KEY env \<and> cfgs e \<noteq> None"
    unfolding r_def using runAgent_calls by blast
  have "\<forall>r \<in> set (sent c). withSearch r \<longleftrightarrow> flag"
    using c(1) unfolding r_def by (rule runAgent_sent)
  with c show ?thesis
    unfolding st' by (auto simp: searchRule_def isExpertRole_def flag_def)
qed

lemma expertTurn_ok:
  assumes cfg: "cfgs e = Some agentConfig" and e: "e \<in> set expertAgentIds"
    and c: "expertEntriesComplete m"
  shows "\<exists>h' m' st' call.
           expertTurn env fc ctx cfgs gse e h m st = (Inr (h', m'), st') \<and>
           calls st' = calls st @ [call] \<and> participant call = e \<and>
           expertEntriesComplete m'"
proof -
  define dp where
    "dp = truncatePromptIfNeeded
            (expertPrompt ctx
               (if transcriptText h \<noteq> [] then transcriptText h
                else ''(No history yet. You are the first to speak.)'') agentConfig)
            MAX_CONTEXT_TOKENS"
  define flag where "flag = (gse \<and> startsWith e ''expert_'')"
  define r where
    "r = runAgent env e (Some cfgs) (Some dp) flag (frameworkSeed fc) (frameworkTemperature fc) st"
  obtain content am st' where r: "r = ((content, am), st')"
    by (metis surj_pair)
  obtain call where call: "calls (snd r) = calls st @ [call]" "participant call = e"
    unfolding r_def using runAgent_calls by blast
  obtain m' where t: "trackExpert env e am m = Inr m'" and c': "expertEntriesComplete m'"
    using trackExpert_ok [OF e c] by blast
  have "expertTurn env fc ctx cfgs gse e h m st =
        (Inr (h @ [\<lparr>messageType = AgentMessage, agentId = e,
                   agentName = displayName agentConfig, message = content\<rparr>], m'), st')"
    using cfg r t
    by (simp add: expertTurn_def Let_def r_def [symmetric] dp_def [symmetric] flag_def [symmetric])
  with c' call r show ?thesis by simp
qed

lemma expertsLoop_calls:
  "\<exists>new. calls (snd (expertsLoop env fc ctx cfgs gse ids h m st)) = calls st @ new \<and>
         list_all (\<lambda>c. participant c \<in> set ids \<and> searchRule env cfgs gse c) new"
proof (induction ids arbitrary: h m st)
  case Nil
  then show ?case by simp
next
  case (Cons e ids)
  obtain res st1 where t: "expertTurn env fc ctx cfgs gse e h m st = (res, st1)"
    by (cases "expertTurn env fc ctx cfgs gse e h m st")
  obtain n1 where n1: "calls st1 = calls st @ n1"
    "list_all (\<lambda>c. participant c = e \<and> searchRule env cfgs gse c) n1"
    using expertTurn_calls [of env fc ctx cfgs gse e h m st] t by auto
  show ?case
  proof (cases res)
    case (Inl err)
    with t n1 show ?thesis
      by (auto simp: list_all_iff)
  next
    case (Inr pair)
    obtain h' m' where pair: "pair = (h', m')"
      by (cases pair)
    obtain n2 where n2:
      "calls (snd (expertsLoop env fc ctx cfgs gse ids h' m' st1)) = calls st1 @ n2"
      "list_all (\<lambda>c. participant c \<in> set ids \<and> searchRule env cfgs gse c) n2"
      using Cons.IH by blast
    have "calls (snd (expertsLoop env fc ctx cfgs gse (e # ids) h m st)) = calls st @ n1 @ n2"
      using t Inr pair n1(1) n2(1) by simp
    moreover have "list_all (\<lambda>c. participant c \<in> set (e # ids) \<and> searchRule env cfgs gse c) (n1 @ n2)"
      using n1(2) n2(2) by (auto simp: list_all_iff)
    ultimately show ?thesis by blast
  qed
qed

lemma expertsLoop_ok:
  assumes "\<forall>e \<in> set ids. cfgs e \<noteq> None \<and> e \<in> set expertAgentIds"
    and "expertEntriesComplete m"
  shows "\<exists>h' m' st' new.
           expertsLoop env fc ctx cfgs gse ids h m st = (Inr (h', m'), st') \<and>
           calls st' = calls st @ new \<and> map participant new = ids \<and>
           expertEntriesComplete m'"
  using assms
proof (induction ids arbitrary: h m st)
  case Nil
  then show ?case by simp
next
  case (Cons e ids)
  from Cons.prems obtain agentConfig where cfg: "cfgs e = Some agentConfig"
    and e: "e \<in> set expertAgentIds"
    by auto
  from expertTurn_ok [where cfgs = cfgs, OF cfg e Cons.prems(2), of env fc ctx gse h st]
  obtain h1 m1 st1 call where
    t: "expertTurn env fc ctx cfgs gse e h m st = (Inr (h1, m1), st1)"
    and call: "calls st1 = calls st @ [call]" "participant call = e"
    and c1: "expertEntriesComplete m1"
    by blast
  from Cons.prems(1) have rest: "\<forall>e \<in> set ids. cfgs e \<noteq> None \<and> e \<in> set expertAgentIds"
    by simp
  from Cons.IH [OF rest c1, of h1 st1]
  obtain h' m' st' new where
    "expertsLoop env fc ctx cfgs gse ids h1 m1 st1 = (Inr (h', m'), st')"
    "calls st' = calls st1 @ new" "map participant new = ids" "expertEntriesComplete m'"
    by blast
  with t call have
    "expertsLoop env fc ctx cfgs gse (e # ids) h m st = (Inr (h', m'), st')"
    "calls st' = calls st @ (call # new)" "map participant (call # new) = e # ids"
    "expertEntriesComplete m'"
    by simp_all
  then show ?case
    by (intro exI [of _ h'] exI [of _ m'] exI [of _ st'] exI [of _ "call # new"] conjI)
qed

lemma turnsLoop_calls:
  "\<exists>new. calls (snd (turnsLoop env fc ctx cfgs gse turn h m st)) = calls st @ new \<and>
         list_all (\<lambda>c. participant c \<in> set expertAgentIds \<and> searchRule env cfgs gse c) new"
proof (induction env fc ctx cfgs gse turn h m st rule: turnsLoop.induct)
  case (1 env fc ctx cfgs gse turn h m st)
  show ?case
  proof (cases "turn < discussionTurns")
    case False
    then show ?thesis
      by (subst turnsLoop.simps) simp
  next
    case True
    obtain res st1 where t: "expertsLoop env fc ctx cfgs gse expertAgentIds h m st = (res, st1)"
      by (cases "expertsLoop env fc ctx cfgs gse expertAgentIds h m st")
    obtain n1 where n1: "calls st1 = calls st @ n1"
      "list_all (\<lambda>c. participant c \<in> set expertAgentIds \<and> searchRule env cfgs gse c) n1"
      using expertsLoop_calls [of env fc ctx cfgs gse expertAgentIds h m st] t by auto
    show ?thesis
    proof (cases res)
      case (Inl err)
      with True t n1 show ?thesis
        by (subst turnsLoop.simps) auto
    next
      case (Inr pair)
      obtain h' m' where pair: "pair = (h', m')"
        by (cases pair)
      obtain n2 where n2:
        "calls (snd (turnsLoop env fc ctx cfgs gse (Suc turn) h' m' st1)) = calls st1 @ n2"
        "list_all (\<lambda>c. participant c \<in> set expertAgentIds \<and> searchRule env cfgs gse c) n2"
        using "1.IH" [OF True t [symmetric] Inr pair [symmetric]] by blast
      have "calls (snd (turnsLoop env fc ctx cfgs gse turn h m st)) = calls st @ n1 @ n2"
        using True t Inr pair n1(1) n2(1) by (subst turnsLoop.simps) simp
      moreover have "list_all (\<lambda>c. participant c \<in> set expertAgentIds \<and> searchRule env cfgs gse c) (n1 @ n2)"
        using n1(2) n2(2) by simp
      ultimately show ?thesis by blast
    qed
  qed
qed

lemma configured_experts:
  "configured cfgs \<Longrightarrow> \<forall>e \<in> set expertAgentIds. cfgs e \<noteq> None \<and> e \<in> set expertAgentIds"
  by (simp add: configured_def list_all_iff)

lemma turnsLoop_ok:
  assumes "configured cfgs" and "expertEntriesComplete m"
  shows "\<exists>h' m' st' new.
           turnsLoop env fc ctx cfgs gse turn h m st = (Inr (h', m'), st') \<and>
           calls st' = calls st @ new \<and>
           map participant new = concat (replicate (discussionTurns - turn) expertAgentIds) \<and>
           expertEntriesComplete m'"
  using assms
proof (induction env fc ctx cfgs gse turn h m st rule: turnsLoop.induct)
  case (1 env fc ctx cfgs gse turn h m st)
  show ?case
  proof (cases "turn < discussionTurns")
    case False
    with "1.prems" show ?thesis
      by (subst turnsLoop.simps) simp
  next
    case True
    from expertsLoop_ok [OF configured_experts [OF "1.prems"(1)] "1.prems"(2),
        of env fc ctx gse h st]
    obtain h1 m1 st1 n1 where
      t: "expertsLoop env fc ctx cfgs gse expertAgentIds h m st = (Inr (h1, m1), st1)"
      and n1: "calls st1 = calls st @ n1" "map participant n1 = expertAgentIds"
      and c1: "expertEntriesComplete m1"
      by blast
    from "1.IH" [OF True t [symmetric] refl refl "1.prems"(1) c1]
    obtain h' m' st' n2 where
      loop: "turnsLoop env fc ctx cfgs gse (Suc turn) h1 m1 st1 = (Inr (h', m'), st')"
      and n2: "calls st' = calls st1 @ n2"
        "map participant n2 = concat (replicate (discussionTurns - Suc turn) expertAgentIds)"
      and c': "expertEntriesComplete m'"
      by blast
    have "discussionTurns - turn = Suc (discussionTurns - Suc turn)"
      using True by simp
    then have "map participant (n1 @ n2) =
        concat (replicate (discussionTurns - turn) expertAgentIds)"
      using n1(2) n2(2) by simp
    moreover have "turnsLoop env fc ctx cfgs gse turn h m st = (Inr (h', m'), st')"
      using True t loop by (subst turnsLoop.simps) simp
    moreover have "calls st' = calls st @ (n1 @ n2)"
      using n1(1) n2(1) by simp
    ultimately show ?thesis
      using c' by blast
  qed
qed

lemma final_not_expert_role: "\<not> isExpertRole finalAgentId"
  by (simp add: isExpertRole_def finalAgentId_def startsWith_def)

lemma runSingleIteration_calls:
  "\<exists>new. calls (snd (runSingleIteration env fc ctx cfgs m gse i st)) = calls st @ new \<and>
         list_all (searchRule env cfgs gse) new"
proof -
  obtain res st1 where t: "turnsLoop env fc ctx cfgs gse 0 [] m st = (res, st1)"
    by (cases "turnsLoop env fc ctx cfgs gse 0 [] m st")
  obtain n1 where n1: "calls st1 = calls st @ n1" "list_all (searchRule env cfgs gse) n1"
    using turnsLoop_calls [of env fc ctx cfgs gse 0 "[]" m st] t
    by (auto simp: list_all_iff)
  show ?thesis
  proof (cases res)
    case (Inl err)
    with t n1 show ?thesis
      by (simp add: runSingleIteration_def)
  next
    case (Inr pair)
    obtain h m1 where pair: "pair = (h, m1)"
      by (cases pair)
    show ?thesis
    proof (cases "cfgs finalAgentId")
      case None
      with t Inr pair n1 show ?thesis
        by (simp add: runSingleIteration_def)
    next
      case (Some finalAgentConfig)
      define r where
        "r = runAgent env finalAgentId (Some cfgs) (Some (scoringPrompt env finalAgentConfig h i))
               False (frameworkSeed fc) (frameworkTemperature fc) st1"
      obtain c where c: "calls (snd r) = calls st1 @ [c]" "participant c = finalAgentId"
        "searchAttached c \<longleftrightarrow> False \<and> GEMINI_API_KEY env \<and> cfgs finalAgentId \<noteq> None"
        unfolding r_def using runAgent_calls by blast
      have none: "\<forall>r \<in> set (sent c). withSearch r \<longleftrightarrow> False"
        using c(1) unfolding r_def by (rule runAgent_sent)
      have "snd (runSingleIteration env fc ctx cfgs m gse i st) = snd r"
        using t Inr pair Some
        by (simp add: runSingleIteration_def r_def split: prod.split)
      moreover have "searchRule env cfgs gse c"
        using c none final_not_expert_role by (simp add: searchRule_def)
      ultimately show ?thesis
        using c(1) n1 by simp
    qed
  qed
qed

lemma configured_final: "configured cfgs \<Longrightarrow> \<exists>config. cfgs finalAgentId = Some config"
  by (auto simp: configured_def)

lemma runSingleIteration_ok:
  assumes cfg: "configured cfgs" and c: "expertEntriesComplete m"
  shows "\<exists>history m' st' discussion c.
           runSingleIteration env fc ctx cfgs m gse i st =
             (Inr (history, parseEvaluation env i (returned c), m'), st') \<and>
           calls st' = calls st @ discussion @ [c] \<and>
           list_all (\<lambda>d. participant d \<in> set expertAgentIds) discussion \<and>
           participant c = finalAgentId \<and>
           map participant (discussion @ [c]) = iterationParticipants \<and>
           expertEntriesComplete m'"
proof -
  from turnsLoop_ok [OF cfg c, of env fc ctx gse 0 "[]" st]
  obtain h m1 st1 n1 where
    t: "turnsLoop env fc ctx cfgs gse 0 [] m st = (Inr (h, m1), st1)"
    and n1: "calls st1 = calls st @ n1"
      "map participant n1 = concat (replicate discussionTurns expertAgentIds)"
    and c1: "expertEntriesComplete m1"
    by auto
  have experts: "list_all (\<lambda>d. participant d \<in> set expertAgentIds) n1"
  proof -
    have "set (map participant n1) \<subseteq> set expertAgentIds"
      unfolding n1(2) by auto
    then show ?thesis
      by (auto simp: list_all_iff)
  qed
  obtain finalAgentConfig where fin: "cfgs finalAgentId = Some finalAgentConfig"
    using configured_final [OF cfg] by blast
  define r where
    "r = runAgent env finalAgentId (Some cfgs) (Some (scoringPrompt env finalAgentConfig h i))
           False (frameworkSeed fc) (frameworkTemperature fc) st1"
  obtain evaluationContent evalMetrics st2 where r: "r = ((evaluationContent, evalMetrics), st2)"
    by (metis surj_pair)
  obtain call where call: "calls (snd r) = calls st1 @ [call]" "participant call = finalAgentId"
    "returned call = fst (fst r)"
    unfolding r_def using runAgent_calls by blast
  have "runSingleIteration env fc ctx cfgs m gse i st =
        (Inr (h, parseEvaluation env i (returned call), trackFinal evalMetrics m1), st2)"
    using t fin r call(3)
    by (simp add: runSingleIteration_def r_def [symmetric])
  moreover have "calls st2 = calls st @ n1 @ [call]"
    using call(1) r n1(1) by simp
  moreover have "expertEntriesComplete (trackFinal evalMetrics m1)"
    using c1 by (rule trackFinal_complete)
  moreover have "map participant (n1 @ [call]) = iterationParticipants"
    using n1(2) call(2) by (simp add: iterationParticipants_def)
  ultimately show ?thesis
    using experts call(2) by blast
qed

lemma runSingleIteration_evaluation:
  assumes "runSingleIteration env fc ctx cfgs m gse i st = (Inr (h, ev, m'), st')"
  shows "calls st' \<noteq> [] \<and> participant (last (calls st')) = finalAgentId \<and>
         ev = parseEvaluation env i (returned (last (calls st'))) \<and>
         (\<exists>dp st1. returned (last (calls st')) =
            fst (fst (runAgent env finalAgentId (Some cfgs) dp False (frameworkSeed fc)
                        (frameworkTemperature fc) st1)))"
proof -
  obtain res st1 where t: "turnsLoop env fc ctx cfgs gse 0 [] m st = (res, st1)"
    by (cases "turnsLoop env fc ctx cfgs gse 0 [] m st")
  from assms t obtain h1 m1 where res: "res = Inr (h1, m1)"
    by (cases res) (auto simp: runSingleIteration_def)
  from assms t res obtain finalAgentConfig where fin: "cfgs finalAgentId = Some finalAgentConfig"
    by (cases "cfgs finalAgentId") (auto simp: runSingleIteration_def)
  define r where
    "r = runAgent env finalAgentId (Some cfgs) (Some (scoringPrompt env finalAgentConfig h1 i))
           False (frameworkSeed fc) (frameworkTemperature fc) st1"
  obtain evaluationContent evalMetrics st2 where r: "r = ((evaluationContent, evalMetrics), st2)"
    by (metis surj_pair)
  obtain c where c: "calls (snd r) = calls st1 @ [c]" "participant c = finalAgentId"
    "returned c = fst (fst r)"
    unfolding r_def using runAgent_calls by blast
  from assms t res fin r have "st' = st2" "ev = parseEvaluation env i evaluationContent"
    by (simp_all add: runSingleIteration_def r_def [symmetric])
  with c r have "calls st' = calls st1 @ [c]" "ev = parseEvaluation env i (returned c)"
    by simp_all
  moreover have "returned c =
      fst (fst (runAgent env finalAgentId (Some cfgs) (Some (scoringPrompt env finalAgentConfig h1 i))
                  False (frameworkSeed fc) (frameworkTemperature fc) st1))"
    using c(3) by (simp add: r_def)
  ultimately show ?thesis
    using c(2) by auto
qed

lemma parseEvaluation_failure:
  "JSON_parse env content = Inl msg \<Longrightarrow>
   parseEvaluation env i content = parseFailure i msg"
  by (simp add: parseEvaluation_def)

lemma parseEvaluation_success:
  "JSON_parse env content = Inr parsedEval \<Longrightarrow> parsedEval \<noteq> JNull \<Longrightarrow>
   convertibleValue (property parsedEval ''feasibilityScore'') \<Longrightarrow>
   parseEvaluation env i content =
     \<lparr>iteration = i,
      feasibilityScore = property parsedEval ''feasibilityScore'',
      rationale = property parsedEval ''rationale'',
      keyFactors =
        (if truthy (property parsedEval ''keyFactors'') then property parsedEval ''keyFactors''
         else Some (JArr []))\<rparr>"
  by (simp add: parseEvaluation_def)

lemma parseEvaluation_unconvertible:
  "JSON_parse env content = Inr parsedEval \<Longrightarrow> parsedEval \<noteq> JNull \<Longrightarrow>
   \<not> convertibleValue (property parsedEval ''feasibilityScore'') \<Longrightarrow>
   parseEvaluation env i content = parseFailure i (cannotConvertMessage env)"
  by (simp add: parseEvaluation_def)

lemma parseEvaluation_convertible:
  "convertibleValue (feasibilityScore (parseEvaluation env i content))"
  by (simp add: parseEvaluation_def parseFailure_def convertibleValue_def split: sum.split)

lemma testConfigs_configured: "configured testConfigs"
  by (simp add: configured_def testConfigs_def finalAgentId_def expertAgentIds_def)

lemma emptyMetrics_complete: "expertEntriesComplete emptyMetrics"
  by (simp add: expertEntriesComplete_def emptyMetrics_def expertAgentIds_def)

lemma testEnv_returns:
  assumes run: "runSingleIteration (testEnv (Response t None) parse) fc ctx testConfigs m gse i st =
                  (Inr (h, ev, m'), st')"
  shows "returned (last (calls st')) = t"
proof -
  from runSingleIteration_evaluation [OF run] obtain dp st1 where
    "returned (last (calls st')) =
       fst (fst (runAgent (testEnv (Response t None) parse) finalAgentId (Some testConfigs) dp
                   False (frameworkSeed fc) (frameworkTemperature fc) st1))"
    by blast
  moreover have "testConfigs finalAgentId = Some (testConfig ''Scorer'')"
    by (simp add: testConfigs_def finalAgentId_def)
  ultimately show ?thesis
    by (simp add: runAgent_constant_response [where config = "testConfig ''Scorer''"] testEnv_def)
qed

text \<open>
  C10, as stated, fails: the scoring output \<open>{"feasibilityScore":{"toString":1}}\<close> parses
  to an object without \<open>keyFactors\<close>, but its score cannot be converted to a string, so
  the template literal of line 330 throws inside the \<open>try\<close> and the record is the one of
  the \<open>catch\<close>: \<open>keyFactors\<close> is \<open>["Parsing error occurred"]\<close> and the score is 50.
\<close>

theorem opaque_score_takes_catch:
  "JSON_parse (testEnv (Response opaqueScoreText None) parseOpaqueScore)
     (returned (last (calls (snd
        (runSingleIteration (testEnv (Response opaqueScoreText None) parseOpaqueScore)
           (testFramework 1) ''context'' testConfigs emptyMetrics False 1 testState))))) =
     Inr (JObj [(''feasibilityScore'', JObj [(''toString'', JNum 1)])]) \<and>
   property (JObj [(''feasibilityScore'', JObj [(''toString'', JNum 1)])]) ''keyFactors'' = None \<and>
   keyFactors
     (fst (snd (projr (fst
        (runSingleIteration (testEnv (Response opaqueScoreText None) parseOpaqueScore)
           (testFramework 1) ''context'' testConfigs emptyMetrics False 1 testState))))) =
     Some (JArr [JStr ''Parsing error occurred'']) \<and>
   feasibilityScore
     (fst (snd (projr (fst
        (runSingleIteration (testEnv (Response opaqueScoreText None) parseOpaqueScore)
           (testFramework 1) ''context'' testConfigs emptyMetrics False 1 testState))))) =
     Some (JNum 50)"
proof -
  obtain h ev m' st' where
    run: "runSingleIteration (testEnv (Response opaqueScoreText None) parseOpaqueScore)
            (testFramework 1) ''context'' testConfigs emptyMetrics False 1 testState =
          (Inr (h, ev, m'), st')"
    using runSingleIteration_ok [OF testConfigs_configured emptyMetrics_complete] by blast
  have out: "returned (last (calls st')) = opaqueScoreText"
    by (rule testEnv_returns [OF run])
  from runSingleIteration_evaluation [OF run] out
  have "ev = parseEvaluation (testEnv (Response opaqueScoreText None) parseOpaqueScore) 1
               opaqueScoreText"
    by simp
  then have "keyFactors ev = Some (JArr [JStr ''Parsing error occurred''])"
    "feasibilityScore ev = Some (JNum 50)"
    by (simp_all add: parseEvaluation_def parseFailure_def testEnv_def parseOpaqueScore_def
        convertibleValue_def)
  with run out show ?thesis
    by (simp add: testEnv_def parseOpaqueScore_def)
qed

text \<open>
  C10, amended. The scoring call is the last call of an iteration. If its output parses to
  a value other than \<open>null\<close> whose \<open>feasibilityScore\<close> can be converted to a string and
  whose \<open>keyFactors\<close> is absent or falsy, the iteration's record has \<open>keyFactors\<close> the empty
  array, and \<open>feasibilityScore\<close> and \<open>rationale\<close> are the parsed value's properties as they
  are.
\<close>

theorem keyFactors_default:
  assumes run: "runSingleIteration env fc ctx cfgs m gse i st = (Inr (h, ev, m'), st')"
    and parsed: "JSON_parse env (returned (last (calls st'))) = Inr parsedEval"
    and notnull: "parsedEval \<noteq> JNull"
    and conv: "convertibleValue (property parsedEval ''feasibilityScore'')"
    and falsy: "\<not> truthy (property parsedEval ''keyFactors'')"
  shows "participant (last (calls st')) = finalAgentId \<and>
         keyFactors ev = Some (JArr []) \<and>
         feasibilityScore ev = property parsedEval ''feasibilityScore'' \<and>
         rationale ev = property parsedEval ''rationale''"
proof -
  from runSingleIteration_evaluation [OF run]
  have fin: "participant (last (calls st')) = finalAgentId"
    and ev: "ev = parseEvaluation env i (returned (last (calls st')))"
    by simp_all
  from ev parseEvaluation_success [OF parsed notnull conv] falsy fin show ?thesis
    by simp
qed

theorem keyFactors_default_witness:
  "\<exists>h ev m' st'.
     runSingleIteration (testEnv (Response noFactorsText None) parseNoFactors) (testFramework 1)
       ''context'' testConfigs emptyMetrics False 1 testState = (Inr (h, ev, m'), st') \<and>
     JSON_parse (testEnv (Response noFactorsText None) parseNoFactors)
       (returned (last (calls st'))) =
       Inr (JObj [(''feasibilityScore'', JNum 70), (''rationale'', JStr ''sound'')]) \<and>
     convertibleValue (Some (JNum 70)) \<and>
     keyFactors ev = Some (JArr []) \<and> feasibilityScore ev = Some (JNum 70) \<and>
     rationale ev = Some (JStr ''sound'')"
proof -
  obtain h ev m' st' where
    run: "runSingleIteration (testEnv (Response noFactorsText None) parseNoFactors)
            (testFramework 1) ''context'' testConfigs emptyMetrics False 1 testState =
          (Inr (h, ev, m'), st')"
    using runSingleIteration_ok [OF testConfigs_configured emptyMetrics_complete] by blast
  have parsed: "JSON_parse (testEnv (Response noFactorsText None) parseNoFactors)
        (returned (last (calls st'))) =
      Inr (JObj [(''feasibilityScore'', JNum 70), (''rationale'', JStr ''sound'')])"
    unfolding testEnv_returns [OF run] by (simp add: testEnv_def parseNoFactors_def)
  from keyFactors_default [OF run parsed] run parsed show ?thesis
    by (simp add: convertibleValue_def)
qed

section \<open>Properties of the run\<close>

lemma initialMetrics_complete:
  "expertEntriesComplete (initialMetrics classMetrics summaryMetrics)"
  by (simp add: expertEntriesComplete_def initialMetrics_def expertAgentIds_def
      classificationAgentId_def summarizeAgentId_def)

lemma scoringOutputs_append [simp]:
  "scoringOutputs (xs @ ys) = scoringOutputs xs @ scoringOutputs ys"
  by (simp add: scoringOutputs_def)

lemma scoringOutputs_discussion:
  "list_all (\<lambda>d. participant d \<in> set expertAgentIds) discussion \<Longrightarrow>
   scoringOutputs discussion = []"
  using finalAgentId_not_expert
  by (auto simp: scoringOutputs_def list_all_iff filter_empty_conv)

lemma scoringOutputs_final:
  "participant c = finalAgentId \<Longrightarrow> scoringOutputs [c] = [returned c]"
  by (simp add: scoringOutputs_def)

lemma truncate_extend [simp]:
  "evaluationResult.truncate
     (evaluationResult.extend evaluation (independentEvaluation.fields history)) = evaluation"
  by (simp add: evaluationResult.defs independentEvaluation.defs)

lemma iterationsLoop_calls:
  "\<exists>new. calls (snd (iterationsLoop env fc ctx cfgs gse n i acc m st)) = calls st @ new \<and>
         list_all (searchRule env cfgs gse) new"
proof (induction env fc ctx cfgs gse n i acc m st rule: iterationsLoop.induct)
  case (1 env fc ctx cfgs gse n i acc m st)
  show ?case
  proof (cases "i \<le> n")
    case False
    then show ?thesis
      by (subst iterationsLoop.simps) simp
  next
    case True
    obtain res st1 where t: "runSingleIteration env fc ctx cfgs m gse i st = (res, st1)"
      by (cases "runSingleIteration env fc ctx cfgs m gse i st")
    obtain n1 where n1: "calls st1 = calls st @ n1" "list_all (searchRule env cfgs gse) n1"
      using runSingleIteration_calls [of env fc ctx cfgs m gse i st] t by auto
    show ?thesis
    proof (cases res)
      case (Inl err)
      with True t n1 show ?thesis
        by (subst iterationsLoop.simps) auto
    next
      case (Inr triple)
      obtain h ev m1 where triple: "triple = (h, ev, m1)"
        by (cases triple)
      show ?thesis
      proof (cases "convertibleValue (feasibilityScore ev)")
        case False
        with True t Inr triple n1 show ?thesis
          by (subst iterationsLoop.simps) auto
      next
        case conv: True
        then have conv': "\<not> \<not> convertibleValue (feasibilityScore ev)"
          by simp
        obtain n2 where n2:
          "calls (snd (iterationsLoop env fc ctx cfgs gse n (Suc i)
                         (acc @ [evaluationResult.extend ev (independentEvaluation.fields h)])
                         m1 st1)) = calls st1 @ n2"
          "list_all (searchRule env cfgs gse) n2"
          using "1.IH" [OF True t [symmetric] Inr triple [symmetric] refl conv'] by blast
        have "calls (snd (iterationsLoop env fc ctx cfgs gse n i acc m st)) =
              calls st @ n1 @ n2"
          using True t Inr triple n1(1) n2(1) conv by (subst iterationsLoop.simps) simp
        moreover have "list_all (searchRule env cfgs gse) (n1 @ n2)"
          using n1(2) n2(2) by simp
        ultimately show ?thesis by blast
      qed
    qed
  qed
qed

lemma iterationsLoop_ok:
  assumes "configured cfgs" and "expertEntriesComplete m"
  shows "\<exists>records m' st' new.
           iterationsLoop env fc ctx cfgs gse n i acc m st = (Inr (acc @ records, m'), st') \<and>
           calls st' = calls st @ new \<and>
           map participant new = concat (replicate (Suc n - i) iterationParticipants) \<and>
           map evaluationResult.truncate records =
             map2 (parseEvaluation env) [i..<Suc n] (scoringOutputs new) \<and>
           length (scoringOutputs new) = Suc n - i \<and>
           expertEntriesComplete m'"
  using assms
proof (induction env fc ctx cfgs gse n i acc m st rule: iterationsLoop.induct)
  case (1 env fc ctx cfgs gse n i acc m st)
  show ?case
  proof (cases "i \<le> n")
    case False
    with "1.prems" show ?thesis
      by (subst iterationsLoop.simps) (simp add: scoringOutputs_def)
  next
    case True
    obtain h m1 st1 discussion c where
      t: "runSingleIteration env fc ctx cfgs m gse i st =
            (Inr (h, parseEvaluation env i (returned c), m1), st1)"
      and calls1: "calls st1 = calls st @ discussion @ [c]"
      and disc: "list_all (\<lambda>d. participant d \<in> set expertAgentIds) discussion"
      and fin: "participant c = finalAgentId"
      and parts: "map participant (discussion @ [c]) = iterationParticipants"
      and c1: "expertEntriesComplete m1"
      using runSingleIteration_ok [OF "1.prems", of env fc ctx gse i st] by blast
    define entry where
      "entry = evaluationResult.extend (parseEvaluation env i (returned c))
                 (independentEvaluation.fields h)"
    have conv: "\<not> \<not> convertibleValue (feasibilityScore (parseEvaluation env i (returned c)))"
      by (simp add: parseEvaluation_convertible)
    obtain records m' st' new where
      loop: "iterationsLoop env fc ctx cfgs gse n (Suc i) (acc @ [entry]) m1 st1 =
               (Inr ((acc @ [entry]) @ records, m'), st')"
      and calls2: "calls st' = calls st1 @ new"
      and parts2: "map participant new =
                     concat (replicate (Suc n - Suc i) iterationParticipants)"
      and recs: "map evaluationResult.truncate records =
                   map2 (parseEvaluation env) [Suc i..<Suc n] (scoringOutputs new)"
      and len: "length (scoringOutputs new) = Suc n - Suc i"
      and c': "expertEntriesComplete m'"
      using "1.IH" [OF True t [symmetric] refl refl refl conv "1.prems"(1) c1]
      unfolding entry_def by blast
    have "scoringOutputs (discussion @ [c] @ new) =
            scoringOutputs discussion @ scoringOutputs [c] @ scoringOutputs new"
      by (simp only: scoringOutputs_append)
    then have outs: "scoringOutputs (discussion @ [c] @ new) = returned c # scoringOutputs new"
      using scoringOutputs_discussion [OF disc] scoringOutputs_final [OF fin] by simp
    have upt: "[i..<Suc n] = i # [Suc i..<Suc n]"
      using True by (simp add: upt_conv_Cons)
    have count: "Suc n - i = Suc (Suc n - Suc i)"
      using True by simp
    have "iterationsLoop env fc ctx cfgs gse n i acc m st =
            (Inr (acc @ (entry # records), m'), st')"
      using True t loop
      by (subst iterationsLoop.simps) (simp add: entry_def parseEvaluation_convertible)
    moreover have "calls st' = calls st @ (discussion @ [c] @ new)"
      using calls1 calls2 by simp
    moreover have "map participant (discussion @ [c] @ new) =
        concat (replicate (Suc n - i) iterationParticipants)"
      unfolding count using parts parts2 by simp
    moreover have "map evaluationResult.truncate (entry # records) =
        map2 (parseEvaluation env) [i..<Suc n] (scoringOutputs (discussion @ [c] @ new))"
      unfolding outs upt using recs by (simp add: entry_def)
    moreover have "length (scoringOutputs (discussion @ [c] @ new)) = Suc n - i"
      unfolding outs using len True by simp
    ultimately show ?thesis
      using c' by blast
  qed
qed

lemma newCalls_append: "calls st' = calls st @ new \<Longrightarrow> newCalls st st' = new"
  by (simp add: newCalls_def)

lemma run_records:
  assumes cfg: "configured cfgs" and c: "expertEntriesComplete m"
  shows "\<exists>outcome st'.
           runDiscussionAndDecision env fc ctx cfgs m gse st = (Inr outcome, st') \<and>
           map participant (newCalls st st') =
             concat (replicate (iterations fc) iterationParticipants) \<and>
           length (scoringOutputs (newCalls st st')) = iterations fc \<and>
           map evaluationResult.truncate (independentEvaluations outcome) =
             map2 (parseEvaluation env) [1..<Suc (iterations fc)]
               (scoringOutputs (newCalls st st'))"
proof -
  obtain finalAgentConfig where fin: "cfgs finalAgentId = Some finalAgentConfig"
    using configured_final [OF cfg] by blast
  obtain records m' st' new where
    loop: "iterationsLoop env fc ctx cfgs gse (iterations fc) 1 [] m st =
             (Inr ([] @ records, m'), st')"
    and new: "calls st' = calls st @ new"
    and parts: "map participant new =
                  concat (replicate (Suc (iterations fc) - 1) iterationParticipants)"
    and recs: "map evaluationResult.truncate records =
                 map2 (parseEvaluation env) [1..<Suc (iterations fc)] (scoringOutputs new)"
    and len: "length (scoringOutputs new) = Suc (iterations fc) - 1"
    using iterationsLoop_ok [OF cfg c, of env fc ctx gse "iterations fc" 1 "[]" st] by blast
  have "runDiscussionAndDecision env fc ctx cfgs m gse st =
        (Inr \<lparr>finalMetrics = m', independentEvaluations = records,
              finalDecision = map_option aggregate (numericScores records)\<rparr>, st')"
    using fin loop by (simp add: runDiscussionAndDecision_def)
  with recs len parts newCalls_append [OF new] show ?thesis
    by (simp del: upt_Suc)
qed

lemma nth_records:
  assumes "map evaluationResult.truncate records = map2 (parseEvaluation env) [1..<Suc n] outs"
    and "length outs = n" and "k < n"
  shows "evaluationResult.truncate (records ! k) = parseEvaluation env (Suc k) (outs ! k)"
proof -
  from assms(1,2) have len: "length records = n"
    by (metis length_map length_zip length_upt diff_Suc_1 min.idem)
  with assms(3) have "evaluationResult.truncate (records ! k) =
      map evaluationResult.truncate records ! k"
    by simp
  also have "\<dots> = parseEvaluation env ([1..<Suc n] ! k) (outs ! k)"
    unfolding assms(1) using assms(2,3) by (simp del: upt_Suc)
  also have "[1..<Suc n] ! k = Suc k"
    using assms(3) by (simp del: upt_Suc)
  finally show ?thesis .
qed

lemma truncate_fields:
  "feasibilityScore (evaluationResult.truncate r) = feasibilityScore r"
  "rationale (evaluationResult.truncate r) = rationale r"
  "keyFactors (evaluationResult.truncate r) = keyFactors r"
  "iteration (evaluationResult.truncate r) = iteration r"
  by (simp_all add: evaluationResult.defs)

lemma run_aborts_without_expert:
  assumes fin: "cfgs finalAgentId = Some finalAgentConfig"
    and e1: "cfgs ''expert_1'' = Some agentConfig"
    and e2: "cfgs ''expert_2'' = None"
    and c: "expertEntriesComplete m"
    and n: "0 < iterations fc"
  shows "\<exists>st' call.
           runDiscussionAndDecision env fc ctx cfgs m gse st =
             (Inl (TypeError (cannotReadMessage env None ''systemInstruction'')), st') \<and>
           calls st' = calls st @ [call] \<and> participant call = ''expert_1''"
proof -
  have "''expert_1'' \<in> set expertAgentIds"
    by (simp add: expertAgentIds_def)
  from expertTurn_ok [where cfgs = cfgs and e = "''expert_1''" and env = env and fc = fc and
      ctx = ctx and gse = gse and h = "[]" and st = st, OF e1 this c]
  obtain h1 m1 st1 call where
    t1: "expertTurn env fc ctx cfgs gse ''expert_1'' [] m st = (Inr (h1, m1), st1)"
    and call: "calls st1 = calls st @ [call]" "participant call = ''expert_1''"
    by blast
  have t2: "expertTurn env fc ctx cfgs gse ''expert_2'' h1 m1 st1 =
            (Inl (TypeError (cannotReadMessage env None ''systemInstruction'')), st1)"
    using e2 by (simp add: expertTurn_def)
  have "expertsLoop env fc ctx cfgs gse expertAgentIds [] m st =
        (Inl (TypeError (cannotReadMessage env None ''systemInstruction'')), st1)"
    using t1 t2 by (simp add: expertAgentIds_def)
  then have "turnsLoop env fc ctx cfgs gse 0 [] m st =
        (Inl (TypeError (cannotReadMessage env None ''systemInstruction'')), st1)"
    by (subst turnsLoop.simps) (simp add: discussionTurns_def)
  then have "runSingleIteration env fc ctx cfgs m gse 1 st =
        (Inl (TypeError (cannotReadMessage env None ''systemInstruction'')), st1)"
    by (simp add: runSingleIteration_def)
  then have "iterationsLoop env fc ctx cfgs gse (iterations fc) 1 [] m st =
        (Inl (TypeError (cannotReadMessage env None ''systemInstruction'')), st1)"
    using n by (subst iterationsLoop.simps) simp
  then have "runDiscussionAndDecision env fc ctx cfgs m gse st =
        (Inl (TypeError (cannotReadMessage env None ''systemInstruction'')), st1)"
    using fin by (simp add: runDiscussionAndDecision_def)
  with call show ?thesis
    by blast
qed

text \<open>
  C2, as stated, fails: with two iterations configured and no configuration of
  \<open>expert_2\<close>, the run makes the call of \<open>expert_1\<close>, throws at the read of
  \<open>agentConfig.systemInstruction\<close> (line 229) and yields no record.
\<close>

theorem unconfigured_expert_aborts_run:
  "fst (runDiscussionAndDecision (testEnv (Response ''not json'' None) rejectAll)
          (testFramework 2) ''context'' (testConfigs(''expert_2'' := None)) emptyMetrics False
          testState) =
     Inl (TypeError ''Cannot read properties'') \<and>
   map participant
     (calls (snd (runDiscussionAndDecision (testEnv (Response ''not json'' None) rejectAll)
                    (testFramework 2) ''context'' (testConfigs(''expert_2'' := None))
                    emptyMetrics False testState))) =
     [''expert_1'']"
proof -
  have fin: "(testConfigs(''expert_2'' := None)) finalAgentId = Some (testConfig ''Scorer'')"
    by (simp add: testConfigs_def finalAgentId_def)
  have e1: "(testConfigs(''expert_2'' := None)) ''expert_1'' =
            Some (testConfig ''Expert: Finance'')"
    by (simp add: testConfigs_def)
  have e2: "(testConfigs(''expert_2'' := None)) ''expert_2'' = None"
    by simp
  have n: "0 < iterations (testFramework 2)"
    by (simp add: testFramework_def)
  have msg: "cannotReadMessage (testEnv (Response ''not json'' None) rejectAll) None
               ''systemInstruction'' = ''Cannot read properties''"
    by (simp add: testEnv_def)
  from run_aborts_without_expert [where cfgs = "testConfigs(''expert_2'' := None)" and
      env = "testEnv (Response ''not json'' None) rejectAll" and ctx = "''context''" and
      gse = False and st = testState, OF fin e1 e2 emptyMetrics_complete n]
  obtain st' call where
    "runDiscussionAndDecision (testEnv (Response ''not json'' None) rejectAll)
       (testFramework 2) ''context'' (testConfigs(''expert_2'' := None)) emptyMetrics False
       testState = (Inl (TypeError ''Cannot read properties''), st')"
    "calls st' = calls testState @ [call]" "participant call = ''expert_1''"
    unfolding msg by blast
  then show ?thesis
    by (simp add: testState_def)
qed

text \<open>
  C2, amended. With the three experts and the scorer configured, and with metrics in which
  every entry of an expert holds a search usage record (as the metrics of both callers
  do), a run of \<open>N\<close> iterations returns exactly \<open>N\<close> records and made exactly \<open>N\<close> scoring
  calls; whenever the output of the scoring call of an iteration fails to parse, the
  record of that iteration has the score 50, the rationale
  \<open>Evaluation <i> failed to parse: <message>\<close> and the key factors
  \<open>["Parsing error occurred"]\<close>, and the run does not fail; so when every scoring output
  fails to parse, every record has the score 50.
\<close>

theorem run_yields_all_records:
  assumes cfg: "configured configsForRun" and c: "expertEntriesComplete metrics"
  shows "\<exists>outcome st'.
           runDiscussionAndDecision env frameworkConfig context configsForRun metrics
             googleSearchEnabled st = (Inr outcome, st') \<and>
           length (independentEvaluations outcome) = iterations frameworkConfig \<and>
           length (scoringOutputs (newCalls st st')) = iterations frameworkConfig \<and>
           (\<forall>k < iterations frameworkConfig. \<forall>msg.
              JSON_parse env (scoringOutputs (newCalls st st') ! k) = Inl msg \<longrightarrow>
              iteration (independentEvaluations outcome ! k) = Suc k \<and>
              feasibilityScore (independentEvaluations outcome ! k) = Some (JNum 50) \<and>
              rationale (independentEvaluations outcome ! k) =
                Some (JStr (''Evaluation '' @ decimal (Suc k) @ '' failed to parse: '' @ msg)) \<and>
              keyFactors (independentEvaluations outcome ! k) =
                Some (JArr [JStr ''Parsing error occurred''])) \<and>
           ((\<forall>k < iterations frameworkConfig.
               isl (JSON_parse env (scoringOutputs (newCalls st st') ! k))) \<longrightarrow>
            (\<forall>r \<in> set (independentEvaluations outcome). feasibilityScore r = Some (JNum 50)))"
proof -
  obtain outcome st' where
    run: "runDiscussionAndDecision env frameworkConfig context configsForRun metrics
            googleSearchEnabled st = (Inr outcome, st')"
    and len: "length (scoringOutputs (newCalls st st')) = iterations frameworkConfig"
    and recs: "map evaluationResult.truncate (independentEvaluations outcome) =
                 map2 (parseEvaluation env) [1..<Suc (iterations frameworkConfig)]
                   (scoringOutputs (newCalls st st'))"
    using run_records [OF cfg c] by blast
  define records where "records = independentEvaluations outcome"
  define outs where "outs = scoringOutputs (newCalls st st')"
  note nth = nth_records [OF recs len, folded records_def outs_def]
  have length: "length records = iterations frameworkConfig"
    using recs len unfolding records_def
    by (metis length_map length_zip length_upt diff_Suc_1 min.idem)
  have failed: "iteration (records ! k) = Suc k \<and>
        feasibilityScore (records ! k) = Some (JNum 50) \<and>
        rationale (records ! k) =
          Some (JStr (''Evaluation '' @ decimal (Suc k) @ '' failed to parse: '' @ msg)) \<and>
        keyFactors (records ! k) = Some (JArr [JStr ''Parsing error occurred''])"
    if k: "k < iterations frameworkConfig" and msg: "JSON_parse env (outs ! k) = Inl msg"
    for k msg
  proof -
    have "evaluationResult.truncate (records ! k) = parseFailure (Suc k) msg"
      using nth [OF k] parseEvaluation_failure [OF msg] by simp
    then have "iteration (evaluationResult.truncate (records ! k)) = Suc k"
      "feasibilityScore (evaluationResult.truncate (records ! k)) = Some (JNum 50)"
      "rationale (evaluationResult.truncate (records ! k)) =
         Some (JStr (''Evaluation '' @ decimal (Suc k) @ '' failed to parse: '' @ msg))"
      "keyFactors (evaluationResult.truncate (records ! k)) =
         Some (JArr [JStr ''Parsing error occurred''])"
      by (simp_all add: parseFailure_def)
    then show ?thesis
      by (simp only: truncate_fields simp_thms)
  qed
  have all: "\<forall>r \<in> set records. feasibilityScore r = Some (JNum 50)"
    if every: "\<forall>k < iterations frameworkConfig. isl (JSON_parse env (outs ! k))"
  proof
    fix r assume "r \<in> set records"
    then obtain k where k: "k < iterations frameworkConfig" and r: "r = records ! k"
      using length by (metis in_set_conv_nth)
    from every k obtain msg where "JSON_parse env (outs ! k) = Inl msg"
      by (cases "JSON_parse env (outs ! k)") auto
    from failed [OF k this] r show "feasibilityScore r = Some (JNum 50)"
      by simp
  qed
  from run length len failed all show ?thesis
    unfolding records_def outs_def by blast
qed

theorem run_yields_all_records_witness:
  "configured testConfigs \<and> expertEntriesComplete emptyMetrics \<and>
   (\<exists>outcome st'.
      runDiscussionAndDecision (testEnv (Response ''not json'' None) rejectAll)
        (testFramework 2) ''context'' testConfigs emptyMetrics False testState =
        (Inr outcome, st') \<and>
      map feasibilityScore (independentEvaluations outcome) = [Some (JNum 50), Some (JNum 50)])"
proof -
  from run_yields_all_records [OF testConfigs_configured emptyMetrics_complete,
      of "testEnv (Response ''not json'' None) rejectAll" "testFramework 2" "''context''" False
        testState]
  obtain outcome st' where
    run: "runDiscussionAndDecision (testEnv (Response ''not json'' None) rejectAll)
            (testFramework 2) ''context'' testConfigs emptyMetrics False testState =
          (Inr outcome, st')"
    and len: "length (independentEvaluations outcome) = 2"
    and all: "\<forall>r \<in> set (independentEvaluations outcome). feasibilityScore r = Some (JNum 50)"
    by (auto simp: testFramework_def testEnv_def rejectAll_def)
  from len obtain a b where "independentEvaluations outcome = [a, b]"
    by (auto simp: length_Suc_conv numeral_2_eq_2)
  with all have "map feasibilityScore (independentEvaluations outcome) =
      [Some (JNum 50), Some (JNum 50)]"
    by simp
  with run testConfigs_configured emptyMetrics_complete show ?thesis
    by simp
qed

text \<open>
  C5, as stated, fails: a scoring output that parses to an object with
  \<open>feasibilityScore\<close> 150 is stored with the score 150.
\<close>

theorem over_range_score_stored:
  "feasibilityScore
     (fst (snd (projr (fst
        (runSingleIteration (testEnv (Response overRangeText None) parseOverRange)
           (testFramework 1) ''context'' testConfigs emptyMetrics False 1 testState))))) =
   Some (JNum 150)"
proof -
  obtain h ev m' st' where
    run: "runSingleIteration (testEnv (Response overRangeText None) parseOverRange)
            (testFramework 1) ''context'' testConfigs emptyMetrics False 1 testState =
          (Inr (h, ev, m'), st')"
    using runSingleIteration_ok [OF testConfigs_configured emptyMetrics_complete] by blast
  from runSingleIteration_evaluation [OF run] testEnv_returns [OF run]
  have "ev = parseEvaluation (testEnv (Response overRangeText None) parseOverRange) 1
               overRangeText"
    by simp
  then have "feasibilityScore ev = Some (JNum 150)"
    by (simp add: parseEvaluation_def testEnv_def parseOverRange_def convertibleValue_def)
  with run show ?thesis
    by simp
qed

text \<open>
  C5, amended. For every iteration record of a run, \<open>feasibilityScore\<close> is 50 when the
  scoring output fails to parse, parses to \<open>null\<close>, or parses to a value whose
  \<open>feasibilityScore\<close> cannot be converted to a string; otherwise it is the
  \<open>feasibilityScore\<close> property of the parsed value as it is (\<open>undefined\<close> when absent). No
  range check is applied.
\<close>

theorem score_parsed_or_neutral:
  assumes cfg: "configured configsForRun" and c: "expertEntriesComplete metrics"
  shows "\<exists>outcome st'.
           runDiscussionAndDecision env frameworkConfig context configsForRun metrics
             googleSearchEnabled st = (Inr outcome, st') \<and>
           length (independentEvaluations outcome) = iterations frameworkConfig \<and>
           length (scoringOutputs (newCalls st st')) = iterations frameworkConfig \<and>
           (\<forall>k < iterations frameworkConfig.
              feasibilityScore (independentEvaluations outcome ! k) =
                (case JSON_parse env (scoringOutputs (newCalls st st') ! k) of
                   Inl msg \<Rightarrow> Some (JNum 50)
                 | Inr parsedEval \<Rightarrow>
                     if parsedEval = JNull \<or>
                        \<not> convertibleValue (property parsedEval ''feasibilityScore'')
                     then Some (JNum 50)
                     else property parsedEval ''feasibilityScore''))"
proof -
  obtain outcome st' where
    run: "runDiscussionAndDecision env frameworkConfig context configsForRun metrics
            googleSearchEnabled st = (Inr outcome, st')"
    and len: "length (scoringOutputs (newCalls st st')) = iterations frameworkConfig"
    and recs: "map evaluationResult.truncate (independentEvaluations outcome) =
                 map2 (parseEvaluation env) [1..<Suc (iterations frameworkConfig)]
                   (scoringOutputs (newCalls st st'))"
    using run_records [OF cfg c] by blast
  have length: "length (independentEvaluations outcome) = iterations frameworkConfig"
    using recs len
    by (metis length_map length_zip length_upt diff_Suc_1 min.idem)
  have "feasibilityScore (independentEvaluations outcome ! k) =
          (case JSON_parse env (scoringOutputs (newCalls st st') ! k) of
             Inl msg \<Rightarrow> Some (JNum 50)
           | Inr parsedEval \<Rightarrow>
               if parsedEval = JNull \<or>
                  \<not> convertibleValue (property parsedEval ''feasibilityScore'')
               then Some (JNum 50)
               else property parsedEval ''feasibilityScore'')"
    if k: "k < iterations frameworkConfig" for k
  proof -
    have "feasibilityScore (evaluationResult.truncate (independentEvaluations outcome ! k)) =
          feasibilityScore (parseEvaluation env (Suc k) (scoringOutputs (newCalls st st') ! k))"
      using nth_records [OF recs len k] by simp
    then show ?thesis
      by (simp add: truncate_fields parseEvaluation_def parseFailure_def split: sum.split)
  qed
  with run length len show ?thesis
    by blast
qed

theorem score_parsed_or_neutral_witness:
  "configured testConfigs \<and> expertEntriesComplete emptyMetrics \<and>
   (\<exists>outcome st'.
      runDiscussionAndDecision (testEnv (Response overRangeText None) parseOverRange)
        (testFramework 1) ''context'' testConfigs emptyMetrics False testState =
        (Inr outcome, st') \<and>
      length (independentEvaluations outcome) = 1)"
proof -
  from score_parsed_or_neutral [OF testConfigs_configured emptyMetrics_complete,
      of "testEnv (Response overRangeText None) parseOverRange" "testFramework 1" "''context''"
        False testState]
  obtain outcome st' where
    "runDiscussionAndDecision (testEnv (Response overRangeText None) parseOverRange)
       (testFramework 1) ''context'' testConfigs emptyMetrics False testState =
     (Inr outcome, st')"
    "length (independentEvaluations outcome) = 1"
    by (auto simp: testFramework_def)
  with testConfigs_configured emptyMetrics_complete show ?thesis
    by simp
qed

section \<open>The search restriction\<close>

lemma other_roles:
  "\<not> isExpertRole classificationAgentId" "\<not> isExpertRole summarizeAgentId"
  "\<not> isExpertRole trackerAgentId"
  by (simp_all add: isExpertRole_def startsWith_def classificationAgentId_def
      summarizeAgentId_def trackerAgentId_def)

lemma expert_roles: "\<forall>e \<in> set expertAgentIds. isExpertRole e"
  by (simp add: isExpertRole_def startsWith_def expertAgentIds_def)

lemma runAgent_without_search:
  assumes "\<not> isExpertRole a"
  shows "\<exists>c. calls (snd (runAgent env a (Some cfgs) dp False sd tp st)) = calls st @ [c] \<and>
           participant c = a \<and> searchRule env cfgs gse c"
proof -
  obtain c where c: "calls (snd (runAgent env a (Some cfgs) dp False sd tp st)) = calls st @ [c]"
    "participant c = a"
    "searchAttached c \<longleftrightarrow> False \<and> GEMINI_API_KEY env \<and> cfgs a \<noteq> None"
    using runAgent_calls by blast
  have "\<forall>r \<in> set (sent c). withSearch r \<longleftrightarrow> False"
    using c(1) by (rule runAgent_sent)
  with assms c show ?thesis
    by (simp add: searchRule_def)
qed

lemma summarize_calls:
  "\<exists>new. calls (snd (summarize env fc cfgs content st)) = calls st @ new \<and>
         list_all (searchRule env cfgs gse) new"
proof (cases "cfgs summarizeAgentId")
  case None
  then show ?thesis
    by (simp add: summarize_def)
next
  case (Some summarizeConfig)
  define r where
    "r = runAgent env summarizeAgentId (Some cfgs)
           (Some (truncatePromptIfNeeded
                    (String_replace env (prompt summarizeConfig) ''{url_content}'' content)
                    MAX_CONTEXT_TOKENS))
           False (frameworkSeed fc) (frameworkTemperature fc) st"
  obtain c where "calls (snd r) = calls st @ [c]" "searchRule env cfgs gse c"
    unfolding r_def using runAgent_without_search [OF other_roles(2)] by blast
  moreover have "snd (summarize env fc cfgs content st) = snd r"
    using Some by (simp add: summarize_def r_def split: prod.split)
  ultimately show ?thesis
    by simp
qed

lemma summaryPhase_calls:
  "\<exists>new. calls (snd (summaryPhase env fc cfgs proposal st)) = calls st @ new \<and>
         list_all (searchRule env cfgs gse) new"
proof -
  have direct: "\<exists>new. calls (snd (case summarize env fc cfgs content st0 of
                    (Inl (TypeError errorMessage), st') \<Rightarrow> ((failure errorMessage, zeroMetrics), st')
                  | (Inr summaryResult, st') \<Rightarrow> (summaryResult, st'))) = calls st @ new \<and>
         list_all (searchRule env cfgs gse) new"
    if "calls st0 = calls st" for content st0 and failure :: "string \<Rightarrow> string"
  proof -
    obtain new where "calls (snd (summarize env fc cfgs content st0)) = calls st0 @ new"
      "list_all (searchRule env cfgs gse) new"
      using summarize_calls by blast
    with that show ?thesis
      by (auto split: prod.split sum.split thrown.split)
  qed
  show ?thesis
  proof (cases "url proposal \<noteq> [] \<and> trim (url proposal) \<noteq> []")
    case False
    then show ?thesis
      using direct [where ?st0.0 = st and content = "proposal_info proposal"
          and failure = plainTextFailure]
      by (auto simp: summaryPhase_def)
  next
    case True
    obtain outcome w where f: "fetch env (''https://r.jina.ai/'' @ url proposal) (world st) = (outcome, w)"
      by (cases "fetch env (''https://r.jina.ai/'' @ url proposal) (world st)")
    show ?thesis
    proof (cases outcome)
      case (FetchRejected errorMessage)
      with True f show ?thesis
        by (simp add: summaryPhase_def)
    next
      case (FetchResponse ok status body)
      show ?thesis
      proof (cases "ok \<and> \<not> isl body")
        case False
        with True f FetchResponse show ?thesis
          by (cases body) (auto simp: summaryPhase_def)
      next
        case ok: True
        then obtain urlContent where body: "body = Inr urlContent"
          by (cases body) auto
        have "calls (st\<lparr>world := w\<rparr>) = calls st"
          by simp
        from direct [OF this, where content = urlContent and failure = urlFailure]
          True f FetchResponse ok body
        show ?thesis
          by (simp add: summaryPhase_def)
      qed
    qed
  qed
qed

lemma trackerPhase_calls:
  "\<exists>new. calls (snd (trackerPhase env fc cfgs metrics st)) = calls st @ new \<and>
         list_all (searchRule env cfgs gse) new"
proof (cases "cfgs trackerAgentId")
  case None
  then show ?thesis
    by (simp add: trackerPhase_def)
next
  case (Some trackerConfig)
  define r where
    "r = runAgent env trackerAgentId (Some cfgs)
           (Some (truncatePromptIfNeeded
                    (String_replace env (prompt trackerConfig) ''{execution_data}''
                       (stringifyMetrics env metrics))
                    MAX_CONTEXT_TOKENS))
           False (frameworkSeed fc) (frameworkTemperature fc) st"
  obtain c where "calls (snd r) = calls st @ [c]" "searchRule env cfgs gse c"
    unfolding r_def using runAgent_without_search [OF other_roles(3)] by blast
  moreover have "snd (trackerPhase env fc cfgs metrics st) = snd r"
    using Some by (simp add: trackerPhase_def r_def split: prod.split)
  ultimately show ?thesis
    by simp
qed

lemma runDiscussionAndDecision_calls:
  "\<exists>new. calls (snd (runDiscussionAndDecision env fc ctx cfgs m gse st)) = calls st @ new \<and>
         list_all (searchRule env cfgs gse) new"
proof (cases "cfgs finalAgentId")
  case None
  then show ?thesis
    by (simp add: runDiscussionAndDecision_def)
next
  case (Some finalAgentConfig)
  obtain new where
    "calls (snd (iterationsLoop env fc ctx cfgs gse (iterations fc) 1 [] m st)) = calls st @ new"
    "list_all (searchRule env cfgs gse) new"
    using iterationsLoop_calls by blast
  moreover have "snd (runDiscussionAndDecision env fc ctx cfgs m gse st) =
      snd (iterationsLoop env fc ctx cfgs gse (iterations fc) 1 [] m st)"
    using Some by (simp add: runDiscussionAndDecision_def split: prod.split sum.split)
  ultimately show ?thesis
    by simp
qed

lemma handleRestartDiscussion_calls:
  "\<exists>new. calls (snd (handleRestartDiscussion env fc ctx (Some cfgs) gse st)) = calls st @ new \<and>
         list_all (searchRule env cfgs gse) new"
proof (cases "ctx = []")
  case True
  then show ?thesis
    by (simp add: handleRestartDiscussion_def)
next
  case False
  obtain new where
    "calls (snd (runDiscussionAndDecision env fc ctx cfgs emptyMetrics gse st)) = calls st @ new"
    "list_all (searchRule env cfgs gse) new"
    using runDiscussionAndDecision_calls by blast
  moreover have "snd (handleRestartDiscussion env fc ctx (Some cfgs) gse st) =
      snd (runDiscussionAndDecision env fc ctx cfgs emptyMetrics gse st)"
    using False by (simp add: handleRestartDiscussion_def split: prod.split sum.split)
  ultimately show ?thesis
    by simp
qed

lemma runSimulation_calls:
  "\<exists>new. calls (snd (runSimulation env fc (Some cfgs) proposal gse st)) = calls st @ new \<and>
         list_all (searchRule env cfgs gse) new \<and>
         (cfgs classificationAgentId \<noteq> None \<and> cfgs summarizeAgentId \<noteq> None \<and>
          cfgs finalAgentId \<noteq> None \<longrightarrow>
          new \<noteq> [] \<and> participant (hd new) = classificationAgentId)"
proof (cases "cfgs classificationAgentId = None \<or> cfgs summarizeAgentId = None \<or>
              cfgs finalAgentId = None")
  case True
  then show ?thesis
    by (auto simp: runSimulation_def)
next
  case False
  then obtain classificationConfig summarizeConfig finalAgentConfig where
    cls: "cfgs classificationAgentId = Some classificationConfig"
    and others: "cfgs summarizeAgentId = Some summarizeConfig"
      "cfgs finalAgentId = Some finalAgentConfig"
    by auto
  obtain startTime w0 where t0: "performance_now env (world st) = (startTime, w0)"
    by (cases "performance_now env (world st)")
  define r1 where
    "r1 = runAgent env classificationAgentId (Some cfgs)
            (Some (truncatePromptIfNeeded
                     (String_replace env (prompt classificationConfig) ''{proposal_info}''
                        (proposal_info proposal))
                     MAX_CONTEXT_TOKENS))
            False (frameworkSeed fc) (frameworkTemperature fc) (st\<lparr>world := w0\<rparr>)"
  obtain classContent classMetrics st1 where r1: "r1 = ((classContent, classMetrics), st1)"
    by (metis surj_pair)
  obtain c1 where "calls (snd r1) = calls (st\<lparr>world := w0\<rparr>) @ [c1]"
    "participant c1 = classificationAgentId" "searchRule env cfgs gse c1"
    unfolding r1_def using runAgent_without_search [OF other_roles(1)] by blast
  with r1 have c1: "calls st1 = calls st @ [c1]" "participant c1 = classificationAgentId"
    "searchRule env cfgs gse c1"
    by simp_all
  obtain summaryText summaryMetrics st2 where
    s2: "summaryPhase env fc cfgs proposal st1 = ((summaryText, summaryMetrics), st2)"
    by (metis surj_pair)
  obtain n2 where n2: "calls st2 = calls st1 @ n2" "list_all (searchRule env cfgs gse) n2"
    using summaryPhase_calls [of env fc cfgs proposal st1 gse] s2 by auto
  define d where
    "d = runDiscussionAndDecision env fc
           (fullContext env proposal classContent summaryText) cfgs
           (initialMetrics classMetrics summaryMetrics) gse st2"
  obtain res st3 where d: "d = (res, st3)"
    by (cases d)
  obtain n3 where n3: "calls st3 = calls st2 @ n3" "list_all (searchRule env cfgs gse) n3"
    using runDiscussionAndDecision_calls
      [of env fc "fullContext env proposal classContent summaryText" cfgs
        "initialMetrics classMetrics summaryMetrics" gse st2] d
    unfolding d_def by auto
  show ?thesis
  proof (cases res)
    case (Inl err)
    have "snd (runSimulation env fc (Some cfgs) proposal gse st) = st3"
      using cls others t0 r1 s2 d Inl
      by (simp add: runSimulation_def r1_def [symmetric] d_def [symmetric])
    moreover have "calls st3 = calls st @ (c1 # n2 @ n3)"
      using c1(1) n2(1) n3(1) by simp
    moreover have "list_all (searchRule env cfgs gse) (c1 # n2 @ n3)"
      using c1(3) n2(2) n3(2) by simp
    ultimately show ?thesis
      using c1(2) by (intro exI [of _ "c1 # n2 @ n3"]) simp
  next
    case (Inr outcome)
    obtain endTime w4 where t4: "performance_now env (world st3) = (endTime, w4)"
      by (cases "performance_now env (world st3)")
    define k where
      "k = trackerPhase env fc cfgs ((finalMetrics outcome)\<lparr>totalDuration := endTime - startTime\<rparr>)
             (st3\<lparr>world := w4\<rparr>)"
    obtain tracking st5 where k: "k = (tracking, st5)"
      by (cases k)
    obtain n5 where n5: "calls st5 = calls st3 @ n5" "list_all (searchRule env cfgs gse) n5"
      using trackerPhase_calls
        [of env fc cfgs "(finalMetrics outcome)\<lparr>totalDuration := endTime - startTime\<rparr>"
          "st3\<lparr>world := w4\<rparr>" gse] k
      unfolding k_def by auto
    have "snd (runSimulation env fc (Some cfgs) proposal gse st) = st5"
      using cls others t0 r1 s2 d Inr t4 k
      by (simp add: runSimulation_def r1_def [symmetric] d_def [symmetric] k_def [symmetric])
    moreover have "calls st5 = calls st @ (c1 # n2 @ n3 @ n5)"
      using c1(1) n2(1) n3(1) n5(1) by simp
    moreover have "list_all (searchRule env cfgs gse) (c1 # n2 @ n3 @ n5)"
      using c1(3) n2(2) n3(2) n5(2) by simp
    ultimately show ?thesis
      using c1(2) by (intro exI [of _ "c1 # n2 @ n3 @ n5"]) simp
  qed
qed

lemma update_agent_role: "\<not> isExpertRole promptUpdateAgentId"
  by (simp add: isExpertRole_def startsWith_def promptUpdateAgentId_def)

lemma askExpert_calls:
  "\<exists>new. calls (snd (askExpert env fc cfgs gse ctx q e st)) = calls st @ new \<and>
         list_all (searchRule env cfgs gse) new"
proof (cases "cfgs e")
  case None
  then show ?thesis
    by (simp add: askExpert_def)
next
  case (Some agentConfig)
  define dp where
    "dp = truncatePromptIfNeeded (questionPrompt ctx q agentConfig) MAX_CONTEXT_TOKENS"
  define flag where "flag = (gse \<and> startsWith e ''expert_'')"
  define r where
    "r = runAgent env e (Some cfgs) (Some dp) flag (frameworkSeed fc) (frameworkTemperature fc) st"
  have st': "snd (askExpert env fc cfgs gse ctx q e st) = snd r"
    using Some
    by (simp add: askExpert_def Let_def r_def dp_def flag_def split: prod.split)
  obtain c where c: "calls (snd r) = calls st @ [c]" "participant c = e"
    "searchAttached c \<longleftrightarrow> flag \<and> GEMINI_API_KEY env \<and> cfgs e \<noteq> None"
    unfolding r_def using runAgent_calls by blast
  have "\<forall>r \<in> set (sent c). withSearch r \<longleftrightarrow> flag"
    using c(1) unfolding r_def by (rule runAgent_sent)
  with c show ?thesis
    unfolding st' by (auto simp: searchRule_def isExpertRole_def flag_def)
qed

lemma askExperts_calls:
  "\<exists>new. calls (snd (askExperts env fc cfgs gse ctx q ids st)) = calls st @ new \<and>
         list_all (searchRule env cfgs gse) new"
proof (induction ids arbitrary: st)
  case Nil
  show ?case by simp
next
  case (Cons e ids)
  obtain result st1 where a: "askExpert env fc cfgs gse ctx q e st = (result, st1)"
    by (cases "askExpert env fc cfgs gse ctx q e st")
  obtain n1 where n1: "calls st1 = calls st @ n1" "list_all (searchRule env cfgs gse) n1"
    using askExpert_calls [of env fc cfgs gse ctx q e st] a by auto
  obtain n2 where n2: "calls (snd (askExperts env fc cfgs gse ctx q ids st1)) = calls st1 @ n2"
    "list_all (searchRule env cfgs gse) n2"
    using Cons.IH by blast
  have "snd (askExperts env fc cfgs gse ctx q (e # ids) st) =
        snd (askExperts env fc cfgs gse ctx q ids st1)"
    using a by (simp split: prod.split)
  then have "calls (snd (askExperts env fc cfgs gse ctx q (e # ids) st)) = calls st @ n1 @ n2"
    using n1(1) n2(1) by simp
  moreover have "list_all (searchRule env cfgs gse) (n1 @ n2)"
    using n1(2) n2(2) by simp
  ultimately show ?case by blast
qed

lemma updateLoop_calls:
  "\<exists>new. calls (snd (updateLoop env fc cfgs q responses messages updates st)) = calls st @ new \<and>
         list_all (searchRule env cfgs gse) new"
proof (induction responses arbitrary: messages updates st)
  case Nil
  show ?case by simp
next
  case (Cons r responses)
  show ?case
  proof (cases "cfgs promptUpdateAgentId")
    case None
    then show ?thesis by simp
  next
    case upd: (Some updateAgentConfig)
    show ?thesis
    proof (cases "cfgs (responseId r)")
      case None
      with upd show ?thesis by simp
    next
      case (Some expertConfig)
      define dp where
        "dp = truncatePromptIfNeeded
                (String_replace env
                   (String_replace env
                      (String_replace env (prompt updateAgentConfig) ''{expert_instruction}''
                         (case systemInstruction expertConfig of Some s \<Rightarrow> s | None \<Rightarrow> []))
                      ''{user_question}'' q)
                   ''{expert_response}'' (response r))
                MAX_CONTEXT_TOKENS"
      define a where
        "a = runAgent env promptUpdateAgentId (Some cfgs) (Some dp) False (frameworkSeed fc)
               (frameworkTemperature fc) st"
      obtain updateResultStr updateMetrics st1 where a: "a = ((updateResultStr, updateMetrics), st1)"
        by (metis surj_pair)
      obtain c where "calls (snd a) = calls st @ [c]" "searchRule env cfgs gse c"
        unfolding a_def using runAgent_without_search [OF update_agent_role] by blast
      with a have c: "calls st1 = calls st @ [c]" "searchRule env cfgs gse c"
        by simp_all
      have "\<exists>messages' updates'.
              snd (updateLoop env fc cfgs q (r # responses) messages updates st) =
              snd (updateLoop env fc cfgs q responses messages' updates' st1)"
        using upd Some a
        by (cases "proposedInstruction env updateResultStr")
          (auto simp: Let_def a_def [symmetric] dp_def [symmetric])
      then obtain messages' updates' where
        step: "snd (updateLoop env fc cfgs q (r # responses) messages updates st) =
               snd (updateLoop env fc cfgs q responses messages' updates' st1)"
        by blast
      obtain n2 where n2:
        "calls (snd (updateLoop env fc cfgs q responses messages' updates' st1)) = calls st1 @ n2"
        "list_all (searchRule env cfgs gse) n2"
        using Cons.IH by blast
      have "calls (snd (updateLoop env fc cfgs q (r # responses) messages updates st)) =
            calls st @ (c # n2)"
        unfolding step using c(1) n2(1) by simp
      moreover have "list_all (searchRule env cfgs gse) (c # n2)"
        using c(2) n2(2) by simp
      ultimately show ?thesis by blast
    qed
  qed
qed

lemma handleAskQuestion_calls:
  "\<exists>new. calls (snd (handleAskQuestion env fc (Some cfgs) proposal shown outputs discussion
                        history gse q st)) = calls st @ new \<and>
         list_all (searchRule env cfgs gse) new"
proof (cases proposal)
  case None
  then show ?thesis
    by (simp add: handleAskQuestion_def)
next
  case p: (Some theProposal)
  show ?thesis
  proof (cases shown)
    case None
    with p show ?thesis
      by (simp add: handleAskQuestion_def)
  next
    case d: (Some theDecision)
    show ?thesis
    proof (cases "outputContent theDecision = [] \<or>
                  startsWith (outputContent theDecision) ''Error:''")
      case True
      with p d show ?thesis
        by (simp add: handleAskQuestion_def)
    next
      case False
      define ctx where
        "ctx = buildContext env theProposal outputs discussion theDecision history"
      obtain results st1 where a: "askExperts env fc cfgs gse ctx q expertIds st = (results, st1)"
        by (cases "askExperts env fc cfgs gse ctx q expertIds st")
      obtain n1 where n1: "calls st1 = calls st @ n1" "list_all (searchRule env cfgs gse) n1"
        using askExperts_calls [of env fc cfgs gse ctx q expertIds st] a by auto
      show ?thesis
      proof (cases "promiseAll results")
        case (Inl e)
        have "snd (handleAskQuestion env fc (Some cfgs) proposal shown outputs discussion
                     history gse q st) = st1"
          using p d False a Inl
          by (simp add: handleAskQuestion_def Let_def ctx_def [symmetric])
        with n1 show ?thesis by simp
      next
        case (Inr expertResponses)
        define messages where
          "messages =
             UserChat \<lparr>messageType = UserMessage, agentId = ''user'', agentName = ''You'',
                       message = q\<rparr> # map expertMessage expertResponses"
        obtain n2 where n2:
          "calls (snd (updateLoop env fc cfgs q expertResponses messages [] st1)) =
           calls st1 @ n2"
          "list_all (searchRule env cfgs gse) n2"
          using updateLoop_calls by blast
        have "snd (handleAskQuestion env fc (Some cfgs) proposal shown outputs discussion
                     history gse q st) =
              snd (updateLoop env fc cfgs q expertResponses messages [] st1)"
          using p d False a Inr
          by (simp add: handleAskQuestion_def Let_def ctx_def [symmetric] messages_def
              split: prod.split)
        then have "calls (snd (handleAskQuestion env fc (Some cfgs) proposal shown outputs
                                 discussion history gse q st)) = calls st @ n1 @ n2"
          using n1(1) n2(1) by simp
        moreover have "list_all (searchRule env cfgs gse) (n1 @ n2)"
          using n1(2) n2(2) by simp
        ultimately show ?thesis by blast
      qed
    qed
  qed
qed

lemma formatSummary_requests:
  "\<exists>new. requests (snd (formatSummary env fc cfgs summaryData st)) = requests st @ new \<and>
         list_all (\<lambda>r. \<not> withSearch r) new"
proof (cases "cfgs formatterAgentId")
  case None
  then show ?thesis
    by (simp add: formatSummary_def)
next
  case (Some formatterConfig)
  define args where
    "args = AgentConfig.extend
              (formatterConfig
                 \<lparr>prompt := String_replace env (prompt formatterConfig) ''{json_content}''
                              (JSON_stringify env summaryData)\<rparr>)
              (RunAgentQueryArgs.fields False (frameworkSeed fc) (frameworkTemperature fc))"
  have "snd (formatSummary env fc cfgs summaryData st) = snd (runAgentQuery env args st)"
    using Some by (simp add: formatSummary_def Let_def args_def split: prod.split)
  moreover have "\<not> useGoogleSearch args"
    by (simp add: args_def AgentConfig.defs RunAgentQueryArgs.defs)
  ultimately show ?thesis
    by (simp add: runAgentQuery_requests withSearch_requestParams)
qed

lemma accounted_refl [simp]: "accounted st st"
  by (simp add: accounted_def)

lemma accounted_trans: "accounted st st1 \<Longrightarrow> accounted st1 st2 \<Longrightarrow> accounted st st2"
  by (fastforce simp: accounted_def)

lemma accounted_world [simp]:
  "accounted (st\<lparr>world := w\<rparr>) st' = accounted st st'"
  "accounted st (st'\<lparr>world := w\<rparr>) = accounted st st'"
  by (simp_all add: accounted_def)

lemma accounted_requests:
  "accounted st st' \<Longrightarrow> newRequests st st' = concat (map sent (newCalls st st'))"
  by (auto simp: accounted_def newRequests_def newCalls_def)

lemma runAgent_accounted:
  "runAgent env a (Some cfgs) dp flag sd tp st = (r, st') \<Longrightarrow> accounted st st'"
  using runAgent_calls [of env a cfgs dp flag sd tp st]
  by (auto simp: accounted_def)

lemma expertTurn_accounted:
  "expertTurn env fc ctx cfgs gse e h m st = (r, st') \<Longrightarrow> accounted st st'"
  by (auto simp: expertTurn_def Let_def split: option.splits prod.splits sum.splits
      dest: runAgent_accounted)

lemma expertsLoop_accounted:
  "expertsLoop env fc ctx cfgs gse ids h m st = (r, st') \<Longrightarrow> accounted st st'"
proof (induction ids arbitrary: h m st)
  case Nil
  then show ?case by simp
next
  case (Cons e ids)
  obtain r1 st1 where t: "expertTurn env fc ctx cfgs gse e h m st = (r1, st1)"
    by (cases "expertTurn env fc ctx cfgs gse e h m st")
  note first = expertTurn_accounted [OF t]
  show ?case
  proof (cases r1)
    case (Inl err)
    with Cons.prems t first show ?thesis by simp
  next
    case (Inr pair)
    obtain h1 m1 where "pair = (h1, m1)" by (cases pair)
    with Cons.prems t Inr have "expertsLoop env fc ctx cfgs gse ids h1 m1 st1 = (r, st')"
      by simp
    from accounted_trans [OF first Cons.IH [OF this]] show ?thesis .
  qed
qed

lemma turnsLoop_accounted:
  "turnsLoop env fc ctx cfgs gse turn h m st = (r, st') \<Longrightarrow> accounted st st'"
proof (induction env fc ctx cfgs gse turn h m st rule: turnsLoop.induct)
  case (1 env fc ctx cfgs gse turn h m st)
  show ?case
  proof (cases "turn < discussionTurns")
    case False
    with "1.prems" show ?thesis
      by (subst (asm) turnsLoop.simps) simp
  next
    case True
    obtain r1 st1 where t: "expertsLoop env fc ctx cfgs gse expertAgentIds h m st = (r1, st1)"
      by (cases "expertsLoop env fc ctx cfgs gse expertAgentIds h m st")
    note first = expertsLoop_accounted [OF t]
    show ?thesis
    proof (cases r1)
      case (Inl err)
      with "1.prems" True t first show ?thesis
        by (subst (asm) turnsLoop.simps) simp
    next
      case (Inr pair)
      obtain h1 m1 where pair: "pair = (h1, m1)" by (cases pair)
      from "1.prems" True t Inr pair
      have "turnsLoop env fc ctx cfgs gse (Suc turn) h1 m1 st1 = (r, st')"
        by (subst (asm) turnsLoop.simps) simp
      from accounted_trans [OF first "1.IH" [OF True t [symmetric] Inr pair [symmetric] this]]
      show ?thesis .
    qed
  qed
qed

lemma runSingleIteration_accounted:
  "runSingleIteration env fc ctx cfgs m gse i st = (r, st') \<Longrightarrow> accounted st st'"
  by (auto simp: runSingleIteration_def split: option.splits prod.splits sum.splits
      dest!: runAgent_accounted turnsLoop_accounted intro: accounted_trans)

lemma iterationsLoop_accounted:
  "iterationsLoop env fc ctx cfgs gse n i acc m st = (r, st') \<Longrightarrow> accounted st st'"
proof (induction env fc ctx cfgs gse n i acc m st rule: iterationsLoop.induct)
  case (1 env fc ctx cfgs gse n i acc m st)
  show ?case
  proof (cases "i \<le> n")
    case False
    with "1.prems" show ?thesis
      by (subst (asm) iterationsLoop.simps) simp
  next
    case True
    obtain r1 st1 where t: "runSingleIteration env fc ctx cfgs m gse i st = (r1, st1)"
      by (cases "runSingleIteration env fc ctx cfgs m gse i st")
    note first = runSingleIteration_accounted [OF t]
    show ?thesis
    proof (cases r1)
      case (Inl err)
      with "1.prems" True t first show ?thesis
        by (subst (asm) iterationsLoop.simps) simp
    next
      case (Inr triple)
      obtain h ev m1 where triple: "triple = (h, ev, m1)" by (cases triple)
      show ?thesis
      proof (cases "convertibleValue (feasibilityScore ev)")
        case False
        with "1.prems" True t Inr triple first show ?thesis
          by (subst (asm) iterationsLoop.simps) simp
      next
        case conv: True
        then have conv': "\<not> \<not> convertibleValue (feasibilityScore ev)" by simp
        from "1.prems" True t Inr triple conv
        have "iterationsLoop env fc ctx cfgs gse n (Suc i)
                (acc @ [evaluationResult.extend ev (independentEvaluation.fields h)]) m1 st1 =
              (r, st')"
          by (subst (asm) iterationsLoop.simps) simp
        from accounted_trans
          [OF first "1.IH" [OF True t [symmetric] Inr triple [symmetric] refl conv' this]]
        show ?thesis .
      qed
    qed
  qed
qed

lemma runDiscussionAndDecision_accounted:
  "runDiscussionAndDecision env fc ctx cfgs m gse st = (r, st') \<Longrightarrow> accounted st st'"
  by (auto simp: runDiscussionAndDecision_def split: option.splits prod.splits sum.splits
      dest!: iterationsLoop_accounted)

lemma handleRestartDiscussion_accounted:
  "handleRestartDiscussion env fc ctx (Some cfgs) gse st = (r, st') \<Longrightarrow> accounted st st'"
  by (auto simp: handleRestartDiscussion_def split: if_splits prod.splits sum.splits
      dest!: runDiscussionAndDecision_accounted)

lemma summarize_accounted:
  "summarize env fc cfgs content st = (r, st') \<Longrightarrow> accounted st st'"
  by (auto simp: summarize_def split: option.splits prod.splits dest!: runAgent_accounted)

lemma summaryPhase_accounted:
  "summaryPhase env fc cfgs proposal st = (r, st') \<Longrightarrow> accounted st st'"
  by (auto simp: summaryPhase_def
      split: if_splits prod.splits sum.splits fetchOutcome.splits thrown.splits
      dest!: summarize_accounted)

lemma trackerPhase_accounted:
  "trackerPhase env fc cfgs metrics st = (r, st') \<Longrightarrow> accounted st st'"
  by (auto simp: trackerPhase_def split: option.splits prod.splits dest!: runAgent_accounted)

lemma runSimulation_accounted:
  "runSimulation env fc (Some cfgs) proposal gse st = (r, st') \<Longrightarrow> accounted st st'"
  by (auto simp: runSimulation_def split: if_splits option.splits prod.splits sum.splits
      dest!: runAgent_accounted summaryPhase_accounted runDiscussionAndDecision_accounted
        trackerPhase_accounted)
    (blast intro: accounted_trans)+

lemma askExpert_accounted:
  "askExpert env fc cfgs gse ctx q e st = (r, st') \<Longrightarrow> accounted st st'"
  by (auto simp: askExpert_def Let_def split: option.splits prod.splits
      dest!: runAgent_accounted)

lemma askExperts_accounted:
  "askExperts env fc cfgs gse ctx q ids st = (r, st') \<Longrightarrow> accounted st st'"
proof (induction ids arbitrary: r st st')
  case Nil
  then show ?case by simp
next
  case (Cons e ids)
  obtain r1 st1 where t: "askExpert env fc cfgs gse ctx q e st = (r1, st1)"
    by (cases "askExpert env fc cfgs gse ctx q e st")
  obtain rs st2 where u: "askExperts env fc cfgs gse ctx q ids st1 = (rs, st2)"
    by (cases "askExperts env fc cfgs gse ctx q ids st1")
  from Cons.prems t u have "st' = st2" by simp
  with accounted_trans [OF askExpert_accounted [OF t] Cons.IH [OF u]] show ?case
    by simp
qed

lemma updateLoop_accounted:
  "updateLoop env fc cfgs q responses messages updates st = (r, st') \<Longrightarrow> accounted st st'"
proof (induction responses arbitrary: messages updates st)
  case Nil
  then show ?case by simp
next
  case (Cons x responses)
  from Cons.prems show ?case
    by (auto simp: Let_def split: option.splits prod.splits
        dest!: runAgent_accounted Cons.IH intro: accounted_trans)
qed

lemma handleAskQuestion_accounted:
  "handleAskQuestion env fc (Some cfgs) proposal shown outputs discussion history gse q st =
     (r, st') \<Longrightarrow> accounted st st'"
  by (auto simp: handleAskQuestion_def Let_def
      split: if_splits option.splits prod.splits sum.splits
      dest!: askExperts_accounted updateLoop_accounted intro: accounted_trans)

lemma handleAskQuestion_first_call:
  assumes "\<not> (outputContent theDecision = [] \<or> startsWith (outputContent theDecision) ''Error:'')"
    and "cfgs ''expert_1'' \<noteq> None"
  shows "\<exists>c rest. newCalls st (snd (handleAskQuestion env fc (Some cfgs) (Some theProposal)
                                      (Some theDecision) outputs discussion history gse q st)) =
                     c # rest \<and> participant c = ''expert_1''"
proof -
  from assms(2) obtain agentConfig where cfg: "cfgs ''expert_1'' = Some agentConfig"
    by auto
  define ctx where "ctx = buildContext env theProposal outputs discussion theDecision history"
  define r where
    "r = runAgent env ''expert_1'' (Some cfgs)
           (Some (truncatePromptIfNeeded (questionPrompt ctx q agentConfig) MAX_CONTEXT_TOKENS))
           (gse \<and> startsWith ''expert_1'' ''expert_'') (frameworkSeed fc)
           (frameworkTemperature fc) st"
  obtain c where c: "calls (snd r) = calls st @ [c]" "participant c = ''expert_1''"
    unfolding r_def using runAgent_calls by blast
  have "snd (askExpert env fc cfgs gse ctx q ''expert_1'' st) = snd r"
    using cfg by (simp add: askExpert_def Let_def r_def split: prod.split)
  then obtain result where first: "askExpert env fc cfgs gse ctx q ''expert_1'' st = (result, snd r)"
    by (metis prod.collapse)
  obtain results st1 where
    others: "askExperts env fc cfgs gse ctx q [''expert_2'', ''expert_3''] (snd r) = (results, st1)"
    by (cases "askExperts env fc cfgs gse ctx q [''expert_2'', ''expert_3''] (snd r)")
  obtain n1 where n1: "calls st1 = calls (snd r) @ n1"
    using askExperts_calls [of env fc cfgs gse ctx q "[''expert_2'', ''expert_3'']" "snd r"] others
    by auto
  have asked: "askExperts env fc cfgs gse ctx q expertIds st = (result # results, st1)"
    using first others by (simp add: expertIds_def)
  obtain outcome st2 where
    whole: "handleAskQuestion env fc (Some cfgs) (Some theProposal) (Some theDecision) outputs
              discussion history gse q st = (outcome, st2)"
    and n2: "\<exists>n2. calls st2 = calls st1 @ n2"
  proof (cases "promiseAll (result # results)")
    case (Inl e)
    with assms(1) asked show ?thesis
      by (intro that [of _ st1]) (simp_all add: handleAskQuestion_def Let_def ctx_def [symmetric])
  next
    case (Inr expertResponses)
    define messages where
      "messages =
         UserChat \<lparr>messageType = UserMessage, agentId = ''user'', agentName = ''You'',
                   message = q\<rparr> # map expertMessage expertResponses"
    obtain out st2 where u: "updateLoop env fc cfgs q expertResponses messages [] st1 = (out, st2)"
      by (cases "updateLoop env fc cfgs q expertResponses messages [] st1")
    have "\<exists>n2. calls st2 = calls st1 @ n2"
      using updateLoop_calls [of env fc cfgs q expertResponses messages "[]" st1] u by auto
    moreover have "handleAskQuestion env fc (Some cfgs) (Some theProposal) (Some theDecision)
        outputs discussion history gse q st = (Some out, st2)"
      using assms(1) asked Inr u
      by (simp add: handleAskQuestion_def Let_def ctx_def [symmetric] messages_def)
    ultimately show ?thesis
      by (rule that [rotated])
  qed
  from n2 obtain n2 where "calls st2 = calls st1 @ n2" ..
  with n1 c(1) have "calls st2 = calls st @ (c # n1 @ n2)"
    by simp
  then have "newCalls st st2 = c # n1 @ n2"
    by (simp add: newCalls_def)
  with whole c(2) show ?thesis
    by simp
qed

text \<open>
  C9. In a whole simulation, in a restarted discussion and in the answering of a question,
  every request that reaches the generation service during the call of a participant
  holds the search tool exactly when the search toggle is on and the participant is an
  expert discussion role; so a call has search attached exactly when, besides, a request
  is sent at all (the API key is set and the participant is configured). Every request of
  these runs is sent during one of their calls, and the request of the report formatter
  never holds the search tool. The experts are expert discussion roles; the
  classification, the summarization and the scoring participant are not, so their calls
  never have search attached, whatever the toggle.
\<close>

theorem search_restricted_to_experts:
  "(\<forall>c \<in> set (newCalls st (snd (runSimulation env frameworkConfig (Some configsForRun)
                                    currentProposal searchToggle st))).
      (\<forall>r \<in> set (sent c).
         withSearch r \<longleftrightarrow> searchToggle \<and> isExpertRole (participant c)) \<and>
      (searchAttached c \<longleftrightarrow>
         searchToggle \<and> isExpertRole (participant c) \<and>
         GEMINI_API_KEY env \<and> configsForRun (participant c) \<noteq> None)) \<and>
   newRequests st (snd (runSimulation env frameworkConfig (Some configsForRun)
                          currentProposal searchToggle st)) =
     concat (map sent (newCalls st (snd (runSimulation env frameworkConfig (Some configsForRun)
                                           currentProposal searchToggle st)))) \<and>
   (\<forall>c \<in> set (newCalls st (snd (handleRestartDiscussion env frameworkConfig initialContext
                                    (Some configsForRun) searchToggle st))).
      (\<forall>r \<in> set (sent c).
         withSearch r \<longleftrightarrow> searchToggle \<and> isExpertRole (participant c)) \<and>
      (searchAttached c \<longleftrightarrow>
         searchToggle \<and> isExpertRole (participant c) \<and>
         GEMINI_API_KEY env \<and> configsForRun (participant c) \<noteq> None)) \<and>
   newRequests st (snd (handleRestartDiscussion env frameworkConfig initialContext
                          (Some configsForRun) searchToggle st)) =
     concat (map sent (newCalls st (snd (handleRestartDiscussion env frameworkConfig
                                           initialContext (Some configsForRun) searchToggle
                                           st)))) \<and>
   (\<forall>c \<in> set (newCalls st (snd (handleAskQuestion env frameworkConfig (Some configsForRun)
                                    proposal shownDecision section1Outputs discussionMessages
                                    qaMessages searchToggle question st))).
      (\<forall>r \<in> set (sent c).
         withSearch r \<longleftrightarrow> searchToggle \<and> isExpertRole (participant c)) \<and>
      (searchAttached c \<longleftrightarrow>
         searchToggle \<and> isExpertRole (participant c) \<and>
         GEMINI_API_KEY env \<and> configsForRun (participant c) \<noteq> None)) \<and>
   newRequests st (snd (handleAskQuestion env frameworkConfig (Some configsForRun)
                          proposal shownDecision section1Outputs discussionMessages
                          qaMessages searchToggle question st)) =
     concat (map sent (newCalls st (snd (handleAskQuestion env frameworkConfig
                                           (Some configsForRun) proposal shownDecision
                                           section1Outputs discussionMessages qaMessages
                                           searchToggle question st)))) \<and>
   (\<forall>r \<in> set (newRequests st (snd (formatSummary env frameworkConfig agentConfigs
                                       summaryData st))).
      \<not> withSearch r) \<and>
   (\<forall>expert \<in> set expertAgentIds. isExpertRole expert) \<and>
   \<not> isExpertRole classificationAgentId \<and> \<not> isExpertRole summarizeAgentId \<and>
   \<not> isExpertRole finalAgentId"
proof (intro conjI)
  obtain new where
    "calls (snd (runSimulation env frameworkConfig (Some configsForRun) currentProposal
                   searchToggle st)) = calls st @ new"
    "list_all (searchRule env configsForRun searchToggle) new"
    using runSimulation_calls by blast
  then show "\<forall>c \<in> set (newCalls st (snd (runSimulation env frameworkConfig (Some configsForRun)
                                    currentProposal searchToggle st))).
      (\<forall>r \<in> set (sent c).
         withSearch r \<longleftrightarrow> searchToggle \<and> isExpertRole (participant c)) \<and>
      (searchAttached c \<longleftrightarrow>
         searchToggle \<and> isExpertRole (participant c) \<and>
         GEMINI_API_KEY env \<and> configsForRun (participant c) \<noteq> None)"
    by (simp add: newCalls_def list_all_iff searchRule_def)
next
  obtain new where
    "calls (snd (handleRestartDiscussion env frameworkConfig initialContext (Some configsForRun)
                   searchToggle st)) = calls st @ new"
    "list_all (searchRule env configsForRun searchToggle) new"
    using handleRestartDiscussion_calls by blast
  then show "\<forall>c \<in> set (newCalls st (snd (handleRestartDiscussion env frameworkConfig
                                    initialContext (Some configsForRun) searchToggle st))).
      (\<forall>r \<in> set (sent c).
         withSearch r \<longleftrightarrow> searchToggle \<and> isExpertRole (participant c)) \<and>
      (searchAttached c \<longleftrightarrow>
         searchToggle \<and> isExpertRole (participant c) \<and>
         GEMINI_API_KEY env \<and> configsForRun (participant c) \<noteq> None)"
    by (simp add: newCalls_def list_all_iff searchRule_def)
next
  obtain new where
    "calls (snd (handleAskQuestion env frameworkConfig (Some configsForRun) proposal
                   shownDecision section1Outputs discussionMessages qaMessages searchToggle
                   question st)) = calls st @ new"
    "list_all (searchRule env configsForRun searchToggle) new"
    using handleAskQuestion_calls by blast
  then show "\<forall>c \<in> set (newCalls st (snd (handleAskQuestion env frameworkConfig
                                    (Some configsForRun) proposal shownDecision
                                    section1Outputs discussionMessages qaMessages
                                    searchToggle question st))).
      (\<forall>r \<in> set (sent c).
         withSearch r \<longleftrightarrow> searchToggle \<and> isExpertRole (participant c)) \<and>
      (searchAttached c \<longleftrightarrow>
         searchToggle \<and> isExpertRole (participant c) \<and>
         GEMINI_API_KEY env \<and> configsForRun (participant c) \<noteq> None)"
    by (simp add: newCalls_def list_all_iff searchRule_def)
next
  show "newRequests st (snd (runSimulation env frameworkConfig (Some configsForRun)
                          currentProposal searchToggle st)) =
     concat (map sent (newCalls st (snd (runSimulation env frameworkConfig (Some configsForRun)
                                           currentProposal searchToggle st))))"
    by (rule accounted_requests) (rule runSimulation_accounted [OF prod.collapse [symmetric]])
next
  show "newRequests st (snd (handleRestartDiscussion env frameworkConfig initialContext
                          (Some configsForRun) searchToggle st)) =
     concat (map sent (newCalls st (snd (handleRestartDiscussion env frameworkConfig
                                           initialContext (Some configsForRun) searchToggle
                                           st))))"
    by (rule accounted_requests)
      (rule handleRestartDiscussion_accounted [OF prod.collapse [symmetric]])
next
  show "newRequests st (snd (handleAskQuestion env frameworkConfig (Some configsForRun)
                          proposal shownDecision section1Outputs discussionMessages
                          qaMessages searchToggle question st)) =
     concat (map sent (newCalls st (snd (handleAskQuestion env frameworkConfig
                                           (Some configsForRun) proposal shownDecision
                                           section1Outputs discussionMessages qaMessages
                                           searchToggle question st))))"
    by (rule accounted_requests) (rule handleAskQuestion_accounted [OF prod.collapse [symmetric]])
next
  obtain new where
    "requests (snd (formatSummary env frameworkConfig agentConfigs summaryData st)) =
     requests st @ new"
    "list_all (\<lambda>r. \<not> withSearch r) new"
    using formatSummary_requests by blast
  then show "\<forall>r \<in> set (newRequests st (snd (formatSummary env frameworkConfig agentConfigs
                                       summaryData st))).
      \<not> withSearch r"
    by (simp add: newRequests_def list_all_iff)
qed (simp_all add: other_roles expert_roles final_not_expert_role)

theorem search_restricted_to_experts_witness:
  "(\<exists>c \<in> set (newCalls testState
                 (snd (runSimulation (testEnv (Response ''ok'' None) rejectAll) (testFramework 1)
                         (Some testConfigs) testProposal True testState))).
      participant c = ''proposal_classification_agent'' \<and> \<not> searchAttached c) \<and>
   (\<exists>c \<in> set (newCalls testState
                 (snd (handleRestartDiscussion (testEnv (Response ''ok'' None) rejectAll)
                         (testFramework 1) ''context'' (Some testConfigs) True testState))).
      participant c = ''expert_1'' \<and> searchAttached c) \<and>
   (\<exists>c \<in> set (newCalls testState
                 (snd (handleAskQuestion (testEnv (Response ''ok'' None) rejectAll)
                         (testFramework 1) (Some testConfigs) (Some testProposal)
                         (Some testDecision) [] [] [] True ''Why?'' testState))).
      participant c = ''expert_1'' \<and> searchAttached c) \<and>
   (\<exists>r \<in> set (newRequests testState
                 (snd (formatSummary (testEnv (Response ''ok'' None) rejectAll)
                         (testFramework 1) reportConfigs (JObj []) testState))).
      \<not> withSearch r)"
proof -
  let ?env = "testEnv (Response ''ok'' None) rejectAll"
  note rule = search_restricted_to_experts [where st = testState and env = ?env and
      frameworkConfig = "testFramework 1" and configsForRun = testConfigs and
      currentProposal = testProposal and searchToggle = True and initialContext = "''context''" and
      proposal = "Some testProposal" and shownDecision = "Some testDecision" and
      section1Outputs = "[]" and discussionMessages = "[]" and qaMessages = "[]" and
      question = "''Why?''" and agentConfigs = reportConfigs and summaryData = "JObj []"]
  have key: "GEMINI_API_KEY ?env"
    by (simp add: testEnv_def)
  obtain new where new:
    "calls (snd (runSimulation ?env (testFramework 1) (Some testConfigs) testProposal True
                   testState)) = calls testState @ new"
    "new \<noteq> []" "participant (hd new) = classificationAgentId"
    using runSimulation_calls [of ?env "testFramework 1" testConfigs testProposal True testState]
    by (auto simp: testConfigs_def classificationAgentId_def summarizeAgentId_def
        finalAgentId_def)
  then have in1: "hd new \<in> set (newCalls testState
      (snd (runSimulation ?env (testFramework 1) (Some testConfigs) testProposal True testState)))"
    by (simp add: newCalls_def)
  have "\<not> searchAttached (hd new)"
    using rule in1 new(3) by (auto simp: other_roles)
  with in1 new(3) have first: "\<exists>c \<in> set (newCalls testState
      (snd (runSimulation ?env (testFramework 1) (Some testConfigs) testProposal True testState))).
      participant c = ''proposal_classification_agent'' \<and> \<not> searchAttached c"
    by (auto simp: classificationAgentId_def)
  obtain outcome st' where
    run: "runDiscussionAndDecision ?env (testFramework 1) ''context'' testConfigs emptyMetrics
            True testState = (Inr outcome, st')"
    and parts: "map participant (newCalls testState st') =
                  concat (replicate (iterations (testFramework 1)) iterationParticipants)"
    using run_records [OF testConfigs_configured emptyMetrics_complete] by blast
  have st': "snd (handleRestartDiscussion ?env (testFramework 1) ''context'' (Some testConfigs)
                    True testState) = st'"
    using run by (simp add: handleRestartDiscussion_def)
  from parts obtain c rest where c: "newCalls testState st' = c # rest"
    "participant c = ''expert_1''"
    by (auto simp: testFramework_def iterationParticipants_def discussionTurns_def
        expertAgentIds_def numeral_2_eq_2 map_eq_Cons_conv)
  then have in2: "c \<in> set (newCalls testState st')"
    by simp
  have expert: "isExpertRole ''expert_1''" "testConfigs ''expert_1'' \<noteq> None"
    by (simp_all add: isExpertRole_def startsWith_def testConfigs_def)
  with rule in2 c(2) key have "searchAttached c"
    unfolding st' by auto
  with in2 c(2) have second:
    "\<exists>c \<in> set (newCalls testState
                  (snd (handleRestartDiscussion ?env (testFramework 1) ''context''
                          (Some testConfigs) True testState))).
       participant c = ''expert_1'' \<and> searchAttached c"
    unfolding st' by auto
  have shown: "\<not> (outputContent testDecision = [] \<or>
                   startsWith (outputContent testDecision) ''Error:'')"
    by (simp add: testDecision_def startsWith_def)
  obtain c3 rest3 where c3:
    "newCalls testState
       (snd (handleAskQuestion ?env (testFramework 1) (Some testConfigs) (Some testProposal)
               (Some testDecision) [] [] [] True ''Why?'' testState)) = c3 # rest3"
    "participant c3 = ''expert_1''"
    using handleAskQuestion_first_call [where cfgs = testConfigs, OF shown expert(2)] by blast
  then have in3: "c3 \<in> set (newCalls testState
       (snd (handleAskQuestion ?env (testFramework 1) (Some testConfigs) (Some testProposal)
               (Some testDecision) [] [] [] True ''Why?'' testState)))"
    by simp
  with rule c3(2) key expert have "searchAttached c3"
    by auto
  with in3 c3(2) have third:
    "\<exists>c \<in> set (newCalls testState
                  (snd (handleAskQuestion ?env (testFramework 1) (Some testConfigs)
                          (Some testProposal) (Some testDecision) [] [] [] True ''Why?''
                          testState))).
       participant c = ''expert_1'' \<and> searchAttached c"
    by auto
  define args where
    "args = AgentConfig.extend
              ((testConfig ''Formatter'')
                 \<lparr>prompt := String_replace ?env (prompt (testConfig ''Formatter''))
                              ''{json_content}'' (JSON_stringify ?env (JObj []))\<rparr>)
              (RunAgentQueryArgs.fields False (frameworkSeed (testFramework 1))
                 (frameworkTemperature (testFramework 1)))"
  have "snd (formatSummary ?env (testFramework 1) reportConfigs (JObj []) testState) =
        snd (runAgentQuery ?env args testState)"
    by (simp add: formatSummary_def reportConfigs_def formatterAgentId_def Let_def args_def
        split: prod.split)
  then have "newRequests testState
          (snd (formatSummary ?env (testFramework 1) reportConfigs (JObj []) testState)) \<noteq> []"
    using key by (simp add: newRequests_def runAgentQuery_requests)
  then obtain r where in4: "r \<in> set (newRequests testState
          (snd (formatSummary ?env (testFramework 1) reportConfigs (JObj []) testState)))"
    by (meson hd_in_set)
  with rule have "\<not> withSearch r"
    by blast
  with in4 have fourth:
    "\<exists>r \<in> set (newRequests testState
                  (snd (formatSummary ?env (testFramework 1) reportConfigs (JObj []) testState))).
       \<not> withSearch r"
    by auto
  from first second third fourth show ?thesis
    by simp
qed

end
